(* ===== verification/Qid_Prelude.thy ===== *)
theory Qid_Prelude
  imports
    Complex_Main
    "HOL-Library.Word"
    "HOL-Library.AList"
    "HOL-Library.Char_ord"
    "HOL-Library.List_Lexorder"
    "HOL-Library.Product_Lexorder"
begin

text \<open>
  Shared vocabulary of the development: the error type of \<^verbatim>\<open>qid-core/src/error.rs\<close>, the
  saturating and checked operations of Rust's unsigned integers, the string operations of
  Rust's \<^verbatim>\<open>str\<close> the components use, and hash maps as association lists.

  Strings. A Rust \<^verbatim>\<open>str\<close> is the list of its UTF-8 octets, so \<^typ>\<open>string\<close> (a list of
  8-bit characters) holds exactly the bytes of the Rust value: equality, \<^verbatim>\<open>len\<close>,
  \<^verbatim>\<open>starts_with\<close>, \<^verbatim>\<open>strip_prefix\<close>, \<^verbatim>\<open>cmp\<close> and \<^verbatim>\<open>format!\<close> agree with the
  list operations below byte for byte.

  Hash maps. A \<^verbatim>\<open>HashMap\<close> is an association list with distinct keys; the list order
  stands for the map's unspecified iteration order, over which every theorem quantifies.
\<close>

section \<open>Collections of facts\<close>

named_theorems qid_simps \<open>unfolding rules of small operations\<close>
named_theorems qid_dest \<open>destruction rules of fallible operations\<close>

section \<open>Errors as values\<close>

datatype qid_error =
    Config string
  | Crypto string
  | Storage string
  | NotFound string
  | Unauthorized string
  | BadRequest string
  | Internal string
  | TooManyRequests string
  | AttemptBudgetSpent string
  | Conflict string
  | DpopNonce string

type_synonym 'a result = "qid_error + 'a"

text \<open>The question-mark operator: stop at the first error.\<close>

fun and_then :: "('e + 'a) \<Rightarrow> ('a \<Rightarrow> 'e + 'b) \<Rightarrow> 'e + 'b" where
  "and_then (Inl e) f = Inl e"
| "and_then (Inr a) f = f a"

lemma and_then_cong [fundef_cong]:
  "m = m' \<Longrightarrow> (\<And>a. m' = Inr a \<Longrightarrow> f a = g a) \<Longrightarrow> and_then m f = and_then m' g"
  by (cases m') auto

definition ok_or :: "'e \<Rightarrow> 'a option \<Rightarrow> 'e + 'a" where
  "ok_or e x = (case x of None \<Rightarrow> Inl e | Some a \<Rightarrow> Inr a)"

definition is_ok :: "('e + 'a) \<Rightarrow> bool" where
  "is_ok r = (case r of Inl _ \<Rightarrow> False | Inr _ \<Rightarrow> True)"

text \<open>A \<^verbatim>\<open>for\<close> loop over a list whose body may return an error.\<close>

fun try_each :: "('a \<Rightarrow> 'e + unit) \<Rightarrow> 'a list \<Rightarrow> 'e + unit" where
  "try_each f [] = Inr ()"
| "try_each f (x # xs) = and_then (f x) (\<lambda>_. try_each f xs)"

text \<open>Counting in such a loop.\<close>

fun try_sum :: "('a \<Rightarrow> 'e + nat) \<Rightarrow> 'a list \<Rightarrow> 'e + nat" where
  "try_sum f [] = Inr 0"
| "try_sum f (x # xs) = and_then (f x) (\<lambda>n. and_then (try_sum f xs) (\<lambda>m. Inr (n + m)))"

text \<open>\<^verbatim>\<open>iter().map(f).collect::<Result<Vec<_>, _>>()\<close>.\<close>

fun try_map :: "('a \<Rightarrow> 'e + 'b) \<Rightarrow> 'a list \<Rightarrow> 'e + 'b list" where
  "try_map f [] = Inr []"
| "try_map f (x # xs) = and_then (f x) (\<lambda>y. and_then (try_map f xs) (\<lambda>ys. Inr (y # ys)))"

section \<open>Machine integers\<close>

type_synonym octet = "8 word"
type_synonym u32 = "32 word"
type_synonym u64 = "64 word"

definition sat_add :: "'a::len word \<Rightarrow> 'a word \<Rightarrow> 'a word" where
  "sat_add a b = (if a + b < a then - 1 else a + b)"

definition sat_sub :: "'a::len word \<Rightarrow> 'a word \<Rightarrow> 'a word" where
  "sat_sub a b = (if a < b then 0 else a - b)"

definition checked_add :: "'a::len word \<Rightarrow> 'a word \<Rightarrow> 'a word option" where
  "checked_add a b = (if a + b < a then None else Some (a + b))"

text \<open>\<^verbatim>\<open>i64::try_from(x).is_ok()\<close> on an unsigned 64-bit value.\<close>

definition fits_i64 :: "u64 \<Rightarrow> bool" where
  "fits_i64 x \<longleftrightarrow> x < 0x8000000000000000"

section \<open>Strings\<close>

fun strip_prefix :: "string \<Rightarrow> string \<Rightarrow> string option" where
  "strip_prefix [] s = Some s"
| "strip_prefix (p # ps) [] = None"
| "strip_prefix (p # ps) (c # s) = (if p = c then strip_prefix ps s else None)"

definition strip_suffix :: "string \<Rightarrow> string \<Rightarrow> string option" where
  "strip_suffix p s = map_option rev (strip_prefix (rev p) (rev s))"

definition starts_with :: "string \<Rightarrow> string \<Rightarrow> bool" where
  "starts_with s p = (strip_prefix p s \<noteq> None)"

definition ends_with :: "string \<Rightarrow> string \<Rightarrow> bool" where
  "ends_with s p = (strip_suffix p s \<noteq> None)"

definition byte :: "nat \<Rightarrow> char" where
  "byte n = char_of n"

definition byte_val :: "char \<Rightarrow> nat" where
  "byte_val c = of_char c"

text \<open>
  The characters with the Unicode property \<^verbatim>\<open>White_Space\<close>, which \<^verbatim>\<open>str::trim\<close> removes, as
  the octet sequences that encode them.
\<close>

definition white_space :: "string list" where
  "white_space =
     map (\<lambda>n. [byte n]) [0x09, 0x0a, 0x0b, 0x0c, 0x0d, 0x20]
     @ [[byte 0xc2, byte 0x85], [byte 0xc2, byte 0xa0], [byte 0xe1, byte 0x9a, byte 0x80]]
     @ map (\<lambda>n. [byte 0xe2, byte 0x80, byte n])
         [0x80, 0x81, 0x82, 0x83, 0x84, 0x85, 0x86, 0x87, 0x88, 0x89, 0x8a, 0xa8, 0xa9, 0xaf]
     @ [[byte 0xe2, byte 0x81, byte 0x9f], [byte 0xe3, byte 0x80, byte 0x80]]"

fun strip_one :: "string list \<Rightarrow> string \<Rightarrow> string option" where
  "strip_one [] s = None"
| "strip_one (w # ws) s =
     (case strip_prefix w s of Some r \<Rightarrow> Some r | None \<Rightarrow> strip_one ws s)"

text \<open>Every character removed is at least one octet, so the length of the text bounds the loop.\<close>

fun strip_many :: "nat \<Rightarrow> string list \<Rightarrow> string \<Rightarrow> string" where
  "strip_many 0 ws s = s"
| "strip_many (Suc n) ws s =
     (case strip_one ws s of Some r \<Rightarrow> strip_many n ws r | None \<Rightarrow> s)"

definition trim_start :: "string \<Rightarrow> string" where
  "trim_start s = strip_many (length s) white_space s"

definition trim_end :: "string \<Rightarrow> string" where
  "trim_end s = rev (strip_many (length s) (map rev white_space) (rev s))"

definition trim :: "string \<Rightarrow> string" where
  "trim s = trim_end (trim_start s)"

text \<open>
  \<^verbatim>\<open>char::is_control\<close>: the C0 and C1 controls and DEL. UTF-8 is self-synchronising, so a character
  occurs in a text exactly where its octets do, and the characters of a text are the octets that are
  not continuation octets.
\<close>

definition control_chars :: "string list" where
  "control_chars = map (\<lambda>n. [byte n]) ([0..<0x20] @ [0x7f]) @ map (\<lambda>n. [byte 0xc2, byte n]) [0x80..<0xa0]"

fun has_char :: "string list \<Rightarrow> string \<Rightarrow> bool" where
  "has_char cs [] = False"
| "has_char cs (x # s) = (list_ex (\<lambda>c. starts_with (x # s) c) cs \<or> has_char cs s)"

definition char_count :: "string \<Rightarrow> nat" where
  "char_count s = length (filter (\<lambda>c. \<not> (0x80 \<le> byte_val c \<and> byte_val c < 0xc0)) s)"

definition is_lower_hex :: "char \<Rightarrow> bool" where
  "is_lower_hex c \<longleftrightarrow> (48 \<le> byte_val c \<and> byte_val c < 58) \<or> (97 \<le> byte_val c \<and> byte_val c < 103)"

definition constant_time_eq :: "'a list \<Rightarrow> 'a list \<Rightarrow> bool" where
  "constant_time_eq left right \<longleftrightarrow> left = right"

text \<open>Decimal rendering of a count, as \<^verbatim>\<open>format!(\"{}\", n)\<close> writes it.\<close>

definition digit :: "nat \<Rightarrow> char" where
  "digit n = byte (48 + n)"

fun decimal :: "nat \<Rightarrow> string" where
  "decimal n = (if n < 10 then [digit n] else decimal (n div 10) @ [digit (n mod 10)])"

declare decimal.simps [simp del]

section \<open>Hash maps\<close>

type_synonym ('k, 'v) hash_map = "('k \<times> 'v) list"

abbreviation hm_get :: "('k, 'v) hash_map \<Rightarrow> 'k \<Rightarrow> 'v option" where
  "hm_get \<equiv> map_of"

abbreviation hm_insert :: "'k \<Rightarrow> 'v \<Rightarrow> ('k, 'v) hash_map \<Rightarrow> ('k, 'v) hash_map" where
  "hm_insert \<equiv> AList.update"

abbreviation hm_remove :: "'k \<Rightarrow> ('k, 'v) hash_map \<Rightarrow> ('k, 'v) hash_map" where
  "hm_remove \<equiv> AList.delete"

definition hm_contains :: "('k, 'v) hash_map \<Rightarrow> 'k \<Rightarrow> bool" where
  "hm_contains m k = (map_of m k \<noteq> None)"

definition hm_values :: "('k, 'v) hash_map \<Rightarrow> 'v list" where
  "hm_values m = map snd m"

definition hm_wf :: "('k, 'v) hash_map \<Rightarrow> bool" where
  "hm_wf m = distinct (map fst m)"

text \<open>A change through \<^verbatim>\<open>get_mut\<close>, and \<^verbatim>\<open>retain\<close>.\<close>

definition hm_modify :: "'k \<Rightarrow> ('v \<Rightarrow> 'v) \<Rightarrow> ('k, 'v) hash_map \<Rightarrow> ('k, 'v) hash_map" where
  "hm_modify k f m = (case map_of m k of None \<Rightarrow> m | Some v \<Rightarrow> hm_insert k (f v) m)"

definition hm_retain :: "('k \<Rightarrow> 'v \<Rightarrow> bool) \<Rightarrow> ('k, 'v) hash_map \<Rightarrow> ('k, 'v) hash_map" where
  "hm_retain p m = filter (\<lambda>(k, v). p k v) m"

text \<open>\<^verbatim>\<open>is_none_or\<close> on an optional filter, and \<^verbatim>\<open>Option::filter\<close>.\<close>

definition none_or :: "'a option \<Rightarrow> ('a \<Rightarrow> bool) \<Rightarrow> bool" where
  "none_or x p = (case x of None \<Rightarrow> True | Some a \<Rightarrow> p a)"

definition opt_filter :: "('a \<Rightarrow> bool) \<Rightarrow> 'a option \<Rightarrow> 'a option" where
  "opt_filter p x = (case x of None \<Rightarrow> None | Some a \<Rightarrow> if p a then Some a else None)"

section \<open>Facts on results\<close>

lemma and_then_Inr_iff [simp]: "and_then m f = Inr b \<longleftrightarrow> (\<exists>a. m = Inr a \<and> f a = Inr b)"
  by (cases m) auto

lemma and_then_Inl_iff:
  "and_then m f = Inl e \<longleftrightarrow> m = Inl e \<or> (\<exists>a. m = Inr a \<and> f a = Inl e)"
  by (cases m) auto

lemma ok_or_Inr_iff [simp]: "ok_or e x = Inr a \<longleftrightarrow> x = Some a"
  by (cases x) (auto simp: ok_or_def)

lemma ok_or_simps [simp]: "ok_or e None = Inl e" "ok_or e (Some a) = Inr a"
  by (simp_all add: ok_or_def)

lemma opt_filter_Some_iff [simp]: "opt_filter p x = Some a \<longleftrightarrow> x = Some a \<and> p a"
  by (auto simp: opt_filter_def split: option.splits)

lemma opt_filter_None_iff: "opt_filter p x = None \<longleftrightarrow> (\<forall>a. x = Some a \<longrightarrow> \<not> p a)"
  by (auto simp: opt_filter_def split: option.splits)

lemma none_or_simps [simp]: "none_or None p" "none_or (Some a) p = p a"
  by (simp_all add: none_or_def)

lemma is_ok_simps [simp]: "is_ok (Inl e) = False" "is_ok (Inr a) = True"
  by (simp_all add: is_ok_def)

lemma try_each_ok_iff: "try_each f xs = Inr () \<longleftrightarrow> (\<forall>x\<in>set xs. f x = Inr ())"
  by (induction xs) auto

lemma try_each_cases: "try_each f xs = Inr () \<or> (\<exists>x\<in>set xs. \<exists>e. f x = Inl e \<and> try_each f xs = Inl e)"
proof (induction xs)
  case (Cons x xs)
  then show ?case by (cases "f x") auto
qed simp

lemma try_map_Inr_iff: "try_map f xs = Inr ys \<longleftrightarrow> list_all2 (\<lambda>x y. f x = Inr y) xs ys"
proof (induction xs arbitrary: ys)
  case Nil
  then show ?case by auto
next
  case (Cons x xs)
  then show ?case by (cases ys) auto
qed

section \<open>Facts on machine integers\<close>

lemma try_sum_Inr_iff:
  "try_sum f xs = Inr n \<longleftrightarrow> (\<forall>x\<in>set xs. is_ok (f x)) \<and> n = sum_list (map (\<lambda>x. projr (f x)) xs)"
proof (induction xs arbitrary: n)
  case (Cons x xs)
  show ?case by (cases "f x") (auto simp: Cons.IH)
qed auto

lemma try_sum_Inl: "try_sum f xs = Inl e \<Longrightarrow> \<exists>x\<in>set xs. f x = Inl e"
  by (induction xs) (auto simp: and_then_Inl_iff)

lemma unat_bound: "unat a < 2 ^ LENGTH('a)"
  for a :: "'a::len word"
  by (rule unsigned_less)

lemma unat_all_ones [simp]: "unat (- 1 :: 'a::len word) = 2 ^ LENGTH('a) - 1"
  by (simp add: unsigned_minus_1_eq_mask mask_eq_exp_minus_1)

lemma word_add_overflow_iff: "a + b < a \<longleftrightarrow> 2 ^ LENGTH('a) \<le> unat a + unat b"
  for a b :: "'a::len word"
proof (cases "unat a + unat b < 2 ^ LENGTH('a)")
  case True
  then show ?thesis unfolding word_less_nat_alt unat_plus_if' by simp
next
  case False
  with unat_bound [of b] have "unat a + unat b - 2 ^ LENGTH('a) < unat a" by linarith
  with False show ?thesis unfolding word_less_nat_alt unat_plus_if' by simp
qed

lemma unat_add_exact: "unat a + unat b < 2 ^ LENGTH('a) \<Longrightarrow> unat (a + b) = unat a + unat b"
  for a b :: "'a::len word"
  unfolding unat_plus_if' by (rule if_P)

lemma unat_sat_add: "unat (sat_add a b) = min (unat a + unat b) (2 ^ LENGTH('a) - 1)"
  for a b :: "'a::len word"
proof (cases "unat a + unat b < 2 ^ LENGTH('a)")
  case True
  then have "\<not> a + b < a" by (simp only: word_add_overflow_iff not_le)
  with True show ?thesis by (simp add: sat_add_def unat_add_exact)
next
  case False
  then have "a + b < a" by (simp only: word_add_overflow_iff not_less)
  with False show ?thesis by (simp only: sat_add_def if_True unat_all_ones)
qed

lemma unat_sat_sub: "unat (sat_sub a b) = unat a - unat b"
proof (cases "a < b")
  case True
  then show ?thesis by (simp add: sat_sub_def word_less_nat_alt)
next
  case False
  then show ?thesis by (simp add: sat_sub_def unat_sub not_less)
qed

lemma checked_add_Some_iff:
  "checked_add a b = Some c \<longleftrightarrow> unat a + unat b < 2 ^ LENGTH('a) \<and> c = a + b"
  for a b :: "'a::len word"
  by (auto simp only: checked_add_def word_add_overflow_iff not_le not_less split: if_splits)

lemma checked_add_None_iff:
  "checked_add a b = None \<longleftrightarrow> 2 ^ LENGTH('a) \<le> unat a + unat b"
  for a b :: "'a::len word"
  by (simp only: checked_add_def word_add_overflow_iff option.distinct simp_thms split: if_splits)

lemma sat_sub_le [simp]: "sat_sub a b \<le> a"
  unfolding word_le_nat_alt unat_sat_sub by simp

lemma sat_add_ge [simp]: "a \<le> sat_add a b" "b \<le> sat_add a b"
  using unat_bound [of a] unat_bound [of b] unfolding word_le_nat_alt unat_sat_add by linarith+

lemma sat_add_zero [simp]: "sat_add a 0 = a"
  by (simp add: sat_add_def)

lemma sat_add_mono: "b \<le> c \<Longrightarrow> sat_add a b \<le> sat_add a c"
  unfolding word_le_nat_alt unat_sat_add by linarith

lemma sat_add_mono_left: "a \<le> b \<Longrightarrow> sat_add a c \<le> sat_add b c"
  unfolding word_le_nat_alt unat_sat_add by linarith


section \<open>Facts on hash maps\<close>

lemma hm_contains_iff: "hm_contains m k \<longleftrightarrow> k \<in> dom (map_of m)"
  by (simp add: hm_contains_def domIff)

lemma map_of_hm_insert [simp]: "map_of (hm_insert k v m) = (map_of m)(k \<mapsto> v)"
  by (rule update_conv')

lemma map_of_hm_remove [simp]: "map_of (hm_remove k m) = (map_of m)(k := None)"
  by (rule delete_conv')

lemma map_of_hm_modify [simp]: "map_of (hm_modify k f m) = (map_of m)(k := map_option f (map_of m k))"
  by (cases "map_of m k") (auto simp: hm_modify_def fun_eq_iff)

lemma map_of_hm_retain:
  assumes "hm_wf m"
  shows "map_of (hm_retain p m) k =
    (case map_of m k of None \<Rightarrow> None | Some v \<Rightarrow> if p k v then Some v else None)"
  using assms
proof (induction m)
  case (Cons x m)
  then have "map_of m (fst x) = None" by (simp add: hm_wf_def map_of_eq_None_iff)
  with Cons show ?case by (cases x) (auto simp: hm_wf_def hm_retain_def split: option.splits)
qed (simp add: hm_retain_def)

lemma hm_retain_Some_iff [simp]:
  "hm_wf m \<Longrightarrow> map_of (hm_retain p m) k = Some v \<longleftrightarrow> map_of m k = Some v \<and> p k v"
  by (auto simp: map_of_hm_retain split: option.splits)

lemma hm_wf_Nil [simp]: "hm_wf []"
  by (simp add: hm_wf_def)

lemma hm_wf_insert [simp]: "hm_wf m \<Longrightarrow> hm_wf (hm_insert k v m)"
  by (simp add: hm_wf_def distinct_update)

lemma hm_wf_remove [simp]: "hm_wf m \<Longrightarrow> hm_wf (hm_remove k m)"
  by (simp add: hm_wf_def distinct_delete)

lemma hm_wf_modify [simp]: "hm_wf m \<Longrightarrow> hm_wf (hm_modify k f m)"
  by (simp add: hm_modify_def split: option.splits)

lemma hm_wf_retain [simp]: "hm_wf m \<Longrightarrow> hm_wf (hm_retain p m)"
  unfolding hm_wf_def hm_retain_def by (induction m) auto

lemma hm_mem_iff: "hm_wf m \<Longrightarrow> (k, v) \<in> set m \<longleftrightarrow> map_of m k = Some v"
  by (simp add: hm_wf_def)

lemma hm_values_iff: "hm_wf m \<Longrightarrow> v \<in> set (hm_values m) \<longleftrightarrow> (\<exists>k. map_of m k = Some v)"
  by (auto simp: hm_values_def image_iff hm_mem_iff [symmetric] Bex_def)


section \<open>Tables whose rows only move forward\<close>

text \<open>
  Every row of the later table is a row of the earlier one moved along \<open>le\<close>, or one that was absent
  and that \<open>new\<close> admits; rows may go.
\<close>

definition evolves ::
    "('k \<Rightarrow> bool) \<Rightarrow> ('v \<Rightarrow> 'v \<Rightarrow> bool) \<Rightarrow> ('k, 'v) hash_map \<Rightarrow> ('k, 'v) hash_map \<Rightarrow> bool" where
  "evolves new le m m' \<longleftrightarrow> (hm_wf m \<longrightarrow> hm_wf m' \<and>
     (\<forall>k v'. hm_get m' k = Some v' \<longrightarrow>
        (new k \<and> hm_get m k = None) \<or> (\<exists>v. hm_get m k = Some v \<and> le v v')))"

lemma evolves_refl [simp]: "(\<And>v. le v v) \<Longrightarrow> evolves new le m m"
  by (simp add: evolves_def)

lemma evolves_retain [simp]: "(\<And>v. le v v) \<Longrightarrow> evolves new le m (hm_retain p m)"
  by (simp add: evolves_def)

lemma evolves_remove [simp]: "(\<And>v. le v v) \<Longrightarrow> evolves new le m (hm_remove k m)"
  by (auto simp: evolves_def delete_conv split: if_splits)

lemma evolves_insert_new: "hm_get m k = None \<Longrightarrow> new k \<Longrightarrow> (\<And>v. le v v) \<Longrightarrow> evolves new le m (hm_insert k v m)"
  by (auto simp: evolves_def split: if_splits)

lemma evolves_insert: "hm_get m k = Some v \<Longrightarrow> le v v' \<Longrightarrow> (\<And>v. le v v) \<Longrightarrow> evolves new le m (hm_insert k v' m)"
  by (auto simp: evolves_def split: if_splits)

lemma evolves_modify: "(\<And>v. le v (f v)) \<Longrightarrow> (\<And>v. le v v) \<Longrightarrow> evolves new le m (hm_modify k f m)"
  by (auto simp: evolves_def split: if_splits)

lemma evolves_dead:
  assumes "evolves new le m m'" "hm_wf m" "\<not> new k" "\<And>v v'. le v v' \<Longrightarrow> live v' \<Longrightarrow> live v"
    and "\<nexists>v. hm_get m k = Some v \<and> live v"
  shows "\<nexists>v. hm_get m' k = Some v \<and> live v"
  using assms unfolding evolves_def by blast

text \<open>Every row stays and moves along \<open>le\<close>; rows may come.\<close>

definition advances :: "('v \<Rightarrow> 'v \<Rightarrow> bool) \<Rightarrow> ('k, 'v) hash_map \<Rightarrow> ('k, 'v) hash_map \<Rightarrow> bool" where
  "advances le m m' \<longleftrightarrow> (\<forall>k v. hm_get m k = Some v \<longrightarrow> (\<exists>v'. hm_get m' k = Some v' \<and> le v v'))"

lemma advances_refl [simp]: "(\<And>v. le v v) \<Longrightarrow> advances le m m"
  by (simp add: advances_def)

lemma advances_insert:
  "(\<And>v. hm_get m k = Some v \<Longrightarrow> le v v') \<Longrightarrow> (\<And>v. le v v) \<Longrightarrow> advances le m (hm_insert k v' m)"
  by (auto simp: advances_def)

section \<open>Character tables\<close>

text \<open>The same tables with their octets written out, for evaluation.\<close>

lemma white_space_code [code]:
  "white_space =
     [[CHR 0x09], [CHR 0x0A], [CHR 0x0B], [CHR 0x0C], [CHR 0x0D], [CHR 0x20], [CHR 0xC2, CHR 0x85],
      [CHR 0xC2, CHR 0xA0], [CHR 0xE1, CHR 0x9A, CHR 0x80], [CHR 0xE2, CHR 0x80, CHR 0x80],
      [CHR 0xE2, CHR 0x80, CHR 0x81], [CHR 0xE2, CHR 0x80, CHR 0x82],
      [CHR 0xE2, CHR 0x80, CHR 0x83], [CHR 0xE2, CHR 0x80, CHR 0x84],
      [CHR 0xE2, CHR 0x80, CHR 0x85], [CHR 0xE2, CHR 0x80, CHR 0x86],
      [CHR 0xE2, CHR 0x80, CHR 0x87], [CHR 0xE2, CHR 0x80, CHR 0x88],
      [CHR 0xE2, CHR 0x80, CHR 0x89], [CHR 0xE2, CHR 0x80, CHR 0x8A],
      [CHR 0xE2, CHR 0x80, CHR 0xA8], [CHR 0xE2, CHR 0x80, CHR 0xA9],
      [CHR 0xE2, CHR 0x80, CHR 0xAF], [CHR 0xE2, CHR 0x81, CHR 0x9F],
      [CHR 0xE3, CHR 0x80, CHR 0x80]]"
  by (simp add: white_space_def byte_def char_of_eq_iff)

lemma control_chars_code [code]:
  "control_chars =
     [[CHR 0x00], [CHR 0x01], [CHR 0x02], [CHR 0x03], [CHR 0x04], [CHR 0x05], [CHR 0x06],
      [CHR 0x07], [CHR 0x08], [CHR 0x09], [CHR 0x0A], [CHR 0x0B], [CHR 0x0C], [CHR 0x0D],
      [CHR 0x0E], [CHR 0x0F], [CHR 0x10], [CHR 0x11], [CHR 0x12], [CHR 0x13], [CHR 0x14],
      [CHR 0x15], [CHR 0x16], [CHR 0x17], [CHR 0x18], [CHR 0x19], [CHR 0x1A], [CHR 0x1B],
      [CHR 0x1C], [CHR 0x1D], [CHR 0x1E], [CHR 0x1F], [CHR 0x7F], [CHR 0xC2, CHR 0x80],
      [CHR 0xC2, CHR 0x81], [CHR 0xC2, CHR 0x82], [CHR 0xC2, CHR 0x83], [CHR 0xC2, CHR 0x84],
      [CHR 0xC2, CHR 0x85], [CHR 0xC2, CHR 0x86], [CHR 0xC2, CHR 0x87], [CHR 0xC2, CHR 0x88],
      [CHR 0xC2, CHR 0x89], [CHR 0xC2, CHR 0x8A], [CHR 0xC2, CHR 0x8B], [CHR 0xC2, CHR 0x8C],
      [CHR 0xC2, CHR 0x8D], [CHR 0xC2, CHR 0x8E], [CHR 0xC2, CHR 0x8F], [CHR 0xC2, CHR 0x90],
      [CHR 0xC2, CHR 0x91], [CHR 0xC2, CHR 0x92], [CHR 0xC2, CHR 0x93], [CHR 0xC2, CHR 0x94],
      [CHR 0xC2, CHR 0x95], [CHR 0xC2, CHR 0x96], [CHR 0xC2, CHR 0x97], [CHR 0xC2, CHR 0x98],
      [CHR 0xC2, CHR 0x99], [CHR 0xC2, CHR 0x9A], [CHR 0xC2, CHR 0x9B], [CHR 0xC2, CHR 0x9C],
      [CHR 0xC2, CHR 0x9D], [CHR 0xC2, CHR 0x9E], [CHR 0xC2, CHR 0x9F]]"
proof -
  have c0: "[0..<0x20] = [0, 1, 2, 3, 4, 5, 6, 7, 8, 9, 10, 11, 12, 13, 14, 15, 16, 17, 18, 19, 20, 21, 22, 23, 24, 25, 26, 27, 28, 29, 30, 31]"
    by (simp add: upt_rec)
  have c1: "[0x80..<0xa0] = [128, 129, 130, 131, 132, 133, 134, 135, 136, 137, 138, 139, 140, 141, 142, 143, 
      144, 145, 146, 147, 148, 149, 150, 151, 152, 153, 154, 155, 156, 157, 158, 159]"
    by (simp add: upt_rec)
  show ?thesis unfolding control_chars_def c0 c1 by (simp add: byte_def char_of_eq_iff)
qed

lemma byte_image: "list_all (\<lambda>k. k < 256) ks \<Longrightarrow> c \<in> set (map byte ks) \<longleftrightarrow> byte_val c \<in> set ks"
proof (induction ks)
  case (Cons k ks)
  then have "c = byte k \<longleftrightarrow> byte_val c = k"
    using char_of_eq_iff [of k c] by (auto simp: byte_def byte_val_def take_bit_nat_eq_self)
  with Cons show ?case by simp
qed simp

lemma is_lower_hex_code [code]: "is_lower_hex c \<longleftrightarrow> c \<in> set ''0123456789abcdef''"
proof -
  let ?ks = "[48, 49, 50, 51, 52, 53, 54, 55, 56, 57, 97, 98, 99, 100, 101, 102] :: nat list"
  have "is_lower_hex c \<longleftrightarrow> byte_val c \<in> set ?ks"
    unfolding is_lower_hex_def by (simp, presburger)
  also have "\<dots> \<longleftrightarrow> c \<in> set (map byte ?ks)" by (rule byte_image [symmetric]) simp
  also have "map byte ?ks = ''0123456789abcdef''" by (simp add: byte_def char_of_eq_iff)
  finally show ?thesis .
qed

section \<open>Facts on decimal rendering\<close>

definition decimal_value :: "string \<Rightarrow> nat" where
  "decimal_value s = foldl (\<lambda>acc c. acc * 10 + (byte_val c - 48)) 0 s"

lemma byte_val_digit: "n < 10 \<Longrightarrow> byte_val (digit n) = 48 + n"
  by (simp add: byte_val_def digit_def byte_def)

lemma decimal_value_decimal: "decimal_value (decimal n) = n"
proof (induction n rule: less_induct)
  case (less n)
  show ?case
  proof (cases "n < 10")
    case True
    then show ?thesis
      by (subst decimal.simps) (simp add: decimal_value_def byte_val_digit)
  next
    case False
    then have "decimal_value (decimal (n div 10)) = n div 10" by (intro less) simp
    with False show ?thesis
      by (subst decimal.simps) (simp add: decimal_value_def byte_val_digit)
  qed
qed

lemma decimal_inject [simp]: "decimal m = decimal n \<longleftrightarrow> m = n"
  by (metis decimal_value_decimal)

lemma set_decimal: "c \<in> set (decimal n) \<Longrightarrow> 48 \<le> byte_val c \<and> byte_val c < 58"
proof (induction n rule: less_induct)
  case (less n)
  show ?case
  proof (cases "n < 10")
    case True
    with less.prems show ?thesis
      by (subst (asm) decimal.simps) (simp add: byte_val_digit)
  next
    case False
    with less.prems have "c \<in> set (decimal (n div 10)) \<or> c = digit (n mod 10)"
      by (subst (asm) decimal.simps) auto
    with False less.IH [of "n div 10"] show ?thesis by (auto simp: byte_val_digit)
  qed
qed

lemma colon_notin_decimal: "CHR '':'' \<notin> set (decimal n)"
  using set_decimal [of "CHR '':''" n] by (auto simp: byte_val_def)

text \<open>A length prefix makes a concatenation of components unambiguous.\<close>

lemma length_prefix_inject:
  assumes "decimal (length a) @ '':'' @ a @ b = decimal (length a') @ '':'' @ a' @ b'"
  shows "a = a' \<and> b = b'"
proof -
  have pre: "takeWhile (\<lambda>c. c \<noteq> CHR '':'') (decimal n @ '':'' @ s) = decimal n" for n s
    using colon_notin_decimal [of n] by (subst takeWhile_append2) auto
  have "decimal (length a) = decimal (length a')"
    using arg_cong [OF assms, of "takeWhile (\<lambda>c. c \<noteq> CHR '':'')"] unfolding pre .
  then have "length a = length a'" by simp
  with assms show ?thesis by simp
qed

end
