(* ===== verification/Qid_Policy.thy ===== *)
theory Qid_Policy
  imports Qid_Prelude
begin

text \<open>
  The native policy engine: \<^verbatim>\<open>qid-policy/src/models.rs\<close> (decisions, policy context,
  expressions, their strict JSON form and their three-valued evaluation) and
  \<^verbatim>\<open>qid-policy/src/native.rs\<close> (rule matching and the decision procedure).

  The relationship evaluator a rule may call is the parameter \<open>rebac\<close>; its contract is the
  locale \<open>rebac_evaluator\<close>, which the theory of the relationship engine interprets.
\<close>

section \<open>JSON values\<close>

text \<open>
  \<^verbatim>\<open>serde_json::Value\<close>. A number is a non-negative 64-bit integer, a negative signed one, or a
  finite double, whose value is a rational. An object lists its entries in iteration order.
\<close>

datatype number = PosInt u64 | NegInt "64 word" | Float rat

datatype json =
    JNull
  | JBool bool
  | JNumber number
  | JString string
  | JArray "json list"
  | JObject "(string \<times> json) list"

type_synonym json_object = "(string \<times> json) list"

fun as_u64 :: "number \<Rightarrow> u64 option" where
  "as_u64 (PosInt n) = Some n"
| "as_u64 (NegInt n) = None"
| "as_u64 (Float x) = None"

text \<open>The value of \<^verbatim>\<open>as_i64\<close> as a mathematical integer.\<close>

fun as_i64 :: "number \<Rightarrow> int option" where
  "as_i64 (PosInt n) = (if fits_i64 n then Some (uint n) else None)"
| "as_i64 (NegInt n) = Some (sint n)"
| "as_i64 (Float x) = None"

text \<open>
  The cast of an integer to a double rounds to 53 significant bits, to the nearest value and
  to an even significand on a tie.
\<close>

fun excess_bits :: "nat \<Rightarrow> nat" where
  "excess_bits n = (if n < 2 ^ 53 then 0 else Suc (excess_bits (n div 2)))"

declare excess_bits.simps [simp del]

definition round_f64 :: "nat \<Rightarrow> nat" where
  "round_f64 n =
     (let e = excess_bits n; q = n div 2 ^ e; r = n mod 2 ^ e; h = 2 ^ e div 2
      in if e = 0 then n
         else (if h < r \<or> (r = h \<and> odd q) then q + 1 else q) * 2 ^ e)"

definition int_to_f64 :: "int \<Rightarrow> rat" where
  "int_to_f64 i = (if i < 0 then - of_nat (round_f64 (nat (- i))) else of_nat (round_f64 (nat i)))"

fun as_f64 :: "number \<Rightarrow> rat" where
  "as_f64 (PosInt n) = int_to_f64 (uint n)"
| "as_f64 (NegInt n) = int_to_f64 (sint n)"
| "as_f64 (Float x) = x"

section \<open>Decisions\<close>

datatype decision =
    Allow
  | Deny
  | StepUp
  | ConsentRequired
  | LocalResponse
  | ApprovalRequired
  | Quarantine
  | AuditOnly
  | Conditional

datatype decision_cache_class = Positive | Negative

fun decision_as_str :: "decision \<Rightarrow> string" where
  "decision_as_str Allow = ''allow''"
| "decision_as_str Deny = ''deny''"
| "decision_as_str StepUp = ''step_up''"
| "decision_as_str ConsentRequired = ''consent_required''"
| "decision_as_str LocalResponse = ''local_response''"
| "decision_as_str ApprovalRequired = ''approval_required''"
| "decision_as_str Quarantine = ''quarantine''"
| "decision_as_str AuditOnly = ''audit_only''"
| "decision_as_str Conditional = ''conditional''"

fun cache_class :: "decision \<Rightarrow> decision_cache_class" where
  "cache_class Allow = Positive"
| "cache_class AuditOnly = Positive"
| "cache_class Quarantine = Positive"
| "cache_class Deny = Negative"
| "cache_class StepUp = Negative"
| "cache_class ConsentRequired = Negative"
| "cache_class LocalResponse = Negative"
| "cache_class ApprovalRequired = Negative"
| "cache_class Conditional = Negative"

definition decision_parse :: "string \<Rightarrow> decision option" where
  "decision_parse name =
     (if name = ''allow'' then Some Allow
      else if name = ''deny'' then Some Deny
      else if name = ''step_up'' then Some StepUp
      else if name = ''consent_required'' then Some ConsentRequired
      else if name = ''local_response'' then Some LocalResponse
      else if name = ''approval_required'' then Some ApprovalRequired
      else if name = ''quarantine'' then Some Quarantine
      else if name = ''audit_only'' then Some AuditOnly
      else if name = ''conditional'' then Some Conditional
      else None)"

record typed_obligation =
  ob_namespace :: string
  ob_version :: string
  ob_name :: string
  ob_capability :: "string option"
  ob_payload :: json

record decision_context_extension =
  dx_evaluator :: "string option"
  dx_reason_admin :: "string option"
  dx_reason_user :: "string option"
  dx_extra :: "(string, json) hash_map"

record pep_policy_actions =
  override_upstream :: "string option"
  timeout_override_ms :: "u64 option"
  mirror_upstreams :: "string list"
  force_inspect :: "bool option"
  force_tunnel :: "bool option"
  cache_bypass :: "bool option"

definition pep_default :: pep_policy_actions where
  "pep_default = \<lparr>override_upstream = None, timeout_override_ms = None, mirror_upstreams = [],
     force_inspect = None, force_tunnel = None, cache_bypass = None\<rparr>"

definition pep_is_empty :: "pep_policy_actions \<Rightarrow> bool" where
  "pep_is_empty p \<longleftrightarrow>
     override_upstream p = None \<and> timeout_override_ms p = None \<and> mirror_upstreams p = []
     \<and> force_inspect p = None \<and> force_tunnel p = None \<and> cache_bypass p = None"

record decision_details =
  dd_decision :: decision
  dd_policy_id :: string
  dd_rate_limit_profile :: "string option"
  dd_policy_tags :: "string list"
  dd_inject_headers :: "(string, string) hash_map option"
  dd_pep :: pep_policy_actions
  dd_matched_rules :: "string list"
  dd_trace :: "string list"
  dd_obligations :: "typed_obligation list"
  dd_context :: "decision_context_extension option"

section \<open>The policy context\<close>

record policy_context =
  pc_subject_id :: "string option"
  pc_groups :: "string list"
  pc_roles :: "string list"
  pc_entitlements :: "string list"
  pc_device_id :: "string option"
  pc_posture :: "string list"
  pc_acr :: "string option"
  pc_auth_age_seconds :: "u64 option"
  pc_risk_score :: "u64 option"
  pc_resource_host :: "string option"
  pc_resource_action :: "string option"
  pc_pep_registration :: "string option"

definition effective_pep_registration :: "policy_context \<Rightarrow> string option" where
  "effective_pep_registration ctx = pc_pep_registration ctx"

text \<open>The evidence values a field path names; \<^term>\<open>None\<close> when the input is absent.\<close>

definition resolve_field_path :: "policy_context \<Rightarrow> string \<Rightarrow> json list option" where
  "resolve_field_path ctx path =
     (let normalized = (case strip_prefix ''context.'' path of Some p \<Rightarrow> p | None \<Rightarrow> path);
          one = map_option (\<lambda>s. [JString s])
      in if normalized \<in> set [''group'', ''groups''] then Some (map JString (pc_groups ctx))
         else if normalized \<in> set [''role'', ''roles''] then Some (map JString (pc_roles ctx))
         else if normalized \<in> set [''posture'', ''device.posture'']
           then Some (map JString (pc_posture ctx))
         else if normalized \<in> set [''acr'', ''auth.acr''] then one (pc_acr ctx)
         else if normalized \<in> set [''auth_age_seconds'', ''auth.age_seconds'']
           then map_option (\<lambda>n. [JNumber (PosInt n)]) (pc_auth_age_seconds ctx)
         else if normalized \<in> set [''risk_score'', ''risk.score'']
           then map_option (\<lambda>n. [JNumber (PosInt n)]) (pc_risk_score ctx)
         else if normalized = ''resource.host'' then one (pc_resource_host ctx)
         else if normalized = ''resource.action'' then one (pc_resource_action ctx)
         else if normalized \<in> set [''subject_id'', ''subject'', ''principal'']
           then one (pc_subject_id ctx)
         else if normalized \<in> set [''device_id'', ''device.id''] then one (pc_device_id ctx)
         else if normalized \<in> set [''pep_registration'', ''pep.registration'']
           then one (effective_pep_registration ctx)
         else None)"

definition in_group :: "policy_context \<Rightarrow> string \<Rightarrow> bool" where
  "in_group ctx group_name = list_ex (\<lambda>g. g = group_name) (pc_groups ctx)"

definition ctx_action_matches :: "policy_context \<Rightarrow> string \<Rightarrow> bool" where
  "ctx_action_matches ctx action_pattern =
     (case pc_resource_action ctx of
        Some actual \<Rightarrow> if action_pattern = ''*'' then True else action_pattern = actual
      | None \<Rightarrow> False)"

definition glob_match :: "string \<Rightarrow> string \<Rightarrow> bool" where
  "glob_match pattern val =
     (if pattern = ''*'' then True
      else case strip_prefix ''*.'' pattern of
        Some suffix \<Rightarrow> val = suffix \<or> ends_with val (''.'' @ suffix)
      | None \<Rightarrow>
          (case strip_suffix ''/*'' pattern of
             Some prefx \<Rightarrow> val = prefx \<or> starts_with val (prefx @ ''/'')
           | None \<Rightarrow> pattern = val))"

definition ctx_host_matches :: "policy_context \<Rightarrow> string \<Rightarrow> bool" where
  "ctx_host_matches ctx host_pattern =
     (case pc_resource_host ctx of Some actual \<Rightarrow> glob_match host_pattern actual | None \<Rightarrow> False)"

section \<open>Bundles, rules, conditions and expressions\<close>

record condition =
  cond_field :: string
  cond_op :: string
  cond_value :: json

datatype expression =
    Condition condition
  | ExprAnd "expression list"
  | ExprOr "expression list"
  | ExprNot expression
  | InGroup string
  | MatchAction string
  | RebacCheck string string string string

datatype rule_type = RuleAllow | RuleForbid | RuleStepUp

record rule =
  rule_name :: string
  rule_kind :: rule_type
  rule_action :: string
  rule_resource_host :: "string option"
  rule_conditions :: "condition list"
  rule_expression :: "expression option"
  rule_rate_limit_profile :: "string option"
  rule_inject_headers :: "(string, string) hash_map option"
  rule_pep :: pep_policy_actions

record policy_bundle =
  pb_version :: string
  pb_rules :: "rule list"
  pb_default_decision :: decision

section \<open>The strict JSON form of expressions\<close>

text \<open>The key set of every expression variant.\<close>

definition expression_shapes :: "(string \<times> string list) list" where
  "expression_shapes =
     [(''and'', [''and'']),
      (''or'', [''or'']),
      (''not'', [''not'']),
      (''in_group'', [''in_group'']),
      (''action'', [''action'']),
      (''condition'', [''field'', ''op'', ''value'']),
      (''rebac'', [''namespace'', ''object_id'', ''relation'', ''subject_namespace''])]"

definition expression_value :: "json_object \<Rightarrow> string \<Rightarrow> string + json" where
  "expression_value object key =
     ok_or (''policy expression is missing key `'' @ key @ ''`'') (map_of object key)"

definition expression_string :: "json_object \<Rightarrow> string \<Rightarrow> string + string" where
  "expression_string object key =
     and_then (expression_value object key)
       (\<lambda>v. case v of
          JString s \<Rightarrow> Inr s
        | _ \<Rightarrow> Inl (''policy expression key `'' @ key @ ''` must be a string''))"

text \<open>The items of a list key; \<open>parse_entries\<close> below is the loop over them.\<close>

definition expression_items :: "json_object \<Rightarrow> string \<Rightarrow> string + json list" where
  "expression_items object key =
     and_then (expression_value object key)
       (\<lambda>v. case v of
          JArray items \<Rightarrow> Inr items
        | _ \<Rightarrow> Inl (''policy expression key `'' @ key @ ''` must be a list''))"

definition entry_error :: "string \<Rightarrow> nat \<Rightarrow> string \<Rightarrow> string" where
  "entry_error key index err =
     ''policy expression key `'' @ key @ ''` entry '' @ decimal index @ '': '' @ err"

lemma size_map_of_object:
  assumes "map_of object key = Some v"
  shows "size v < Suc (size_list (size_prod (\<lambda>_. 0) size) object)"
  using assms by (induction object) (auto split: if_splits)

lemma size_expression_value:
  assumes "expression_value object key = Inr v"
  shows "size v < Suc (size_list (size_prod (\<lambda>_. 0) size) object)"
  using assms by (simp add: expression_value_def size_map_of_object)

lemma size_expression_items:
  assumes "expression_items object key = Inr items"
  shows "size_list size items < Suc (size_list (size_prod (\<lambda>_. 0) size) object)"
proof -
  from assms obtain v where v: "expression_value object key = Inr v"
    and i: "(case v of JArray items \<Rightarrow> Inr items
             | _ \<Rightarrow> Inl (''policy expression key `'' @ key @ ''` must be a list'')) = Inr items"
    by (auto simp: expression_items_def)
  from i have "v = JArray items" by (cases v) simp_all
  with size_expression_value [OF v] show ?thesis by simp
qed

function (sequential) parse_expression :: "json \<Rightarrow> string + expression"
  and parse_entries :: "string \<Rightarrow> nat \<Rightarrow> json list \<Rightarrow> string + expression list" where
  "parse_expression (JObject object) =
     (case find (\<lambda>key. key \<notin> set (concat (map snd expression_shapes))) (map fst object) of
        Some unknown \<Rightarrow> Inl (''policy expression has unknown key `'' @ unknown @ ''`'')
      | None \<Rightarrow>
          (case filter (\<lambda>(_, keys). list_ex (hm_contains object) keys) expression_shapes of
             [] \<Rightarrow> Inl (''policy expression must carry `and`, `or`, `not`, `in_group`, `action`, ''
                          @ ''`field`, or `namespace`'')
           | (name, _) # rest \<Rightarrow>
               (case rest of
                  (other, _) # _ \<Rightarrow>
                    Inl (''policy expression mixes `'' @ name @ ''` with `'' @ other @ ''`'')
                | [] \<Rightarrow>
                    if name = ''and'' then
                      and_then (expression_items object ''and'')
                        (\<lambda>items. and_then (parse_entries ''and'' 0 items) (\<lambda>es. Inr (ExprAnd es)))
                    else if name = ''or'' then
                      and_then (expression_items object ''or'')
                        (\<lambda>items. and_then (parse_entries ''or'' 0 items) (\<lambda>es. Inr (ExprOr es)))
                    else if name = ''not'' then
                      and_then (expression_value object ''not'')
                        (\<lambda>v. and_then (parse_expression v) (\<lambda>e. Inr (ExprNot e)))
                    else if name = ''in_group'' then
                      and_then (expression_string object ''in_group'') (\<lambda>g. Inr (InGroup g))
                    else if name = ''action'' then
                      and_then (expression_string object ''action'') (\<lambda>a. Inr (MatchAction a))
                    else if name = ''condition'' then
                      and_then (expression_string object ''field'') (\<lambda>f.
                        and_then (expression_string object ''op'') (\<lambda>p.
                          and_then (expression_value object ''value'') (\<lambda>v.
                            Inr (Condition \<lparr>cond_field = f, cond_op = p, cond_value = v\<rparr>))))
                    else if name = ''rebac'' then
                      and_then (expression_string object ''namespace'') (\<lambda>ns.
                        and_then (expression_string object ''object_id'') (\<lambda>obj.
                          and_then (expression_string object ''relation'') (\<lambda>rel.
                            and_then (expression_string object ''subject_namespace'') (\<lambda>sns.
                              Inr (RebacCheck ns obj rel sns)))))
                    else Inl ''the expression shape table and the parser disagree'')))"
| "parse_expression _ = Inl ''policy expression must be a JSON object''"
| "parse_entries key index [] = Inr []"
| "parse_entries key index (item # items) =
     (case parse_expression item of
        Inl err \<Rightarrow> Inl (entry_error key index err)
      | Inr e \<Rightarrow> and_then (parse_entries key (Suc index) items) (\<lambda>es. Inr (e # es)))"
  by pat_completeness auto
termination
  by (relation "measure (\<lambda>x. case x of Inl v \<Rightarrow> size v | Inr (k, i, items) \<Rightarrow> size_list size items)")
    (auto dest: size_expression_value size_expression_items)

text \<open>\<^verbatim>\<open>Expression::from_value\<close> forgets the message.\<close>

definition expression_from_value :: "json \<Rightarrow> expression option" where
  "expression_from_value v = (case parse_expression v of Inl _ \<Rightarrow> None | Inr e \<Rightarrow> Some e)"

section \<open>Evaluation\<close>

datatype ordering = Less | Equal | Greater

definition cmp :: "'a::linorder \<Rightarrow> 'a \<Rightarrow> ordering" where
  "cmp x y = (if x < y then Less else if x = y then Equal else Greater)"

text \<open>Both operands are finite, so the comparison of doubles always orders them.\<close>

definition numeric_compare :: "number \<Rightarrow> number \<Rightarrow> ordering option" where
  "numeric_compare a b =
     (case (as_u64 a, as_u64 b) of
        (Some x, Some y) \<Rightarrow> Some (cmp x y)
      | _ \<Rightarrow>
          (case (as_i64 a, as_i64 b) of
             (Some x, Some y) \<Rightarrow> Some (cmp x y)
           | _ \<Rightarrow> Some (cmp (as_f64 a) (as_f64 b))))"

text \<open>The four threshold operators share one shape.\<close>

definition threshold :: "(ordering \<Rightarrow> bool) \<Rightarrow> json list \<Rightarrow> json \<Rightarrow> bool" where
  "threshold p vals target =
     (case (vals, target) of
        (JNumber a # _, JNumber b) \<Rightarrow>
          (case numeric_compare a b of Some ord \<Rightarrow> p ord | None \<Rightarrow> False)
      | _ \<Rightarrow> False)"

definition condition_matches :: "condition \<Rightarrow> policy_context \<Rightarrow> bool option" where
  "condition_matches c ctx =
     (case resolve_field_path ctx (cond_field c) of
        None \<Rightarrow> None
      | Some vals \<Rightarrow> Some
          (if cond_op c \<in> set [''equals'', ''=='']
             then list_ex (\<lambda>v. v = cond_value c) vals
           else if cond_op c \<in> set [''contains'', ''has''] then
             list_ex (\<lambda>v. case (v, cond_value c) of
               (JString s, JString target) \<Rightarrow> s = target | _ \<Rightarrow> False) vals
           else if cond_op c \<in> set [''in'', ''member_of''] then
             (case cond_value c of
                JArray arr \<Rightarrow> list_ex (\<lambda>v. v \<in> set arr) vals
              | JString grp \<Rightarrow> in_group ctx grp
              | _ \<Rightarrow> False)
           else if cond_op c \<in> set [''like'', ''matches''] then
             (case (vals, cond_value c) of
                (JString s # _, JString pattern) \<Rightarrow> glob_match pattern s
              | _ \<Rightarrow> False)
           else if cond_op c \<in> set [''lt'', ''<'']
             then threshold (\<lambda>ord. ord = Less) vals (cond_value c)
           else if cond_op c \<in> set [''gt'', ''>'']
             then threshold (\<lambda>ord. ord = Greater) vals (cond_value c)
           else if cond_op c \<in> set [''gte'', ''>='']
             then threshold (\<lambda>ord. ord \<noteq> Less) vals (cond_value c)
           else if cond_op c \<in> set [''lte'', ''<='']
             then threshold (\<lambda>ord. ord \<noteq> Greater) vals (cond_value c)
           else False))"

text \<open>
  The signature of \<^verbatim>\<open>RebacEvaluator::check\<close>: namespace, object, relation, subject namespace
  and subject; an error is a storage failure.
\<close>

type_synonym rebac_check = "string \<Rightarrow> string \<Rightarrow> string \<Rightarrow> string \<Rightarrow> string \<Rightarrow> bool result"

text \<open>The loops of a conjunction and a disjunction carry the flag \<open>unknown\<close>.\<close>

fun evaluate_expression ::
    "policy_context \<Rightarrow> rebac_check option \<Rightarrow> expression \<Rightarrow> bool option"
  and evaluate_and ::
    "policy_context \<Rightarrow> rebac_check option \<Rightarrow> bool \<Rightarrow> expression list \<Rightarrow> bool option"
  and evaluate_or ::
    "policy_context \<Rightarrow> rebac_check option \<Rightarrow> bool \<Rightarrow> expression list \<Rightarrow> bool option" where
  "evaluate_expression ctx rebac (Condition c) = condition_matches c ctx"
| "evaluate_expression ctx rebac (ExprAnd es) = evaluate_and ctx rebac False es"
| "evaluate_expression ctx rebac (ExprOr es) = evaluate_or ctx rebac False es"
| "evaluate_expression ctx rebac (ExprNot e) =
     map_option (\<lambda>v. \<not> v) (evaluate_expression ctx rebac e)"
| "evaluate_expression ctx rebac (InGroup g) = Some (in_group ctx g)"
| "evaluate_expression ctx rebac (MatchAction a) = Some (ctx_action_matches ctx a)"
| "evaluate_expression ctx rebac (RebacCheck ns obj rel sns) =
     (case rebac of
        None \<Rightarrow> None
      | Some check \<Rightarrow>
          (case pc_subject_id ctx of
             None \<Rightarrow> None
           | Some sid \<Rightarrow>
               (case check ns obj rel sns sid of Inl _ \<Rightarrow> None | Inr b \<Rightarrow> Some b)))"
| "evaluate_and ctx rebac unknown [] = (if unknown then None else Some True)"
| "evaluate_and ctx rebac unknown (e # es) =
     (case evaluate_expression ctx rebac e of
        Some False \<Rightarrow> Some False
      | None \<Rightarrow> evaluate_and ctx rebac True es
      | Some True \<Rightarrow> evaluate_and ctx rebac unknown es)"
| "evaluate_or ctx rebac unknown [] = (if unknown then None else Some False)"
| "evaluate_or ctx rebac unknown (e # es) =
     (case evaluate_expression ctx rebac e of
        Some True \<Rightarrow> Some True
      | None \<Rightarrow> evaluate_or ctx rebac True es
      | Some False \<Rightarrow> evaluate_or ctx rebac unknown es)"

section \<open>The engine\<close>

record native_policy_engine =
  engine_bundle :: "policy_bundle option"
  engine_bundle_id :: string
  engine_rebac :: "rebac_check option"

definition engine_new :: native_policy_engine where
  "engine_new = \<lparr>engine_bundle = None, engine_bundle_id = ''default'', engine_rebac = None\<rparr>"

definition engine_load :: "native_policy_engine \<Rightarrow> policy_bundle \<Rightarrow> string \<Rightarrow> native_policy_engine" where
  "engine_load e b bid = e\<lparr>engine_bundle := Some b, engine_bundle_id := bid\<rparr>"

definition with_rebac_evaluator :: "native_policy_engine \<Rightarrow> rebac_check \<Rightarrow> native_policy_engine" where
  "with_rebac_evaluator e r = e\<lparr>engine_rebac := Some r\<rparr>"

definition action_matches :: "string \<Rightarrow> string \<Rightarrow> bool" where
  "action_matches pattern action \<longleftrightarrow> pattern = ''*'' \<or> pattern = action"

definition host_matches :: "string \<Rightarrow> string \<Rightarrow> bool" where
  "host_matches pattern host =
     (if pattern = ''*'' then True
      else if starts_with pattern ''*.'' then ends_with host (drop 1 pattern)
      else pattern = host)"

definition unwrap_or_empty :: "string option \<Rightarrow> string" where
  "unwrap_or_empty x = (case x of None \<Rightarrow> [] | Some s \<Rightarrow> s)"

definition rule_matches :: "rule \<Rightarrow> policy_context \<Rightarrow> rebac_check option \<Rightarrow> bool" where
  "rule_matches r ctx rebac =
     (if \<not> action_matches (rule_action r) (unwrap_or_empty (pc_resource_action ctx)) then False
      else if (case rule_resource_host r of
                 Some host \<Rightarrow> \<not> host_matches host (unwrap_or_empty (pc_resource_host ctx))
               | None \<Rightarrow> False) then False
      else if list_ex (\<lambda>c. condition_matches c ctx \<noteq> Some True) (rule_conditions r) then False
      else if (case rule_expression r of
                 Some e \<Rightarrow> evaluate_expression ctx rebac e \<noteq> Some True
               | None \<Rightarrow> False) then False
      else True)"

fun rule_label :: "rule_type \<Rightarrow> string" where
  "rule_label RuleForbid = ''forbid''"
| "rule_label RuleStepUp = ''step-up''"
| "rule_label RuleAllow = ''allow''"

fun rule_decision :: "rule_type \<Rightarrow> decision" where
  "rule_decision RuleForbid = Deny"
| "rule_decision RuleStepUp = StepUp"
| "rule_decision RuleAllow = Allow"

text \<open>
  One of the three passes over the rules: it visits the rules of one type, extends the trace
  and stops at the first rule that matches.
\<close>

fun scan_rules ::
    "rule_type \<Rightarrow> (rule \<Rightarrow> bool) \<Rightarrow> rule list \<Rightarrow> string list \<Rightarrow> string list \<times> rule option" where
  "scan_rules k m [] trace = (trace, None)"
| "scan_rules k m (r # rs) trace =
     (if rule_kind r = k then
        (let trace = trace @ [''Evaluating '' @ rule_label k @ '' rule: '' @ rule_name r]
         in if m r then
              (trace @ [''Rule '' @ rule_name r @ '': MATCH ('' @ rule_label k @ '')''], Some r)
            else scan_rules k m rs (trace @ [''Rule '' @ rule_name r @ '': no match'']))
      else scan_rules k m rs trace)"

text \<open>Only an allow rule hands out its rate-limit profile and its headers.\<close>

definition rule_details :: "rule \<Rightarrow> string list \<Rightarrow> decision_details" where
  "rule_details r trace =
     \<lparr>dd_decision = rule_decision (rule_kind r),
      dd_policy_id = rule_name r,
      dd_rate_limit_profile =
        (if rule_kind r = RuleAllow then rule_rate_limit_profile r else None),
      dd_policy_tags = [''qid:'' @ rule_label (rule_kind r) @ '':'' @ rule_name r],
      dd_inject_headers = (if rule_kind r = RuleAllow then rule_inject_headers r else None),
      dd_pep = rule_pep r,
      dd_matched_rules = [rule_name r],
      dd_trace = trace,
      dd_obligations = [],
      dd_context = None\<rparr>"

definition default_details :: "native_policy_engine \<Rightarrow> string list \<Rightarrow> decision_details" where
  "default_details e trace =
     (let d = (case engine_bundle e of Some b \<Rightarrow> pb_default_decision b | None \<Rightarrow> Deny)
      in \<lparr>dd_decision = d,
          dd_policy_id = engine_bundle_id e,
          dd_rate_limit_profile = None,
          dd_policy_tags = [''qid:default-'' @ decision_as_str d],
          dd_inject_headers = None,
          dd_pep = pep_default,
          dd_matched_rules = [],
          dd_trace = trace @ [''No matching rule; default '' @ decision_as_str d],
          dd_obligations = [],
          dd_context = None\<rparr>)"

definition decide :: "native_policy_engine \<Rightarrow> policy_context \<Rightarrow> decision_details" where
  "decide e ctx =
     (case engine_bundle e of
        None \<Rightarrow> default_details e []
      | Some b \<Rightarrow>
          (let m = (\<lambda>r. rule_matches r ctx (engine_rebac e));
               (trace1, forbid) = scan_rules RuleForbid m (pb_rules b) []
           in case forbid of
                Some r \<Rightarrow> rule_details r trace1
              | None \<Rightarrow>
                  (let (trace2, step_up) = scan_rules RuleStepUp m (pb_rules b) trace1
                   in case step_up of
                        Some r \<Rightarrow> rule_details r trace2
                      | None \<Rightarrow>
                          (let (trace3, allow) = scan_rules RuleAllow m (pb_rules b) trace2
                           in case allow of
                                Some r \<Rightarrow> rule_details r trace3
                              | None \<Rightarrow> default_details e trace3))))"

section \<open>The decision procedure\<close>

lemma snd_scan_rules [simp]:
  "snd (scan_rules k m rs trace) = find (\<lambda>r. rule_kind r = k \<and> m r) rs"
  by (induction rs arbitrary: trace) (auto simp: Let_def)

lemma find_ex_iff: "(\<exists>x. find p xs = Some x) \<longleftrightarrow> (\<exists>x\<in>set xs. p x)"
  using find_None_iff [of p xs] by (cases "find p xs") auto

text \<open>The contract of the engine, free of rule order, traces and early returns.\<close>

definition some_rule_matches :: "native_policy_engine \<Rightarrow> policy_context \<Rightarrow> rule_type \<Rightarrow> bool" where
  "some_rule_matches e ctx k \<longleftrightarrow>
     (\<exists>b. engine_bundle e = Some b
        \<and> (\<exists>r\<in>set (pb_rules b). rule_kind r = k \<and> rule_matches r ctx (engine_rebac e)))"

definition decision_spec :: "native_policy_engine \<Rightarrow> policy_context \<Rightarrow> decision" where
  "decision_spec e ctx =
     (if some_rule_matches e ctx RuleForbid then Deny
      else if some_rule_matches e ctx RuleStepUp then StepUp
      else if some_rule_matches e ctx RuleAllow then Allow
      else case engine_bundle e of Some b \<Rightarrow> pb_default_decision b | None \<Rightarrow> Deny)"

lemma some_rule_matches_find:
  assumes "engine_bundle e = Some b"
  shows "some_rule_matches e ctx k \<longleftrightarrow>
    find (\<lambda>r. rule_kind r = k \<and> rule_matches r ctx (engine_rebac e)) (pb_rules b) \<noteq> None"
  using assms by (auto simp: some_rule_matches_def find_None_iff)

lemma find_rule_kind:
  assumes "find (\<lambda>r. rule_kind r = k \<and> m r) rs = Some r"
  shows "rule_kind r = k"
  using assms by (auto simp: find_Some_iff)

text \<open>Every decision is either a rule's or the default.\<close>

lemma decide_cases:
  obtains (default) "engine_bundle e = None" "decide e ctx = default_details e []"
  | (no_match) b trace where "engine_bundle e = Some b"
      "\<And>k. find (\<lambda>r. rule_kind r = k \<and> rule_matches r ctx (engine_rebac e)) (pb_rules b) = None"
      "decide e ctx = default_details e trace"
  | (rule) b r trace where "engine_bundle e = Some b"
      "find (\<lambda>r'. rule_kind r' = rule_kind r \<and> rule_matches r' ctx (engine_rebac e)) (pb_rules b) = Some r"
      "rule_kind r \<noteq> RuleForbid \<Longrightarrow>
         find (\<lambda>r'. rule_kind r' = RuleForbid \<and> rule_matches r' ctx (engine_rebac e)) (pb_rules b) = None"
      "rule_kind r = RuleAllow \<Longrightarrow>
         find (\<lambda>r'. rule_kind r' = RuleStepUp \<and> rule_matches r' ctx (engine_rebac e)) (pb_rules b) = None"
      "decide e ctx = rule_details r trace"
proof (cases "engine_bundle e")
  case None
  then show thesis using that(1) by (simp add: decide_def)
next
  case (Some b)
  define m where "m = (\<lambda>r. rule_matches r ctx (engine_rebac e))"
  define F where "F k = find (\<lambda>r. rule_kind r = k \<and> m r) (pb_rules b)" for k
  obtain t1 where s1: "scan_rules RuleForbid m (pb_rules b) [] = (t1, F RuleForbid)"
    unfolding F_def by (metis prod.collapse snd_scan_rules)
  obtain t2 where s2: "scan_rules RuleStepUp m (pb_rules b) t1 = (t2, F RuleStepUp)"
    unfolding F_def by (metis prod.collapse snd_scan_rules)
  obtain t3 where s3: "scan_rules RuleAllow m (pb_rules b) t2 = (t3, F RuleAllow)"
    unfolding F_def by (metis prod.collapse snd_scan_rules)
  have d: "decide e ctx = (case F RuleForbid of Some r \<Rightarrow> rule_details r t1 | None \<Rightarrow>
      (case F RuleStepUp of Some r \<Rightarrow> rule_details r t2 | None \<Rightarrow>
      (case F RuleAllow of Some r \<Rightarrow> rule_details r t3 | None \<Rightarrow> default_details e t3)))"
    using Some s1 s2 s3 by (simp add: decide_def m_def [symmetric])
  have kind: "F k = Some r \<Longrightarrow> rule_kind r = k" for k r
    unfolding F_def by (rule find_rule_kind)
  note F' = F_def [unfolded m_def, symmetric]
  show thesis
  proof (cases "F RuleForbid")
    case (Some r)
    with d kind [OF Some] show thesis
      by (intro that(3) [OF \<open>engine_bundle e = Some b\<close>, of r t1]) (simp_all add: F')
  next
    case f: None
    show thesis
    proof (cases "F RuleStepUp")
      case (Some r)
      with d f kind [OF Some] show thesis
        by (intro that(3) [OF \<open>engine_bundle e = Some b\<close>, of r t2]) (simp_all add: F')
    next
      case s: None
      show thesis
      proof (cases "F RuleAllow")
        case (Some r)
        with d f s kind [OF Some] show thesis
          by (intro that(3) [OF \<open>engine_bundle e = Some b\<close>, of r t3]) (simp_all add: F')
      next
        case None
        have "F k = None" for k using f s None by (cases k) simp_all
        with d f s None show thesis
          by (intro that(2) [OF \<open>engine_bundle e = Some b\<close>, of t3]) (simp_all add: F')
      qed
    qed
  qed
qed

text \<open>
  C1. The decision is the one of the contract: a matching forbid rule denies whatever else
  matches, a matching step-up rule outranks every allow rule, and without a matching rule the
  bundle's default decides; without a bundle the engine denies. The order of the rules in the
  bundle does not matter.
\<close>

theorem decide_refines_spec: "dd_decision (decide e ctx) = decision_spec e ctx"
proof (cases rule: decide_cases [of e ctx])
  case default
  then show ?thesis
    by (simp add: decision_spec_def some_rule_matches_def default_details_def Let_def)
next
  case (no_match b trace)
  then show ?thesis
    by (simp add: decision_spec_def some_rule_matches_find default_details_def Let_def)
next
  case (rule b r trace)
  then show ?thesis
    by (cases "rule_kind r")
      (simp_all add: decision_spec_def some_rule_matches_find rule_details_def)
qed

text \<open>
  A decision that names a rule is accounted for: the rule is in the bundle, it matches, no
  earlier rule of its type matches, and headers and a rate-limit profile are handed out only by
  an allow rule. A decision that names no rule carries the engine's bundle id and no action for
  the enforcement point.
\<close>

theorem decide_provenance:
  "(dd_matched_rules (decide e ctx) = [] \<and> dd_policy_id (decide e ctx) = engine_bundle_id e
      \<and> pep_is_empty (dd_pep (decide e ctx)) \<and> dd_inject_headers (decide e ctx) = None
      \<and> dd_rate_limit_profile (decide e ctx) = None)
   \<or> (\<exists>b r earlier later.
        engine_bundle e = Some b \<and> pb_rules b = earlier @ r # later
        \<and> rule_matches r ctx (engine_rebac e)
        \<and> list_all (\<lambda>r'. \<not> (rule_kind r' = rule_kind r \<and> rule_matches r' ctx (engine_rebac e))) earlier
        \<and> dd_matched_rules (decide e ctx) = [rule_name r] \<and> dd_policy_id (decide e ctx) = rule_name r
        \<and> dd_decision (decide e ctx) = rule_decision (rule_kind r)
        \<and> dd_pep (decide e ctx) = rule_pep r
        \<and> dd_inject_headers (decide e ctx)
            = (if dd_decision (decide e ctx) = Allow then rule_inject_headers r else None)
        \<and> dd_rate_limit_profile (decide e ctx)
            = (if dd_decision (decide e ctx) = Allow then rule_rate_limit_profile r else None))"
proof (cases rule: decide_cases [of e ctx])
  case default
  then show ?thesis by (simp add: default_details_def pep_default_def pep_is_empty_def Let_def)
next
  case (no_match b trace)
  then show ?thesis by (simp add: default_details_def pep_default_def pep_is_empty_def Let_def)
next
  case (rule b r trace)
  let ?p = "\<lambda>r'. rule_kind r' = rule_kind r \<and> rule_matches r' ctx (engine_rebac e)"
  from rule(2) obtain i where i: "i < length (pb_rules b)" "pb_rules b ! i = r" "?p r"
      "\<forall>j<i. \<not> ?p (pb_rules b ! j)"
    by (auto simp: find_Some_iff)
  have "pb_rules b = take i (pb_rules b) @ r # drop (Suc i) (pb_rules b)"
    using i(1,2) id_take_nth_drop by blast
  moreover have "list_all (\<lambda>r'. \<not> (rule_kind r' = rule_kind r \<and> rule_matches r' ctx (engine_rebac e)))
      (take i (pb_rules b))"
    using i(1,4) by (auto simp: list_all_length)
  moreover have "rule_decision (rule_kind r) = Allow \<longleftrightarrow> rule_kind r = RuleAllow"
    by (cases "rule_kind r") simp_all
  ultimately show ?thesis
    using rule(1,5) i(3)
    by (intro disjI2 exI [where x = b] exI [where x = r] exI [where x = "take i (pb_rules b)"]
        exI [where x = "drop (Suc i) (pb_rules b)"]) (simp add: rule_details_def)
qed

section \<open>Three-valued evaluation\<close>

text \<open>Kleene's strong connectives over any number of operands, as functions of the value set.\<close>

definition kleene_and :: "bool option set \<Rightarrow> bool option" where
  "kleene_and V = (if Some False \<in> V then Some False else if None \<in> V then None else Some True)"

definition kleene_or :: "bool option set \<Rightarrow> bool option" where
  "kleene_or V = (if Some True \<in> V then Some True else if None \<in> V then None else Some False)"

lemma bool_option_exhaust:
  obtains "v = None" | "v = Some True" | "v = Some False"
proof (cases v)
  case (Some b)
  then show thesis using that(2,3) by (cases b) simp_all
qed (rule that(1))

lemma kleene_and_True [simp]: "kleene_and V = Some True \<longleftrightarrow> V \<subseteq> {Some True}"
proof -
  have "v = Some True" if "v \<in> V" "None \<notin> V" "Some False \<notin> V" for v
    using that by (cases v rule: bool_option_exhaust) auto
  then show ?thesis by (auto simp: kleene_and_def)
qed

lemma kleene_and_False [simp]: "kleene_and V = Some False \<longleftrightarrow> Some False \<in> V"
  by (simp add: kleene_and_def)

lemma kleene_or_False [simp]: "kleene_or V = Some False \<longleftrightarrow> V \<subseteq> {Some False}"
proof -
  have "v = Some False" if "v \<in> V" "None \<notin> V" "Some True \<notin> V" for v
    using that by (cases v rule: bool_option_exhaust) auto
  then show ?thesis by (auto simp: kleene_or_def)
qed

lemma kleene_or_True [simp]: "kleene_or V = Some True \<longleftrightarrow> Some True \<in> V"
  by (simp add: kleene_or_def)

lemma kleene_de_morgan: "map_option Not (kleene_and V) = kleene_or (map_option Not ` V)"
proof -
  have "(Some True = map_option Not v) = (v = Some False)" "(None = map_option Not v) = (v = None)"
    for v
    by (cases v rule: bool_option_exhaust; simp)+
  then have "Some True \<in> map_option Not ` V \<longleftrightarrow> Some False \<in> V"
      "None \<in> map_option Not ` V \<longleftrightarrow> None \<in> V"
    by (simp_all add: image_iff)
  then show ?thesis by (simp add: kleene_and_def kleene_or_def)
qed

lemma evaluate_and_flag:
  "evaluate_and ctx rebac u es =
     kleene_and ((if u then {None} else {}) \<union> evaluate_expression ctx rebac ` set es)"
proof (induction es arbitrary: u)
  case Nil
  then show ?case by (simp add: kleene_and_def)
next
  case (Cons e es)
  then show ?case
    by (cases "evaluate_expression ctx rebac e" rule: bool_option_exhaust)
      (simp_all add: kleene_and_def)
qed

lemma evaluate_or_flag:
  "evaluate_or ctx rebac u es =
     kleene_or ((if u then {None} else {}) \<union> evaluate_expression ctx rebac ` set es)"
proof (induction es arbitrary: u)
  case Nil
  then show ?case by (simp add: kleene_or_def)
next
  case (Cons e es)
  then show ?case
    by (cases "evaluate_expression ctx rebac e" rule: bool_option_exhaust)
      (simp_all add: kleene_or_def)
qed

lemma evaluate_And: "evaluate_expression ctx rebac (ExprAnd es) =
    kleene_and (evaluate_expression ctx rebac ` set es)"
  by (simp add: evaluate_and_flag)

lemma evaluate_Or: "evaluate_expression ctx rebac (ExprOr es) =
    kleene_or (evaluate_expression ctx rebac ` set es)"
  by (simp add: evaluate_or_flag)

declare evaluate_expression.simps(2,3) [simp del] evaluate_And [simp] evaluate_Or [simp]

lemma kleene_and_mono:
  assumes "\<And>x b. x \<in> S \<Longrightarrow> f x = Some b \<Longrightarrow> g x = Some b" "kleene_and (f ` S) = Some b"
  shows "kleene_and (g ` S) = Some b"
proof (cases b)
  case True
  with assms(2) have "f x = Some True" if "x \<in> S" for x using that by auto
  with assms(1) True show ?thesis by auto
next
  case False
  with assms(2) obtain x where "x \<in> S" "f x = Some False" by auto
  with assms(1) [of x False] False show ?thesis by (auto intro: rev_image_eqI)
qed

lemma kleene_or_mono:
  assumes "\<And>x b. x \<in> S \<Longrightarrow> f x = Some b \<Longrightarrow> g x = Some b" "kleene_or (f ` S) = Some b"
  shows "kleene_or (g ` S) = Some b"
proof (cases b)
  case False
  with assms(2) have "f x = Some False" if "x \<in> S" for x using that by auto
  with assms(1) False show ?thesis by auto
next
  case True
  with assms(2) obtain x where "x \<in> S" "f x = Some True" by auto
  with assms(1) [of x True] True show ?thesis by (auto intro: rev_image_eqI)
qed

text \<open>
  The loops over the operands of a conjunction and of a disjunction compute Kleene's strong
  connectives: an operand that decides the outcome decides it wherever it stands in the list,
  an unknown operand is otherwise kept, and a negation keeps unknown. De Morgan's law holds.
\<close>

theorem evaluate_expression_kleene:
  "evaluate_expression ctx rebac (ExprAnd es) = kleene_and (evaluate_expression ctx rebac ` set es)
   \<and> evaluate_expression ctx rebac (ExprOr es) = kleene_or (evaluate_expression ctx rebac ` set es)
   \<and> (evaluate_expression ctx rebac (ExprNot e) = None) = (evaluate_expression ctx rebac e = None)
   \<and> evaluate_expression ctx rebac (ExprNot (ExprAnd es))
       = evaluate_expression ctx rebac (ExprOr (map ExprNot es))"
  by (simp add: kleene_de_morgan image_image)

text \<open>
  More evidence: every absent input may become known, the lists and the action stay, and a
  relationship evaluator may appear or answer where it failed.
\<close>

definition known_le :: "'a option \<Rightarrow> 'a option \<Rightarrow> bool" where
  "known_le x y \<longleftrightarrow> x = None \<or> x = y"

definition evidence_le :: "policy_context \<Rightarrow> policy_context \<Rightarrow> bool" where
  "evidence_le ctx ctx' \<longleftrightarrow>
     pc_groups ctx = pc_groups ctx' \<and> pc_roles ctx = pc_roles ctx'
     \<and> pc_posture ctx = pc_posture ctx' \<and> pc_resource_action ctx = pc_resource_action ctx'
     \<and> known_le (pc_subject_id ctx) (pc_subject_id ctx')
     \<and> known_le (pc_device_id ctx) (pc_device_id ctx') \<and> known_le (pc_acr ctx) (pc_acr ctx')
     \<and> known_le (pc_auth_age_seconds ctx) (pc_auth_age_seconds ctx')
     \<and> known_le (pc_risk_score ctx) (pc_risk_score ctx')
     \<and> known_le (pc_resource_host ctx) (pc_resource_host ctx')
     \<and> known_le (pc_pep_registration ctx) (pc_pep_registration ctx')"

definition rebac_le :: "rebac_check option \<Rightarrow> rebac_check option \<Rightarrow> bool" where
  "rebac_le r r' \<longleftrightarrow>
     (case r of None \<Rightarrow> True
      | Some c \<Rightarrow> \<exists>c'. r' = Some c'
          \<and> (\<forall>ns obj rel sns sid. is_ok (c ns obj rel sns sid) \<longrightarrow> c' ns obj rel sns sid = c ns obj rel sns sid))"

lemma known_le_refl: "known_le x x"
  by (simp add: known_le_def)

lemma known_le_map: "known_le x y \<Longrightarrow> known_le (map_option f x) (map_option f y)"
  by (auto simp: known_le_def)

lemma known_le_if: "known_le a a' \<Longrightarrow> known_le b b' \<Longrightarrow> known_le (if c then a else b) (if c then a' else b')"
  by simp

lemma known_leD: "known_le x y \<Longrightarrow> x = Some v \<Longrightarrow> y = Some v"
  by (auto simp: known_le_def)

lemma resolve_field_path_mono:
  assumes "evidence_le ctx ctx'"
  shows "known_le (resolve_field_path ctx p) (resolve_field_path ctx' p)"
proof -
  have lists: "pc_groups ctx = pc_groups ctx'" "pc_roles ctx = pc_roles ctx'"
      "pc_posture ctx = pc_posture ctx'" "pc_resource_action ctx = pc_resource_action ctx'"
    using assms by (simp_all add: evidence_le_def)
  show ?thesis
    unfolding resolve_field_path_def Let_def effective_pep_registration_def lists
    using assms unfolding evidence_le_def
    by (intro known_le_if known_le_map known_le_refl) blast+
qed

lemma condition_matches_mono:
  assumes "evidence_le ctx ctx'" "condition_matches c ctx = Some b"
  shows "condition_matches c ctx' = Some b"
proof -
  obtain vals where v: "resolve_field_path ctx (cond_field c) = Some vals"
    using assms(2) by (auto simp: condition_matches_def split: option.splits)
  have g: "in_group ctx' = in_group ctx"
    using assms(1) by (auto simp: evidence_le_def in_group_def)
  show ?thesis
    using assms(2)
    unfolding condition_matches_def g v known_leD [OF resolve_field_path_mono [OF assms(1)] v]
      option.case .
qed

lemma evaluate_rebac_mono:
  assumes "evidence_le ctx ctx'" "rebac_le r r'"
    "evaluate_expression ctx r (RebacCheck ns obj rel sns) = Some b"
  shows "evaluate_expression ctx' r' (RebacCheck ns obj rel sns) = Some b"
proof -
  from assms(3) obtain c sid where c: "r = Some c" "pc_subject_id ctx = Some sid"
      "c ns obj rel sns sid = Inr b"
    by (auto split: option.splits sum.splits)
  with assms(1,2) obtain c' where "r' = Some c'" "pc_subject_id ctx' = Some sid"
      "c' ns obj rel sns sid = Inr b"
    by (auto simp: rebac_le_def evidence_le_def known_le_def)
  then show ?thesis by simp
qed

lemma evaluate_expression_mono:
  assumes "evidence_le ctx ctx'" "rebac_le r r'"
  shows "evaluate_expression ctx r e = Some b \<Longrightarrow> evaluate_expression ctx' r' e = Some b"
proof (induction e arbitrary: b)
  case (Condition c)
  then show ?case using condition_matches_mono [OF assms(1)] by simp
next
  case (ExprAnd es)
  then show ?case
    using kleene_and_mono [of "set es" "evaluate_expression ctx r" "evaluate_expression ctx' r'" b]
    by simp
next
  case (ExprOr es)
  then show ?case
    using kleene_or_mono [of "set es" "evaluate_expression ctx r" "evaluate_expression ctx' r'" b]
    by simp
next
  case (ExprNot e)
  then show ?case by auto
next
  case (InGroup g)
  then show ?case using assms(1) by (simp add: in_group_def evidence_le_def)
next
  case (MatchAction a)
  then show ?case using assms(1) by (simp add: ctx_action_matches_def evidence_le_def)
next
  case (RebacCheck ns obj rel sns)
  then show ?case by (rule evaluate_rebac_mono [OF assms])
qed


definition example_context :: policy_context where
  "example_context =
     \<lparr>pc_subject_id = Some ''alice'', pc_groups = [''staff''], pc_roles = [], pc_entitlements = [],
      pc_device_id = None, pc_posture = [], pc_acr = None, pc_auth_age_seconds = None,
      pc_risk_score = None, pc_resource_host = Some ''a.example'', pc_resource_action = Some ''read'',
      pc_pep_registration = None\<rparr>"


text \<open>
  The action is the one input whose absence counts as a definite outcome: an expression that
  negates an action pattern matches every request that carries no action at all.
\<close>

theorem negated_action_matches_absent_action:
  assumes "pc_resource_action ctx = None"
  shows "evaluate_expression ctx rebac (ExprNot (MatchAction a)) = Some True"
  using assms by (simp add: ctx_action_matches_def)

theorem negated_action_matches_absent_action_witness:
  "pc_resource_action (example_context\<lparr>pc_resource_action := None\<rparr>) = None
   \<and> evaluate_expression (example_context\<lparr>pc_resource_action := None\<rparr>) None
       (ExprNot (MatchAction ''delete'')) = Some True"
  using negated_action_matches_absent_action [of "example_context\<lparr>pc_resource_action := None\<rparr>" None "''delete''"]
  by (simp add: example_context_def)

section \<open>The contract of a relationship evaluator\<close>

text \<open>
  What a rule relies on: an answer of the evaluator, when it gives one, is the relation
  \<open>holds\<close>. It may fail at any time.
\<close>

locale rebac_evaluator =
  fixes check :: rebac_check
    and holds :: "string \<Rightarrow> string \<Rightarrow> string \<Rightarrow> string \<Rightarrow> string \<Rightarrow> bool"
  assumes check_answer: "check ns obj rel sns sid = Inr b \<Longrightarrow> b = holds ns obj rel sns sid"
begin

lemma check_leaf_sound:
  assumes "evaluate_expression ctx (Some check) (RebacCheck ns obj rel sns) = Some b"
  shows "\<exists>sid. pc_subject_id ctx = Some sid \<and> b = holds ns obj rel sns sid"
  using assms check_answer by (auto split: option.splits sum.splits)

lemma rule_requires_relation:
  assumes "rule_expression r = Some (RebacCheck ns obj rel sns)" "rule_matches r ctx (Some check)"
  shows "\<exists>sid. pc_subject_id ctx = Some sid \<and> holds ns obj rel sns sid"
proof -
  have "evaluate_expression ctx (Some check) (RebacCheck ns obj rel sns) = Some True"
    using assms by (auto simp: rule_matches_def split: if_splits option.splits)
  from check_leaf_sound [OF this] show ?thesis by simp
qed

lemma rule_requires_no_relation:
  assumes "rule_expression r = Some (ExprNot (RebacCheck ns obj rel sns))"
    "rule_matches r ctx (Some check)"
  shows "\<exists>sid. pc_subject_id ctx = Some sid \<and> \<not> holds ns obj rel sns sid"
proof -
  have "evaluate_expression ctx (Some check) (ExprNot (RebacCheck ns obj rel sns)) = Some True"
    using assms by (auto simp: rule_matches_def simp del: evaluate_expression.simps split: if_splits)
  then have "evaluate_expression ctx (Some check) (RebacCheck ns obj rel sns) = Some False"
    by (cases "evaluate_expression ctx (Some check) (RebacCheck ns obj rel sns)")
      (simp_all del: evaluate_expression.simps(7))
  from check_leaf_sound [OF this] show ?thesis by simp
qed

end

section \<open>The strict JSON form of expressions\<close>

text \<open>
  The documents of an expression: an object with exactly the keys of one variant, nothing
  missing and nothing added, at every level.
\<close>

inductive encodes :: "json \<Rightarrow> expression \<Rightarrow> bool" where
  encodes_and: "map_of object = [''and'' \<mapsto> JArray items] \<Longrightarrow> list_all2 encodes items es
    \<Longrightarrow> encodes (JObject object) (ExprAnd es)"
| encodes_or: "map_of object = [''or'' \<mapsto> JArray items] \<Longrightarrow> list_all2 encodes items es
    \<Longrightarrow> encodes (JObject object) (ExprOr es)"
| encodes_not: "map_of object = [''not'' \<mapsto> v] \<Longrightarrow> encodes v e
    \<Longrightarrow> encodes (JObject object) (ExprNot e)"
| encodes_in_group: "map_of object = [''in_group'' \<mapsto> JString g]
    \<Longrightarrow> encodes (JObject object) (InGroup g)"
| encodes_action: "map_of object = [''action'' \<mapsto> JString a]
    \<Longrightarrow> encodes (JObject object) (MatchAction a)"
| encodes_condition:
    "map_of object = [''field'' \<mapsto> JString f, ''op'' \<mapsto> JString p, ''value'' \<mapsto> v]
    \<Longrightarrow> encodes (JObject object) (Condition \<lparr>cond_field = f, cond_op = p, cond_value = v\<rparr>)"
| encodes_rebac:
    "map_of object = [''namespace'' \<mapsto> JString ns, ''object_id'' \<mapsto> JString obj,
       ''relation'' \<mapsto> JString rel, ''subject_namespace'' \<mapsto> JString sns]
    \<Longrightarrow> encodes (JObject object) (RebacCheck ns obj rel sns)"

lemma expression_value_Inr [simp]:
  "expression_value object key = Inr v \<longleftrightarrow> map_of object key = Some v"
  by (simp add: expression_value_def)

lemma expression_string_Inr [simp]:
  "expression_string object key = Inr s \<longleftrightarrow> map_of object key = Some (JString s)"
proof -
  have "(case v of JString t \<Rightarrow> Inr t | _ \<Rightarrow> Inl m) = Inr s \<longleftrightarrow> v = JString s" for v and m :: string
    by (cases v) simp_all
  then show ?thesis by (simp add: expression_string_def)
qed

lemma expression_items_Inr [simp]:
  "expression_items object key = Inr items \<longleftrightarrow> map_of object key = Some (JArray items)"
proof -
  have "(case v of JArray t \<Rightarrow> Inr t | _ \<Rightarrow> Inl m) = Inr items \<longleftrightarrow> v = JArray items"
    for v and m :: string
    by (cases v) simp_all
  then show ?thesis by (simp add: expression_items_def)
qed

definition shape_selected :: "json_object \<Rightarrow> string \<times> string list \<Rightarrow> bool" where
  "shape_selected object shape \<longleftrightarrow>
     find (\<lambda>key. key \<notin> set (concat (map snd expression_shapes))) (map fst object) = None
     \<and> filter (\<lambda>(_, keys). list_ex (hm_contains object) keys) expression_shapes = [shape]"

lemma find_keys_None:
  "find (\<lambda>key. key \<notin> K) (map fst object) = None \<longleftrightarrow> dom (map_of object) \<subseteq> K"
  by (auto simp: find_None_iff dom_map_of_conv_image_fst)

text \<open>An object selects a variant only if it has no key of another one.\<close>

lemma shape_selected_dom:
  assumes "shape_selected object (name, keys)"
  shows "(name, keys) \<in> set expression_shapes" "dom (map_of object) \<subseteq> set keys"
proof -
  let ?f = "filter (\<lambda>(_, keys). list_ex (hm_contains object) keys) expression_shapes"
  have f: "?f = [(name, keys)]" using assms by (simp add: shape_selected_def)
  then have "(name, keys) \<in> set ?f" by simp
  then show "(name, keys) \<in> set expression_shapes" by simp
  show "dom (map_of object) \<subseteq> set keys"
  proof
    fix k assume k: "k \<in> dom (map_of object)"
    with assms have "k \<in> set (concat (map snd expression_shapes))"
      unfolding shape_selected_def find_keys_None by blast
    then obtain n ks where n: "(n, ks) \<in> set expression_shapes" "k \<in> set ks" by auto
    with k have "(n, ks) \<in> set ?f" by (auto simp: hm_contains_def list_ex_iff)
    with f n show "k \<in> set keys" by simp
  qed
qed

lemma parse_object_selects:
  assumes "parse_expression (JObject object) = Inr e"
  obtains shape where "shape_selected object shape"
  using assms
  by (auto simp: shape_selected_def simp del: concat.simps split: option.splits list.splits prod.splits)

lemma shape_cases:
  assumes "(name, keys) \<in> set expression_shapes"
  shows "(name, keys) = (''and'', [''and'']) \<or> (name, keys) = (''or'', [''or''])
    \<or> (name, keys) = (''not'', [''not'']) \<or> (name, keys) = (''in_group'', [''in_group''])
    \<or> (name, keys) = (''action'', [''action''])
    \<or> (name, keys) = (''condition'', [''field'', ''op'', ''value''])
    \<or> (name, keys) = (''rebac'', [''namespace'', ''object_id'', ''relation'', ''subject_namespace''])"
  using assms by (simp add: expression_shapes_def)

lemma shape_selectedI:
  assumes "(name, keys) \<in> set expression_shapes" "dom (map_of object) = set keys"
  shows "shape_selected object (name, keys)"
proof -
  have c: "hm_contains object = (\<lambda>k. k \<in> set keys)"
    using assms(2) by (auto simp: hm_contains_def fun_eq_iff domIff)
  show ?thesis
    using shape_cases [OF assms(1)] unfolding shape_selected_def find_keys_None assms(2) c
    by (elim disjE) (simp_all add: expression_shapes_def)
qed

text \<open>The parser once a variant is selected.\<close>

lemma parse_selected:
  assumes "shape_selected object (name, keys)"
  shows "parse_expression (JObject object) =
    (if name = ''and'' then
       and_then (expression_items object ''and'')
         (\<lambda>items. and_then (parse_entries ''and'' 0 items) (\<lambda>es. Inr (ExprAnd es)))
     else if name = ''or'' then
       and_then (expression_items object ''or'')
         (\<lambda>items. and_then (parse_entries ''or'' 0 items) (\<lambda>es. Inr (ExprOr es)))
     else if name = ''not'' then
       and_then (expression_value object ''not'')
         (\<lambda>v. and_then (parse_expression v) (\<lambda>e. Inr (ExprNot e)))
     else if name = ''in_group'' then
       and_then (expression_string object ''in_group'') (\<lambda>g. Inr (InGroup g))
     else if name = ''action'' then
       and_then (expression_string object ''action'') (\<lambda>a. Inr (MatchAction a))
     else if name = ''condition'' then
       and_then (expression_string object ''field'') (\<lambda>f.
         and_then (expression_string object ''op'') (\<lambda>p.
           and_then (expression_value object ''value'') (\<lambda>v.
             Inr (Condition \<lparr>cond_field = f, cond_op = p, cond_value = v\<rparr>))))
     else
       and_then (expression_string object ''namespace'') (\<lambda>ns.
         and_then (expression_string object ''object_id'') (\<lambda>obj.
           and_then (expression_string object ''relation'') (\<lambda>rel.
             and_then (expression_string object ''subject_namespace'') (\<lambda>sns.
               Inr (RebacCheck ns obj rel sns))))))"
  using shape_cases [OF shape_selected_dom(1) [OF assms]]
    assms [unfolded shape_selected_def]
  by (elim disjE) (simp_all del: concat.simps map_is_Nil_conv)

lemma parse_entries_Inr:
  "parse_entries key i items = Inr es \<longleftrightarrow> list_all2 (\<lambda>v e. parse_expression v = Inr e) items es"
proof (induction items arbitrary: i es)
  case Nil
  then show ?case by auto
next
  case (Cons v items)
  then show ?case by (cases es) (auto split: sum.splits)
qed


lemma map_of_eqI:
  assumes "dom (map_of object) \<subseteq> dom m" "\<And>k v. m k = Some v \<Longrightarrow> map_of object k = Some v"
  shows "map_of object = m"
proof
  fix k
  show "map_of object k = m k"
  proof (cases "m k")
    case None
    then have "k \<notin> dom (map_of object)" using assms(1) by blast
    with None show ?thesis by (simp add: domIff)
  next
    case (Some v)
    with assms(2) show ?thesis by simp
  qed
qed

lemma encodes_parse: "encodes v e \<Longrightarrow> parse_expression v = Inr e"
proof (induction rule: encodes.induct)
  case (encodes_and object items es)
  then have "shape_selected object (''and'', [''and''])"
    by (intro shape_selectedI) (simp_all add: expression_shapes_def)
  with encodes_and show ?case
    by (simp add: parse_selected parse_entries_Inr list_all2_mono del: parse_expression.simps)
next
  case (encodes_or object items es)
  then have "shape_selected object (''or'', [''or''])"
    by (intro shape_selectedI) (simp_all add: expression_shapes_def)
  with encodes_or show ?case
    by (simp add: parse_selected parse_entries_Inr list_all2_mono del: parse_expression.simps)
next
  case (encodes_not object v e)
  then have "shape_selected object (''not'', [''not''])"
    by (intro shape_selectedI) (simp_all add: expression_shapes_def)
  with encodes_not show ?case by (simp add: parse_selected del: parse_expression.simps)
next
  case (encodes_in_group object g)
  then have "shape_selected object (''in_group'', [''in_group''])"
    by (intro shape_selectedI) (simp_all add: expression_shapes_def)
  with encodes_in_group show ?case by (simp add: parse_selected del: parse_expression.simps)
next
  case (encodes_action object a)
  then have "shape_selected object (''action'', [''action''])"
    by (intro shape_selectedI) (simp_all add: expression_shapes_def)
  with encodes_action show ?case by (simp add: parse_selected del: parse_expression.simps)
next
  case (encodes_condition object f p v)
  then have "shape_selected object (''condition'', [''field'', ''op'', ''value''])"
    by (intro shape_selectedI) (auto simp: expression_shapes_def)
  with encodes_condition show ?case by (simp add: parse_selected del: parse_expression.simps)
next
  case (encodes_rebac object ns obj rel sns)
  then have "shape_selected object
      (''rebac'', [''namespace'', ''object_id'', ''relation'', ''subject_namespace''])"
    by (intro shape_selectedI) (auto simp: expression_shapes_def)
  with encodes_rebac show ?case by (simp add: parse_selected del: parse_expression.simps)
qed

lemma size_array_member:
  assumes "map_of object key = Some (JArray items)" "v \<in> set items"
  shows "size v < size (JObject object)"
  using size_map_of_object [OF assms(1)] size_list_estimation' [OF assms(2), of "size v" size]
  by simp

lemma parse_encodes: "parse_expression v = Inr e \<Longrightarrow> encodes v e"
proof (induction v arbitrary: e rule: measure_induct_rule [where f = size])
  case (less v)
  show ?case
  proof (cases v)
    case (JObject object)
    from less.prems [unfolded JObject] obtain name keys
      where sel: "shape_selected object (name, keys)"
      by (rule parse_object_selects) (metis prod.exhaust)
    note dom = shape_selected_dom(2) [OF sel] and parsed = less.prems [unfolded JObject parse_selected [OF sel]]
    have items: "list_all2 encodes items es"
      if "map_of object key = Some (JArray items)" "parse_entries key 0 items = Inr es" for key items es
      using that less.IH size_array_member [OF that(1)]
      by (auto simp: parse_entries_Inr JObject elim!: list.rel_mono_strong)
    have nested: "encodes v' e'"
      if "map_of object key = Some v'" "parse_expression v' = Inr e'" for key v' e'
      using that less.IH size_map_of_object [OF that(1)] by (simp add: JObject)
    from shape_cases [OF shape_selected_dom(1) [OF sel]] show ?thesis
      unfolding JObject
      by (elim disjE; use parsed dom in \<open>clarsimp simp del: parse_expression.simps\<close>)
        (auto intro!: encodes.intros map_of_eqI intro: items nested split: if_splits)
  qed (use less.prems in simp_all)
qed

text \<open>
  C24. The parser of rule expressions accepts exactly the documents of the expression grammar, and
  reads each of them as the expression it encodes: an object that misses a key, adds one, repeats
  another variant's key or nests such an object at any depth is refused, and every well-formed
  document is accepted.
\<close>

theorem parse_expression_spec: "parse_expression v = Inr e \<longleftrightarrow> encodes v e"
  using encodes_parse parse_encodes by blast

section \<open>Threshold comparisons\<close>

text \<open>The numbers a document can hold, and the value each denotes.\<close>

fun number_wf :: "number \<Rightarrow> bool" where
  "number_wf (NegInt n) \<longleftrightarrow> sint n < 0"
| "number_wf _ \<longleftrightarrow> True"

fun number_value :: "number \<Rightarrow> rat" where
  "number_value (PosInt n) = of_int (uint n)"
| "number_value (NegInt n) = of_int (sint n)"
| "number_value (Float x) = x"

text \<open>Integers, and the numbers a double holds exactly.\<close>

fun is_integer :: "number \<Rightarrow> bool" where
  "is_integer (Float x) \<longleftrightarrow> False"
| "is_integer _ \<longleftrightarrow> True"

fun exact_f64 :: "number \<Rightarrow> bool" where
  "exact_f64 (PosInt n) \<longleftrightarrow> uint n < 2 ^ 53"
| "exact_f64 (NegInt n) \<longleftrightarrow> - (2 ^ 53) < sint n"
| "exact_f64 (Float x) \<longleftrightarrow> True"

lemma excess_quotient: "2 ^ 52 \<le> n \<Longrightarrow> 2 ^ 52 \<le> n div 2 ^ excess_bits n"
proof (induction n rule: less_induct)
  case (less n)
  show ?case
  proof (cases "n < 2 ^ 53")
    case True
    then show ?thesis using less.prems by (subst excess_bits.simps) simp
  next
    case False
    then have "excess_bits n = Suc (excess_bits (n div 2))"
      by (subst excess_bits.simps) simp
    moreover from False have "2 ^ 52 \<le> n div 2" "n div 2 < n" by simp_all
    ultimately show ?thesis using less.IH [of "n div 2"] by (simp add: div_mult2_eq)
  qed
qed

lemma round_f64_small: "n < 2 ^ 53 \<Longrightarrow> round_f64 n = n"
  by (simp add: round_f64_def excess_bits.simps [of n])

lemma round_f64_pos: "0 < n \<Longrightarrow> 0 < round_f64 n"
proof (cases "n < 2 ^ 53")
  case False
  then have "2 ^ 52 \<le> n div 2 ^ excess_bits n" by (intro excess_quotient) simp
  then have "0 < n div 2 ^ excess_bits n" by (rule less_le_trans [rotated]) simp
  then show "0 < n \<Longrightarrow> 0 < round_f64 n" unfolding round_f64_def Let_def by simp
qed (simp add: round_f64_small)

lemma int_to_f64_small: "\<bar>i\<bar> < 2 ^ 53 \<Longrightarrow> int_to_f64 i = of_int i"
  by (simp add: int_to_f64_def round_f64_small)

lemma int_to_f64_neg: "i < 0 \<Longrightarrow> int_to_f64 i < 0"
  using round_f64_pos [of "nat (- i)"] by (simp add: int_to_f64_def)

lemma int_to_f64_nonneg: "0 \<le> i \<Longrightarrow> 0 \<le> int_to_f64 i"
  by (simp add: int_to_f64_def)

lemma cmp_of_int [simp]: "cmp (of_int x :: rat) (of_int y) = cmp x y"
  by (simp add: cmp_def)

lemma cmp_uint [simp]: "cmp (uint x) (uint y) = cmp x y"
  by (simp add: cmp_def word_less_def word_uint_eq_iff)

lemma cmp_number_value:
  "cmp (number_value (PosInt x)) (number_value (PosInt y)) = cmp x y"
  "cmp (number_value (NegInt x)) (number_value (NegInt y)) = cmp (sint x) (sint y)"
  by (simp_all only: number_value.simps cmp_of_int cmp_uint)

lemma as_f64_exact: "exact_f64 a \<Longrightarrow> number_wf a \<Longrightarrow> as_f64 a = number_value a"
  by (cases a) (simp_all add: int_to_f64_small)

lemma numeric_compare_mixed_sign:
  assumes "sint y < 0"
  shows "numeric_compare (PosInt x) (NegInt y) = Some Greater"
    "numeric_compare (NegInt y) (PosInt x) = Some Less"
proof -
  have "int_to_f64 (sint y) < int_to_f64 (uint x)"
    using int_to_f64_neg [OF assms] int_to_f64_nonneg [of "uint x"] by simp
  moreover have "sint y < uint x"
    using assms order_less_le_trans uint_ge_0 by blast
  ultimately show "numeric_compare (PosInt x) (NegInt y) = Some Greater"
    "numeric_compare (NegInt y) (PosInt x) = Some Less"
    by (auto simp: numeric_compare_def cmp_def)
qed

lemma numeric_compare_integers:
  assumes "number_wf a" "number_wf b" "is_integer a" "is_integer b"
  shows "numeric_compare a b = Some (cmp (number_value a) (number_value b))"
proof -
  have lt: "sint y < uint x" if "sint y < 0" for x y :: "64 word"
    using that order_less_le_trans uint_ge_0 by blast
  show ?thesis
  proof (cases a)
    case (PosInt x)
    show ?thesis
    proof (cases b)
      case (NegInt y)
      with assms PosInt lt [of y x] show ?thesis
        unfolding PosInt NegInt number_value.simps cmp_of_int
        by (simp add: numeric_compare_mixed_sign cmp_def)
    qed (use assms PosInt in \<open>simp_all add: numeric_compare_def cmp_number_value del: number_value.simps\<close>)
  next
    case (NegInt x)
    show ?thesis
    proof (cases b)
      case (PosInt y)
      with assms NegInt lt [of x y] show ?thesis
        unfolding PosInt NegInt number_value.simps cmp_of_int
        by (simp add: numeric_compare_mixed_sign cmp_def)
    qed (use assms NegInt in \<open>simp_all add: numeric_compare_def cmp_number_value del: number_value.simps\<close>)
  qed (use assms in simp)
qed

text \<open>
  A threshold compares the numbers themselves: two integers are ordered exactly over the whole
  64-bit range, signed against unsigned included, and so are numbers of which one is a double, as
  long as the integer is below 2 to the 53.
\<close>

theorem numeric_compare_exact:
  assumes "number_wf a" and "number_wf b"
    and "is_integer a \<and> is_integer b \<or> exact_f64 a \<and> exact_f64 b"
  shows "numeric_compare a b = Some (cmp (number_value a) (number_value b))"
proof (cases "is_integer a \<and> is_integer b")
  case True
  with assms show ?thesis by (intro numeric_compare_integers) simp_all
next
  case False
  with assms(3) have e: "exact_f64 a" "exact_f64 b" by simp_all
  from False have "as_u64 a = None \<and> as_i64 a = None \<or> as_u64 b = None \<and> as_i64 b = None"
    by (cases a; cases b) simp_all
  then have "numeric_compare a b = Some (cmp (as_f64 a) (as_f64 b))"
    by (auto simp: numeric_compare_def split: option.splits)
  then show ?thesis using as_f64_exact e assms(1,2) by simp
qed

theorem numeric_compare_exact_witness:
  "number_wf (PosInt 18446744073709551615) \<and> number_wf (NegInt (-5))
   \<and> is_integer (PosInt 18446744073709551615) \<and> is_integer (NegInt (-5))
   \<and> numeric_compare (PosInt 18446744073709551615) (NegInt (-5))
     = Some (cmp (number_value (PosInt 18446744073709551615)) (number_value (NegInt (-5))))"
  using numeric_compare_exact [of "PosInt 18446744073709551615" "NegInt (-5)"] by simp

text \<open>
  Beyond that bound the comparison is not exact: an integer that a double cannot hold is
  rounded first, so a risk score of 2 to the 53 plus 1 is not greater than the double 2 to the 53.
\<close>

theorem numeric_compare_rounds:
  "numeric_compare (PosInt 9007199254740993) (Float 9007199254740992) = Some Equal"
proof -
  have "excess_bits 9007199254740993 = 1"
    by (simp add: excess_bits.simps)
  then have "int_to_f64 9007199254740993 = 9007199254740992"
    by (simp add: int_to_f64_def round_f64_def)
  then show ?thesis by (simp add: numeric_compare_def cmp_def)
qed

end
