(* ===== verification/Qid_Models_Auth.thy ===== *)
theory Qid_Models_Auth
  imports Qid_Policy
begin

text \<open>
  The rows of the authentication and token tables: \<^verbatim>\<open>qid-core/src/models\<close> (users, clients,
  sessions, tokens, credentials, push approval, CIAM, OIDC continuations). Field for field; a field
  name carries an abbreviation of its struct.
\<close>

record oidc_authorization_continuation =
  oac_id :: string
  oac_realm_id :: string
  oac_user_id :: string
  oac_client_id :: string
  oac_context_json :: string
  oac_browser_binding_sha256 :: "octet list"
  oac_created_at :: u64
  oac_expires_at :: u64

record stored_continuation =
  stc_record :: oidc_authorization_continuation
  stc_consumed :: bool

datatype push_public_jwk = EC string string string | OKP string string | RSA string string

record push_authenticator =
  pa_id :: string
  pa_realm_id :: string
  pa_user_id :: string
  pa_destination :: string
  pa_device_name :: string
  pa_device_platform :: string
  pa_public_jwk :: push_public_jwk
  pa_created_at :: u64
  pa_revoked_at :: "u64 option"

record push_registration_challenge =
  prc_authenticator :: push_authenticator
  prc_nonce_verifier :: string
  prc_expires_at :: u64
  prc_max_attempts :: u32
  prc_attempt_count :: u32

datatype push_authenticator_record =
    Pending push_registration_challenge
  | Enrolled push_authenticator

fun record_authenticator :: "push_authenticator_record \<Rightarrow> push_authenticator" where
  "record_authenticator (Pending c) = prc_authenticator c"
| "record_authenticator (Enrolled a) = a"

datatype push_purpose = PasswordLogin

datatype push_decision = PushApprove | PushDeny

record push_login_challenge =
  plc_id :: string
  plc_realm_id :: string
  plc_user_id :: string
  plc_authenticator_id :: string
  plc_purpose :: push_purpose
  plc_nonce_verifier :: string
  plc_browser_binding_verifier :: string
  plc_resend_admitted_at :: "u64 list"
  plc_created_at :: u64
  plc_expires_at :: u64
  plc_max_attempts :: u32
  plc_attempt_count :: u32
  plc_decision :: "push_decision option"
  plc_decided_at :: "u64 option"
  plc_consumed_at :: "u64 option"

record push_store =
  ps_authenticators :: "(string, push_authenticator_record) hash_map"
  ps_logins :: "(string, push_login_challenge) hash_map"
  ps_registration_issued_at :: "(string, u64) hash_map"
  ps_login_issued_at :: "(string, u64) hash_map"

record user =
  usr_id :: string
  usr_realm_id :: string
  usr_email :: "string option"
  usr_email_verified :: bool
  usr_display_name :: "string option"
  usr_failed_login_attempts :: u32
  usr_locked_until :: "u64 option"
  usr_org :: "string option"

record password_credential =
  pwc_user_id :: string
  pwc_hash :: string
  pwc_algorithm :: string

datatype client_type = Confidential | Public

record client =
  cl_id :: string
  cl_realm_id :: string
  cl_client_id :: string
  cl_client_type :: client_type
  cl_token_endpoint_auth_method :: string
  cl_client_secret_hash :: "string option"
  cl_mtls_certificate_thumbprints :: "string list"
  cl_jwks :: json
  cl_redirect_uris :: "string list"
  cl_grant_types :: "string list"
  cl_client_name :: "string option"
  cl_client_uri :: "string option"
  cl_logo_uri :: "string option"
  cl_contacts :: "string list"
  cl_post_logout_redirect_uris :: "string list"
  cl_default_max_age :: "u64 option"
  cl_require_auth_time :: bool
  cl_sector_identifier_uri :: "string option"
  cl_subject_type :: "string option"
  cl_backchannel_logout_uri :: "string option"
  cl_frontchannel_logout_uri :: "string option"
  cl_backchannel_client_notification_endpoint :: "string option"
  cl_require_pushed_authorization_requests :: bool

record session =
  ses_id :: string
  ses_realm_id :: string
  ses_user_id :: string
  ses_auth_time :: u64
  ses_acr :: "string option"
  ses_amr :: "string list"
  ses_idle_expires_at :: u64
  ses_absolute_expires_at :: u64
  ses_revoked :: bool
  ses_created_at :: u64
  ses_cnf :: "json option"

record authorization_code =
  code_code_hash :: string
  code_client_id :: string
  code_user_id :: string
  code_realm_id :: string
  code_redirect_uri :: string
  code_state :: "string option"
  code_nonce :: "string option"
  code_auth_time :: "u64 option"
  code_acr :: "string option"
  code_amr :: "string list"
  code_code_challenge :: "string option"
  code_code_challenge_method :: "string option"
  code_scopes :: "string list"
  code_resource :: "string list"
  code_authorization_details :: "json option"
  code_expires_at :: u64
  code_used :: bool
  code_created_at :: u64
  code_session_id :: "string option"

record token_family =
  tf_id :: string
  tf_user_id :: string
  tf_client_id :: string
  tf_realm_id :: string
  tf_current_refresh_hash :: string
  tf_scopes :: "string list"
  tf_auth_time :: "u64 option"
  tf_acr :: "string option"
  tf_amr :: "string list"
  tf_audience :: "string list"
  tf_resource :: "string list"
  tf_authorization_details :: "json option"
  tf_sender_constraint :: "json option"
  tf_issued_at :: u64
  tf_refresh_expires_at :: "u64 option"
  tf_session_id :: "string option"
  tf_revoked :: bool

datatype token_format = Jwt | Opaque

record access_token =
  at_jti :: string
  at_family_id :: "string option"
  at_user_id :: string
  at_client_id :: string
  at_realm_id :: string
  at_scopes :: "string list"
  at_audience :: "string list"
  at_resource :: "string list"
  at_authorization_details :: "json option"
  at_cnf :: "json option"
  at_auth_time :: "u64 option"
  at_acr :: "string option"
  at_amr :: "string list"
  at_nonce :: "string option"
  at_sender_constraint :: "json option"
  at_token_format :: token_format
  at_expires_at :: u64
  at_revoked :: bool
  at_issued_at :: u64

record webauthn_credential =
  wac_id :: string
  wac_user_id :: string
  wac_credential_id :: "octet list"
  wac_public_key :: "octet list"
  wac_counter :: u64
  wac_aaguid :: "octet list"
  wac_device_name :: "string option"
  wac_created_at :: u64

record service_account =
  sa_id :: string
  sa_client_id :: string
  sa_realm_id :: string
  sa_description :: "string option"
  sa_created_at :: u64

record stored_policy_bundle =
  spb_id :: string
  spb_realm_id :: string
  spb_name :: string
  spb_source_hash :: string
  spb_compiled_json :: json
  spb_version :: u64
  spb_active :: bool

record totp_credential =
  totp_id :: string
  totp_user_id :: string
  totp_secret :: string
  totp_algorithm :: string
  totp_digits :: u32
  totp_period :: u64
  totp_enabled :: bool
  totp_last_used_step :: "u64 option"
  totp_created_at :: u64

record vc_credential_status_record =
  vcs_credential_id :: string
  vcs_realm_id :: string
  vcs_subject :: string
  vcs_issuer :: string
  vcs_status_list_uri :: string
  vcs_issued_at :: u64
  vcs_expires_at :: u64
  vcs_revoked :: bool
  vcs_revocation_reason :: "string option"
  vcs_revoked_at :: "u64 option"

record device =
  dev_id :: string
  dev_user_id :: string
  dev_realm_id :: string
  dev_device_name :: "string option"
  dev_device_type :: string
  dev_posture :: "string list"
  dev_registered_at :: u64
  dev_last_seen_at :: u64

record par_request =
  par_request_uri :: string
  par_client_id :: string
  par_realm_id :: string
  par_params_json :: json
  par_expires_at :: u64
  par_used :: bool
  par_created_at :: u64

record device_authorization_grant =
  dag_device_code_hash :: string
  dag_user_code :: string
  dag_client_id :: string
  dag_realm_id :: string
  dag_scopes :: "string list"
  dag_resource :: "string list"
  dag_audience :: "string list"
  dag_user_id :: "string option"
  dag_expires_at :: u64
  dag_approved_at :: "u64 option"
  dag_consumed :: bool
  dag_last_poll_at :: "u64 option"
  dag_poll_interval_seconds :: u64
  dag_created_at :: u64

record backchannel_authentication_grant =
  bag_auth_req_id_hash :: string
  bag_client_id :: string
  bag_realm_id :: string
  bag_login_hint :: string
  bag_binding_message :: "string option"
  bag_scopes :: "string list"
  bag_resource :: "string list"
  bag_audience :: "string list"
  bag_user_id :: "string option"
  bag_expires_at :: u64
  bag_approved_at :: "u64 option"
  bag_consumed :: bool
  bag_last_poll_at :: "u64 option"
  bag_poll_interval_seconds :: u64
  bag_created_at :: u64

record ciam_consent_grant =
  ccg_id :: string
  ccg_realm_id :: string
  ccg_user_id :: string
  ccg_client_id :: string
  ccg_granted_claims :: "string list"
  ccg_terms_version :: "string option"
  ccg_granted_at_epoch_seconds :: u64
  ccg_revoked :: bool

record ciam_verification_challenge_record =
  cvc_id :: string
  cvc_realm_id :: string
  cvc_user_id :: string
  cvc_channel :: string
  cvc_address :: string
  cvc_purpose :: string
  cvc_code_hash :: string
  cvc_attempt_count :: u32
  cvc_expires_at_epoch_seconds :: u64
  cvc_consumed_at_epoch_seconds :: "u64 option"
  cvc_created_at_epoch_seconds :: u64

record ciam_identity_link =
  cil_id :: string
  cil_realm_id :: string
  cil_user_id :: string
  cil_provider :: string
  cil_external_subject :: string
  cil_external_email :: "string option"
  cil_profile_json :: json
  cil_linked_at_epoch_seconds :: u64
  cil_verified :: bool

record password_reset_token =
  prt_id :: string
  prt_realm_id :: string
  prt_user_id :: string
  prt_token_hash :: string
  prt_device_id :: "string option"
  prt_risk_json :: json
  prt_expires_at_epoch_seconds :: u64
  prt_consumed_at_epoch_seconds :: "u64 option"
  prt_created_at_epoch_seconds :: u64

record ciam_progressive_profile =
  cpp_id :: string
  cpp_realm_id :: string
  cpp_user_id :: string
  cpp_profile_json :: json
  cpp_passwordless_migrated_at :: "u64 option"
  cpp_created_at :: u64
  cpp_updated_at :: u64

record ciam_brand =
  cb_id :: string
  cb_tenant_id :: string
  cb_realm_id :: string
  cb_display_name :: string
  cb_primary_color :: string
  cb_logo_uri :: "string option"
  cb_privacy_policy_uri :: "string option"
  cb_support_uri :: "string option"
  cb_terms_version :: "string option"
  cb_active :: bool

end
