(* ===== verification/Qid_Models_Lifecycle.thy ===== *)
theory Qid_Models_Lifecycle
  imports Qid_Policy
begin

text \<open>
  The rows of the lifecycle, governance, administration and audit tables: \<^verbatim>\<open>qid-core/src/models\<close>
  and \<^verbatim>\<open>qid-storage/src/traits.rs\<close>. Field for field; a field name carries an abbreviation of its
  struct.
\<close>

record scim_user =
  su_id :: string
  su_realm_id :: string
  su_external_id :: "string option"
  su_user_name :: string
  su_name_json :: json
  su_emails_json :: json
  su_enterprise_json :: json
  su_directory_provider_id :: "string option"
  su_deprovisioned_at :: "u64 option"
  su_active :: bool

record hr_summary =
  hrs_created :: u32
  hrs_updated :: u32
  hrs_deprovisioned :: u32

record hr_receipt =
  hrr_sequence :: u64
  hrr_digest :: string
  hrr_summary :: hr_summary

record scim_group =
  sg_id :: string
  sg_realm_id :: string
  sg_display_name :: string
  sg_members_json :: json

record scim_device_record =
  sd_id :: string
  sd_realm_id :: string
  sd_display_name :: "string option"
  sd_manufacturer :: "string option"
  sd_model :: "string option"
  sd_os :: "string option"
  sd_os_version :: "string option"
  sd_last_seen :: "u64 option"

record scim_event_subscription =
  ses_sub_id :: string
  ses_sub_realm_id :: string
  ses_sub_callback_url :: string
  ses_sub_event_types :: "string list"
  ses_sub_enabled :: bool
  ses_sub_created_at :: u64

record fedcm_identity =
  fed_id :: string
  fed_realm_id :: string
  fed_account_id :: string
  fed_email :: string
  fed_name :: "string option"
  fed_given_name :: "string option"
  fed_picture_url :: "string option"
  fed_approved_clients :: "string list"

record workload_identity =
  wi_id :: string
  wi_realm_id :: string
  wi_spiffe_id :: string
  wi_description :: "string option"
  wi_trust_domain :: string
  wi_authorities_json :: json

record workload_certificate =
  wc_id :: string
  wc_realm_id :: string
  wc_workload_id :: string
  wc_spiffe_id :: string
  wc_serial_number :: string
  wc_x5t_s256 :: string
  wc_csr_sha256 :: string
  wc_certificate_pem :: string
  wc_issuer_key_ref :: string
  wc_issued_at :: u64
  wc_not_before :: u64
  wc_not_after :: u64
  wc_revoked_at :: "u64 option"

record custom_domain =
  cd_id :: string
  cd_tenant_id :: string
  cd_realm_id :: string
  cd_hostname :: string
  cd_certificate_ref :: string
  cd_verified :: bool
  cd_verification_status :: string
  cd_dns_challenge_name :: "string option"
  cd_dns_challenge_value :: "string option"
  cd_certificate_expires_at :: "u64 option"
  cd_certificate_renew_after :: "u64 option"
  cd_last_verified_at :: "u64 option"

record app_catalog_entry =
  ace_id :: string
  ace_tenant_id :: string
  ace_realm_id :: string
  ace_display_name :: string
  ace_category :: string
  ace_oidc_client_id :: "string option"
  ace_saml_entity_id :: "string option"
  ace_scim_enabled :: bool
  ace_marketplace_connector_id :: "string option"

datatype marketplace_connector_type = ConnectorScim | ConnectorSaml | ConnectorOidc | ConnectorWebhook

record marketplace_connector =
  mc_id :: string
  mc_tenant_id :: string
  mc_provider :: string
  mc_connector_type :: marketplace_connector_type
  mc_config_json :: json
  mc_enabled :: bool

record usage_billing_event =
  ube_id :: string
  ube_tenant_id :: string
  ube_meter :: string
  ube_quantity :: u64
  ube_occurred_at :: u64
  ube_idempotency_key :: string
  ube_dimensions :: "(string, string) hash_map"

record compliance_evidence_pack =
  cep_id :: string
  cep_tenant_id :: string
  cep_period_start :: u64
  cep_period_end :: u64
  cep_controls :: "string list"
  cep_object_uri :: string
  cep_sha256_hex :: string
  cep_generated_at :: u64

record delegated_tenant_admin =
  dta_id :: string
  dta_tenant_id :: string
  dta_subject :: string
  dta_roles :: "string list"
  dta_allowed_realm_ids :: "string list"
  dta_granted_by :: string
  dta_granted_at :: u64
  dta_expires_at :: "u64 option"
  dta_revoked :: bool

record iga_entitlement_record =
  ent_id :: string
  ent_tenant_id :: string
  ent_display_name :: string
  ent_owner :: string
  ent_risk_level :: string
  ent_conflicting_entitlements :: "string list"
  ent_max_duration_seconds :: "u64 option"
  ent_active :: bool

record iga_access_package_record =
  pkg_id :: string
  pkg_tenant_id :: string
  pkg_display_name :: string
  pkg_owner :: string
  pkg_entitlement_ids :: "string list"
  pkg_approval_policy_json :: json
  pkg_max_duration_seconds :: "u64 option"
  pkg_active :: bool

record iga_access_request_record =
  req_id :: string
  req_tenant_id :: string
  req_subject :: string
  req_entitlement :: string
  req_reason :: "string option"
  req_status :: string
  req_approval_steps_json :: json
  req_violations_json :: json
  req_package_entitlement_ids_json :: json
  req_expires_at_epoch_seconds :: "u64 option"
  req_created_at_epoch_seconds :: u64

record iga_approval_record =
  apr_id :: string
  apr_tenant_id :: string
  apr_request_id :: string
  apr_approver :: string
  apr_decision :: string
  apr_approved_at_epoch_seconds :: u64
  apr_expires_at_epoch_seconds :: "u64 option"
  apr_reason :: "string option"

record iga_access_grant_record =
  grt_id :: string
  grt_tenant_id :: string
  grt_request_id :: string
  grt_subject :: string
  grt_entitlement :: string
  grt_granted_at_epoch_seconds :: u64
  grt_expires_at_epoch_seconds :: "u64 option"
  grt_approval_ids :: "string list"
  grt_revoked :: bool

record iga_jit_privilege_grant_record =
  jit_id :: string
  jit_tenant_id :: string
  jit_subject :: string
  jit_entitlement :: string
  jit_requested_by :: string
  jit_approved_by :: "string option"
  jit_reason :: string
  jit_issued_at_epoch_seconds :: u64
  jit_expires_at_epoch_seconds :: u64
  jit_revoked :: bool
  jit_constraints_json :: json

record iga_access_review_campaign_record =
  arc_id :: string
  arc_tenant_id :: string
  arc_reviewer :: string
  arc_subjects_json :: json
  arc_status :: string
  arc_created_at_epoch_seconds :: u64
  arc_due_at_epoch_seconds :: "u64 option"

record iga_access_review_decision_record =
  ard_id :: string
  ard_tenant_id :: string
  ard_campaign_id :: string
  ard_subject :: string
  ard_reviewer :: string
  ard_decision :: string
  ard_reason :: "string option"
  ard_decided_at_epoch_seconds :: u64

record iga_certification_record =
  cert_id :: string
  cert_tenant_id :: string
  cert_certification_type :: string
  cert_campaign_id :: "string option"
  cert_subject :: string
  cert_entitlement :: string
  cert_certifier :: string
  cert_decision :: string
  cert_reason :: "string option"
  cert_evidence_json :: json
  cert_decided_at_epoch_seconds :: u64

record iga_finding_record =
  fnd_id :: string
  fnd_tenant_id :: string
  fnd_finding_type :: string
  fnd_subject :: string
  fnd_severity :: string
  fnd_evidence_json :: json
  fnd_detected_at_epoch_seconds :: u64
  fnd_resolved :: bool

record admin =
  adm_id :: string
  adm_tenant_id :: string
  adm_subject :: string
  adm_roles :: "string list"
  adm_created_at :: u64

record admin_elevation =
  elv_id :: string
  elv_tenant_id :: string
  elv_admin_id :: string
  elv_source_session_id :: "string option"
  elv_acr :: "string option"
  elv_amr :: "string list"
  elv_elevation_expires_at :: u64
  elv_created_at :: u64

record admin_approval =
  app_id :: string
  app_tenant_id :: string
  app_approver_admin_id :: string
  app_target_admin_id :: string
  app_reason :: "string option"
  app_approved_at :: u64
  app_expires_at :: u64
  app_consumed :: bool

record ssf_stream_record =
  ssf_realm_id :: string
  ssf_stream_id :: string
  ssf_delivery_json :: json
  ssf_events_requested :: "string list"
  ssf_transmitter_issuer :: string
  ssf_transmitter_jwks_json :: json
  ssf_transmitter_alg :: string
  ssf_audience :: string
  ssf_status :: string
  ssf_created_at :: u64
  ssf_updated_at :: u64

datatype siem_delivery_status = SiemPending | SiemDelivered | SiemDead

record siem_delivery_record =
  siem_id :: string
  siem_realm_id :: "string option"
  siem_endpoint_url :: string
  siem_payload_json :: json
  siem_attempts :: u32
  siem_next_retry_at :: "u64 option"
  siem_status :: siem_delivery_status
  siem_last_error :: "string option"
  siem_created_at :: u64
  siem_updated_at :: u64

record audit_event =
  aud_id :: string
  aud_realm_id :: "string option"
  aud_actor :: string
  aud_action :: string
  aud_target_type :: string
  aud_target_id :: string
  aud_reason :: string
  aud_metadata_json :: json
  aud_created_at :: u64
  aud_previous_hash :: "string option"
  aud_event_hash :: "string option"

record audit_retention_config =
  ret_realm_id :: "string option"
  ret_retention_days :: u64
  ret_legal_hold :: bool
  ret_updated_by :: string
  ret_reason :: string
  ret_updated_at :: u64

end
