(* ===== verification/Qid_Rebac.thy ===== *)
theory Qid_Rebac
  imports Qid_Policy
begin

text \<open>
  The relationship engine: \<^verbatim>\<open>qid-iga/src/rebac.rs\<close> over the rows of
  \<^verbatim>\<open>qid-core/src/models/rebac.rs\<close>. A repository is the function \<open>reader\<close> that lists the tuples of
  an object; what it returns during one operation is a snapshot.

  \<open>check\<close> is proved to decide bounded reachability in the userset graph, \<open>expand\<close> to list exactly
  the subjects \<open>check\<close> accepts, and the tenant-scoped evaluator to stay within its tenant.
\<close>

section \<open>Relationship tuples\<close>

record relationship_tuple =
  rt_namespace :: string
  rt_object_id :: string
  rt_relation :: string
  rt_subject_namespace :: string
  rt_subject_id :: string
  rt_subject_relation :: string
  rt_created_at :: u64

record subject_ref =
  sr_namespace :: string
  sr_subject_id :: string

record check_request =
  cr_namespace :: string
  cr_object_id :: string
  cr_relation :: string
  cr_subject :: subject_ref

datatype expand_node =
    Leaf string string "string option"
  | Branch string string string "expand_node list"

text \<open>A group of tuples is named by namespace, object and relation.\<close>

type_synonym group_key = "string \<times> string \<times> string"
type_synonym tuple_reader = "string \<Rightarrow> string \<Rightarrow> string option \<Rightarrow> relationship_tuple list result"

definition max_depth :: nat where
  "max_depth = 10"

definition read_group :: "tuple_reader \<Rightarrow> group_key \<Rightarrow> relationship_tuple list result" where
  "read_group reader k = (case k of (ns, obj, rel) \<Rightarrow> reader ns obj (Some rel))"

definition is_userset :: "relationship_tuple \<Rightarrow> bool" where
  "is_userset t \<longleftrightarrow> rt_subject_relation t \<noteq> []"

definition subject_key :: "relationship_tuple \<Rightarrow> group_key" where
  "subject_key t = (rt_subject_namespace t, rt_subject_id t, rt_subject_relation t)"

definition names_subject :: "string \<Rightarrow> string \<Rightarrow> relationship_tuple \<Rightarrow> bool" where
  "names_subject sns sid t \<longleftrightarrow>
     rt_subject_namespace t = sns \<and> rt_subject_id t = sid \<and> rt_subject_relation t = []"

section \<open>Check\<close>

text \<open>
  The size of the userset tree below a group, cut at a depth: it bounds the work that the queue
  still holds.
\<close>

definition usersets :: "tuple_reader \<Rightarrow> group_key \<Rightarrow> group_key list" where
  "usersets reader k =
     (case read_group reader k of Inl _ \<Rightarrow> [] | Inr ts \<Rightarrow> map subject_key (filter is_userset ts))"

fun tree_size :: "tuple_reader \<Rightarrow> nat \<Rightarrow> group_key \<Rightarrow> nat" where
  "tree_size reader 0 k = 1"
| "tree_size reader (Suc n) k = Suc (sum_list (map (tree_size reader n) (usersets reader k)))"

definition queue_size :: "tuple_reader \<Rightarrow> nat \<Rightarrow> (group_key \<times> nat) list \<Rightarrow> nat" where
  "queue_size reader limit q = sum_list (map (\<lambda>(k, d). tree_size reader (limit - d) k) q)"

lemma tree_size_pos: "0 < tree_size reader n k"
  by (cases n) simp_all

lemma queue_size_simps [simp]:
  "queue_size reader limit [] = 0"
  "queue_size reader limit ((k, d) # q) = tree_size reader (limit - d) k + queue_size reader limit q"
  "queue_size reader limit (q @ q') = queue_size reader limit q + queue_size reader limit q'"
  by (simp_all add: queue_size_def)

lemma queue_size_children:
  assumes "read_group reader k = Inr ts" "d < limit"
  shows "queue_size reader limit (map (\<lambda>t. (subject_key t, Suc d)) (filter is_userset ts))
    < tree_size reader (limit - d) k"
proof -
  obtain n where n: "limit - d = Suc n" "limit - Suc d = n"
    using assms(2) by (metis Suc_diff_Suc)
  show ?thesis
    using assms(1) by (simp add: n queue_size_def usersets_def comp_def)
qed

function (sequential) check_loop ::
    "tuple_reader \<Rightarrow> string \<Rightarrow> string \<Rightarrow> group_key set \<Rightarrow> (group_key \<times> nat) list \<Rightarrow> bool result" where
  "check_loop reader sns sid visited [] = Inr False"
| "check_loop reader sns sid visited ((k, depth) # queue) =
     (if max_depth < depth then check_loop reader sns sid visited queue
      else if k \<in> visited then check_loop reader sns sid visited queue
      else and_then (read_group reader k) (\<lambda>tuples.
        if list_ex (names_subject sns sid) tuples then Inr True
        else check_loop reader sns sid (insert k visited)
               (queue @ map (\<lambda>t. (subject_key t, depth + 1)) (filter is_userset tuples))))"
  by pat_completeness auto
termination
proof (relation "measure (\<lambda>(reader, sns, sid, visited, queue). queue_size reader (Suc max_depth) queue)",
    goal_cases)
  case (4 reader sns sid visited k depth queue tuples)
  then show ?case
    using queue_size_children [of reader k tuples depth "Suc max_depth"] by simp
qed (simp_all add: tree_size_pos)

definition check ::
    "tuple_reader \<Rightarrow> string \<Rightarrow> string \<Rightarrow> string \<Rightarrow> string \<Rightarrow> string \<Rightarrow> bool result" where
  "check reader ns obj rel sns sid = check_loop reader sns sid {} [((ns, obj, rel), 0)]"

fun check_batch :: "tuple_reader \<Rightarrow> check_request list \<Rightarrow> bool list result" where
  "check_batch reader [] = Inr []"
| "check_batch reader (c # cs) =
     and_then (check reader (cr_namespace c) (cr_object_id c) (cr_relation c)
                 (sr_namespace (cr_subject c)) (sr_subject_id (cr_subject c)))
       (\<lambda>allowed. and_then (check_batch reader cs) (\<lambda>rest. Inr (allowed # rest)))"

section \<open>What a check decides\<close>

declare split_paired_All [simp del] split_paired_Ex [simp del]

text \<open>
  The userset graph of the tuples, and the relation a check is meant to decide: a tuple names the
  subject on the group itself or on a group at most ten userset edges away.
\<close>

definition edge :: "tuple_reader \<Rightarrow> group_key \<Rightarrow> group_key \<Rightarrow> bool" where
  "edge reader a b \<longleftrightarrow> b \<in> set (usersets reader a)"

definition direct :: "tuple_reader \<Rightarrow> string \<Rightarrow> string \<Rightarrow> group_key \<Rightarrow> bool" where
  "direct reader sns sid a \<longleftrightarrow>
     (\<exists>ts. read_group reader a = Inr ts \<and> list_ex (names_subject sns sid) ts)"

definition related_in :: "nat \<Rightarrow> tuple_reader \<Rightarrow> string \<Rightarrow> string \<Rightarrow> group_key \<Rightarrow> bool" where
  "related_in limit reader sns sid a \<longleftrightarrow>
     (\<exists>n\<le>limit. \<exists>b. (edge reader ^^ n) a b \<and> direct reader sns sid b)"

definition related :: "tuple_reader \<Rightarrow> string \<Rightarrow> string \<Rightarrow> string \<Rightarrow> string \<Rightarrow> string \<Rightarrow> bool" where
  "related reader ns obj rel sns sid = related_in max_depth reader sns sid (ns, obj, rel)"

lemma edge_read: "read_group reader k = Inr ts \<Longrightarrow> edge reader k c \<longleftrightarrow> c \<in> subject_key ` {t \<in> set ts. is_userset t}"
  by (auto simp: edge_def usersets_def)

text \<open>Soundness: every queued group is as many edges away as its depth says.\<close>

lemma check_loop_sound:
  assumes "check_loop reader sns sid visited queue = Inr True"
    "\<And>x. x \<in> set queue \<Longrightarrow> (edge reader ^^ snd x) start (fst x)"
  shows "related_in max_depth reader sns sid start"
  using assms
proof (induction reader sns sid visited queue rule: check_loop.induct)
  case (1 reader sns sid visited)
  then show ?case by simp
next
  case (2 reader sns sid visited k depth queue)
  show ?case
  proof (cases "max_depth < depth \<or> k \<in> visited")
    case True
    then show ?thesis using 2(1,2,4,5) by (auto split: if_splits)
  next
    case False
    with 2(4) obtain ts where ts: "read_group reader k = Inr ts" by auto
    have k: "(edge reader ^^ depth) start k" using 2(5) [of "(k, depth)"] by simp
    show ?thesis
    proof (cases "list_ex (names_subject sns sid) ts")
      case True
      with False ts k show ?thesis
        unfolding related_in_def direct_def
        by (intro exI [where x = depth] exI [where x = k] exI [where x = ts] conjI) simp_all
    next
      case no: False
      have "(edge reader ^^ Suc depth) start (subject_key t)" if "t \<in> set ts" "is_userset t" for t
        using that k by (auto simp: edge_read [OF ts] intro!: relcomppI)
      then have "(edge reader ^^ snd x) start (fst x)"
        if "x \<in> set (queue @ map (\<lambda>t. (subject_key t, depth + 1)) (filter is_userset ts))" for x
        using that 2(5) [of x] by (auto simp del: relpowp.simps)
      then show ?thesis using 2(3) [of ts] 2(4) False no ts by simp
    qed
  qed
qed

text \<open>
  Completeness. The frontier invariant of the search: \<open>dst\<close> gives each visited group the depth it
  was visited at; the queue is ordered by depth and spans at most two depths; a visited group does
  not name the subject, and its usersets are visited or queued one edge further at most.
\<close>

definition covered :: "(group_key \<Rightarrow> nat) \<Rightarrow> group_key set \<Rightarrow> (group_key \<times> nat) list \<Rightarrow> nat \<Rightarrow> group_key \<Rightarrow> bool" where
  "covered dst visited queue n c \<longleftrightarrow>
     (c \<in> visited \<and> dst c \<le> n) \<or> (\<exists>d\<le>n. (c, d) \<in> set queue)"

definition frontier :: "tuple_reader \<Rightarrow> string \<Rightarrow> string \<Rightarrow> (group_key \<Rightarrow> nat) \<Rightarrow> group_key set \<Rightarrow> (group_key \<times> nat) list \<Rightarrow> bool" where
  "frontier reader sns sid dst visited queue \<longleftrightarrow>
     sorted (map snd queue)
     \<and> (\<forall>d\<in>snd ` set queue. \<forall>d'\<in>snd ` set queue. d' \<le> Suc d)
     \<and> (\<forall>v\<in>visited. \<not> direct reader sns sid v \<and> (\<forall>d\<in>snd ` set queue. dst v \<le> d)
          \<and> (dst v < max_depth \<longrightarrow>
               (\<forall>c. edge reader v c \<longrightarrow> covered dst visited queue (Suc (dst v)) c)))"

lemma frontier_skip:
  assumes "frontier reader sns sid dst visited ((k, d) # queue)"
    "max_depth < d \<or> k \<in> visited"
  shows "frontier reader sns sid dst visited queue"
    "n \<le> max_depth \<Longrightarrow> covered dst visited ((k, d) # queue) n c \<Longrightarrow> covered dst visited queue n c"
proof -
  have le: "dst v \<le> d" if "v \<in> visited" for v
    using assms(1) that by (auto simp: frontier_def)
  show step: "covered dst visited queue n c"
    if "n \<le> max_depth" "covered dst visited ((k, d) # queue) n c" for n c
    using that assms(2) le by (fastforce simp: covered_def)
  show "frontier reader sns sid dst visited queue"
    using assms(1) step unfolding frontier_def by auto
qed

lemma frontier_visit:
  assumes "frontier reader sns sid dst visited ((k, d) # queue)" "k \<notin> visited"
    "read_group reader k = Inr ts" "\<not> list_ex (names_subject sns sid) ts"
  defines "queue' \<equiv> queue @ map (\<lambda>t. (subject_key t, d + 1)) (filter is_userset ts)"
  shows "frontier reader sns sid (dst(k := d)) (insert k visited) queue'"
    "covered dst visited ((k, d) # queue) n c \<Longrightarrow> covered (dst(k := d)) (insert k visited) queue' n c"
proof -
  let ?dst = "dst(k := d)"
  have bounds: "d' \<le> Suc d" "d \<le> d'" if "(c, d') \<in> set queue" for c d'
    using assms(1) that by (force simp: frontier_def)+
  show cov: "covered ?dst (insert k visited) queue' n c"
    if "covered dst visited ((k, d) # queue) n c" for n c
    using that assms(2) by (auto simp: covered_def queue'_def)
  have srt: "sorted (map snd queue')"
    using assms(1) bounds by (auto simp: queue'_def frontier_def sorted_append comp_def
        map_replicate_const)
  have range: "d \<le> snd x" "snd x \<le> Suc d" if "x \<in> set queue'" for x
    using that bounds [of "fst x" "snd x"] by (auto simp: queue'_def)
  have span: "b \<le> Suc a" if "a \<in> snd ` set queue'" "b \<in> snd ` set queue'" for a b
  proof -
    from that obtain x y where "x \<in> set queue'" "a = snd x" "y \<in> set queue'" "b = snd y" by blast
    with range [of x] range [of y] show ?thesis by simp
  qed
  have old: "dst v \<le> d" "\<not> direct reader sns sid v"
      "\<lbrakk>dst v < max_depth; edge reader v c\<rbrakk> \<Longrightarrow> covered dst visited ((k, d) # queue) (Suc (dst v)) c"
    if "v \<in> visited" for v c
    using assms(1) that by (auto simp: frontier_def)
  have k: "\<not> direct reader sns sid k"
    using assms(3,4) by (simp add: direct_def)
  have children: "covered ?dst (insert k visited) queue' (Suc d) c" if "edge reader k c" for c
    using that by (auto simp: edge_read [OF assms(3)] covered_def queue'_def)
  have "?dst v \<le> d" if "v \<in> insert k visited" for v
    using that old(1) [of v] by auto
  then have low: "\<forall>d'\<in>snd ` set queue'. ?dst v \<le> d'" if "v \<in> insert k visited" for v
    using that range(1) le_trans by blast
  have near: "covered ?dst (insert k visited) queue' (Suc (?dst v)) c"
    if "v \<in> insert k visited" "?dst v < max_depth" "edge reader v c" for v c
  proof (cases "v = k")
    case True
    with that children show ?thesis by simp
  next
    case False
    with that have "covered dst visited ((k, d) # queue) (Suc (dst v)) c" by (intro old(3)) auto
    from cov [OF this] False show ?thesis by simp
  qed
  show "frontier reader sns sid ?dst (insert k visited) queue'"
    unfolding frontier_def
  proof (intro conjI ballI impI allI)
    fix v assume v: "v \<in> insert k visited"
    then show "\<not> direct reader sns sid v" using k old(2) [of v] by (cases "v = k") simp_all
    show "?dst v \<le> d'" if "d' \<in> snd ` set queue'" for d' using low v that by blast
    show "covered ?dst (insert k visited) queue' (Suc (?dst v)) c"
      if "?dst v < max_depth" "edge reader v c" for c using near v that by blast
  qed (use srt span in \<open>simp_all only:\<close>)
qed


lemma check_loop_complete:
  assumes "check_loop reader sns sid visited queue = Inr False"
    "frontier reader sns sid dst visited queue"
  shows "\<exists>dst' visited'. frontier reader sns sid dst' visited' []
    \<and> (\<forall>n\<le>max_depth. \<forall>c. covered dst visited queue n c \<longrightarrow> covered dst' visited' [] n c)"
  using assms
proof (induction reader sns sid visited queue arbitrary: dst rule: check_loop.induct)
  case (1 reader sns sid visited)
  then show ?case by blast
next
  case (2 reader sns sid visited k depth queue)
  show ?case
  proof (cases "max_depth < depth \<or> k \<in> visited")
    case True
    have "check_loop reader sns sid visited queue = Inr False"
      using 2(4) True by (auto split: if_splits)
    then obtain dst' visited' where
        "frontier reader sns sid dst' visited' []"
        "\<forall>n\<le>max_depth. \<forall>c. covered dst visited queue n c \<longrightarrow> covered dst' visited' [] n c"
      using 2(1,2) True frontier_skip(1) [OF 2(5) True] by blast
    with frontier_skip(2) [OF 2(5) True] show ?thesis by blast
  next
    case False
    with 2(4) obtain ts where ts: "read_group reader k = Inr ts"
        and no: "\<not> list_ex (names_subject sns sid) ts"
      by (auto split: if_splits)
    from False have new: "k \<notin> visited" by simp
    note visit = frontier_visit [OF 2(5) new ts no]
    have "check_loop reader sns sid (insert k visited)
        (queue @ map (\<lambda>t. (subject_key t, depth + 1)) (filter is_userset ts)) = Inr False"
      using 2(4) False ts no by simp
    from 2(3) [OF _ _ ts no this visit(1)] False obtain dst' visited' where
        "frontier reader sns sid dst' visited' []"
        "\<forall>n\<le>max_depth. \<forall>c. covered (dst(k := depth)) (insert k visited)
           (queue @ map (\<lambda>t. (subject_key t, depth + 1)) (filter is_userset ts)) n c
             \<longrightarrow> covered dst' visited' [] n c"
      by blast
    with visit(2) show ?thesis by blast
  qed
qed

lemma frontier_done:
  assumes "frontier reader sns sid dst visited []" "covered dst visited [] 0 start"
    "(edge reader ^^ n) start c" "n \<le> max_depth"
  shows "c \<in> visited \<and> dst c \<le> n"
  using assms(3,4)
proof (induction n arbitrary: c)
  case 0
  then show ?case using assms(2) by (simp add: covered_def)
next
  case (Suc n)
  then obtain b where b: "(edge reader ^^ n) start b" "edge reader b c" by auto
  with Suc have "b \<in> visited" "dst b \<le> n" by simp_all
  with assms(1) b(2) Suc.prems(2) have "covered dst visited [] (Suc (dst b)) c"
    by (auto simp: frontier_def)
  with \<open>dst b \<le> n\<close> show ?case by (auto simp: covered_def)
qed

lemma check_answers:
  assumes "check reader ns obj rel sns sid = Inr b"
  shows "b = related reader ns obj rel sns sid"
proof (cases b)
  case True
  then show ?thesis
    using assms check_loop_sound [of reader sns sid "{}" "[((ns, obj, rel), 0)]" "(ns, obj, rel)"]
    by (simp add: check_def related_def)
next
  case False
  have "frontier reader sns sid (\<lambda>_. 0) {} [((ns, obj, rel), 0)]"
    by (simp add: frontier_def)
  from check_loop_complete [OF _ this] assms False obtain dst visited
    where fin: "frontier reader sns sid dst visited []"
      and cov: "\<forall>n\<le>max_depth. \<forall>c. covered (\<lambda>_. 0) {} [((ns, obj, rel), 0)] n c
        \<longrightarrow> covered dst visited [] n c"
    by (auto simp: check_def)
  have "covered dst visited [] 0 (ns, obj, rel)"
    using cov [rule_format, of 0 "(ns, obj, rel)"] by (simp add: covered_def)
  from frontier_done [OF fin this] fin have "\<not> related reader ns obj rel sns sid"
    by (auto simp: related_def related_in_def frontier_def)
  with False show ?thesis by simp
qed

lemma check_loop_ok:
  assumes "\<And>k. is_ok (read_group reader k)"
  shows "is_ok (check_loop reader sns sid visited queue)"
  using assms
proof (induction reader sns sid visited queue rule: check_loop.induct)
  case (2 reader sns sid visited k depth queue)
  obtain ts where "read_group reader k = Inr ts" using 2(4) [of k] by (cases "read_group reader k") auto
  with 2 show ?case by auto
qed simp

lemma check_is_related:
  assumes "\<And>k. is_ok (read_group reader k)"
  shows "check reader ns obj rel sns sid = Inr (related reader ns obj rel sns sid)"
proof -
  have "is_ok (check reader ns obj rel sns sid)"
    unfolding check_def by (rule check_loop_ok [OF assms])
  then obtain b where "check reader ns obj rel sns sid = Inr b"
    by (cases "check reader ns obj rel sns sid") auto
  with check_answers [OF this] show ?thesis by simp
qed

text \<open>
  C3. A relationship check decides reachability: over tuples that can be read, it ends and answers
  true exactly when a tuple names the subject on the object's relation or on a userset at most
  ten userset edges away, whatever cycles and shared groups the tuples form.
\<close>

theorem check_decides_related:
  assumes "\<And>k. is_ok (read_group reader k)"
  shows "check reader ns obj rel sns sid = Inr (related reader ns obj rel sns sid)"
  by (rule check_is_related [OF assms])

text \<open>A membership cycle between two groups, and a repository that holds it.\<close>

definition example_tuples :: "relationship_tuple list" where
  "example_tuples =
     [\<lparr>rt_namespace = ''doc'', rt_object_id = ''d1'', rt_relation = ''viewer'',
       rt_subject_namespace = ''grp'', rt_subject_id = ''a'', rt_subject_relation = ''member'', rt_created_at = 1\<rparr>,
      \<lparr>rt_namespace = ''grp'', rt_object_id = ''a'', rt_relation = ''member'',
       rt_subject_namespace = ''grp'', rt_subject_id = ''b'', rt_subject_relation = ''member'', rt_created_at = 2\<rparr>,
      \<lparr>rt_namespace = ''grp'', rt_object_id = ''b'', rt_relation = ''member'',
       rt_subject_namespace = ''grp'', rt_subject_id = ''a'', rt_subject_relation = ''member'', rt_created_at = 3\<rparr>,
      \<lparr>rt_namespace = ''grp'', rt_object_id = ''b'', rt_relation = ''member'',
       rt_subject_namespace = ''user'', rt_subject_id = ''alice'', rt_subject_relation = [], rt_created_at = 4\<rparr>]"

definition example_reader :: tuple_reader where
  "example_reader ns obj rel = Inr (filter (\<lambda>t. rt_namespace t = ns \<and> rt_object_id t = obj
     \<and> (case rel of None \<Rightarrow> True | Some r \<Rightarrow> rt_relation t = r)) example_tuples)"

lemma example_reader_ok: "is_ok (read_group example_reader k)"
  by (cases k) (simp add: read_group_def example_reader_def)

lemmas example_simps = example_reader_def example_tuples_def read_group_def names_subject_def
  is_userset_def subject_key_def max_depth_def

theorem check_decides_related_witness:
  "(\<forall>k. is_ok (read_group example_reader k))
   \<and> check example_reader ''doc'' ''d1'' ''viewer'' ''user'' ''alice'' = Inr True
   \<and> check example_reader ''doc'' ''d1'' ''viewer'' ''user'' ''bob'' = Inr False
   \<and> check example_reader ''doc'' ''d1'' ''viewer'' ''user'' ''alice''
     = Inr (related example_reader ''doc'' ''d1'' ''viewer'' ''user'' ''alice'')"
proof -
  have "check example_reader ''doc'' ''d1'' ''viewer'' ''user'' ''alice'' = Inr True"
    by (simp add: check_def example_simps)
  moreover have "check example_reader ''doc'' ''d1'' ''viewer'' ''user'' ''bob'' = Inr False"
    by (simp add: check_def example_simps)
  ultimately show ?thesis
    using check_decides_related [of example_reader "''doc''" "''d1''" "''viewer''" "''user''" "''alice''",
        OF example_reader_ok] example_reader_ok
    by simp
qed

section \<open>Evaluators for the policy engine\<close>

text \<open>\<^verbatim>\<open>RebacEvaluatorBridge\<close> passes a check on unchanged.\<close>

definition bridge_check :: "tuple_reader \<Rightarrow> rebac_check" where
  "bridge_check reader ns obj rel sns sid = check reader ns obj rel sns sid"

definition scoped :: "string \<Rightarrow> string \<Rightarrow> string" where
  "scoped tenant_id ns =
     (let prefx = tenant_id @ ''::''
      in if starts_with ns prefx then ns else prefx @ ns)"

definition tenant_scoped_check :: "tuple_reader \<Rightarrow> string \<Rightarrow> rebac_check" where
  "tenant_scoped_check reader tenant_id ns obj rel sns sid =
     check reader (scoped tenant_id ns) obj rel (scoped tenant_id sns) sid"

interpretation bridge: rebac_evaluator "bridge_check reader" "related reader"
  for reader
  by unfold_locales (simp add: bridge_check_def check_answers)

interpretation tenant: rebac_evaluator "tenant_scoped_check reader tenant_id"
  "\<lambda>ns obj rel sns sid. related reader (scoped tenant_id ns) obj rel (scoped tenant_id sns) sid"
  for reader tenant_id
  by unfold_locales (simp add: tenant_scoped_check_def check_answers)


definition example_rule :: rule where
  "example_rule =
     \<lparr>rule_name = ''viewers'', rule_kind = RuleAllow, rule_action = ''read'', rule_resource_host = None,
      rule_conditions = [], rule_expression = Some (RebacCheck ''doc'' ''d1'' ''viewer'' ''user''),
      rule_rate_limit_profile = None, rule_inject_headers = None, rule_pep = pep_default\<rparr>"

definition example_tenant_reader :: tuple_reader where
  "example_tenant_reader ns obj rel =
     Inr (if ns = ''t1::doc'' \<and> obj = ''d1'' \<and> rel = Some ''viewer''
          then [\<lparr>rt_namespace = ns, rt_object_id = obj, rt_relation = ''viewer'',
                 rt_subject_namespace = ''t1::user'', rt_subject_id = ''alice'',
                 rt_subject_relation = [], rt_created_at = 1\<rparr>]
          else [])"


section \<open>Tenant isolation\<close>

lemma starts_with_append [simp]: "starts_with (p @ s) p"
  by (induction p) (simp_all add: starts_with_def)

definition in_tenant :: "string \<Rightarrow> string \<Rightarrow> bool" where
  "in_tenant tenant_id ns \<longleftrightarrow> starts_with ns (tenant_id @ ''::'')"

lemma in_tenant_scoped [simp]: "in_tenant tenant_id (scoped tenant_id ns)"
  using starts_with_append [of "tenant_id @ ''::''" ns] by (simp add: in_tenant_def scoped_def Let_def)

lemma check_loop_tenant_cong:
  assumes "\<And>k. in_tenant tenant_id (fst k) \<Longrightarrow> read_group reader k = read_group reader' k"
    "\<And>k ts t. in_tenant tenant_id (fst k) \<Longrightarrow> read_group reader k = Inr ts \<Longrightarrow> t \<in> set ts
       \<Longrightarrow> is_userset t \<Longrightarrow> in_tenant tenant_id (rt_subject_namespace t)"
    "\<forall>x\<in>set queue. in_tenant tenant_id (fst (fst x))"
  shows "check_loop reader sns sid visited queue = check_loop reader' sns sid visited queue"
  using assms
proof (induction reader sns sid visited queue rule: check_loop.induct)
  case (2 reader sns sid visited k depth queue)
  have k: "in_tenant tenant_id (fst k)" and q: "\<forall>x\<in>set queue. in_tenant tenant_id (fst (fst x))"
    using 2(6) by simp_all
  show ?case
  proof (cases "max_depth < depth \<or> k \<in> visited")
    case True
    with 2(1) [OF _ 2(4) 2(5) q] 2(2) [OF _ _ 2(4) 2(5) q] show ?thesis by auto
  next
    case False
    show ?thesis
    proof (cases "read_group reader k")
      case (Inl e)
      with False 2(4) [OF k, symmetric] show ?thesis by simp
    next
      case (Inr ts)
      have "\<forall>x\<in>set (queue @ map (\<lambda>t. (subject_key t, depth + 1)) (filter is_userset ts)).
          in_tenant tenant_id (fst (fst x))"
        using q 2(5) [OF k Inr] by (auto simp: subject_key_def)
      with False Inr 2(4) [OF k, symmetric] 2(3) [of ts, OF _ _ Inr _ 2(4) 2(5)] show ?thesis by simp
    qed
  qed
qed simp


lemma append_colons_prefix:
  assumes "starts_with s (t @ ''::'')" "starts_with s (t' @ ''::'')" "CHR '':'' \<notin> set t" "CHR '':'' \<notin> set t'"
  shows "t = t'"
  using assms
proof (induction s arbitrary: t t')
  case Nil
  then show ?case by (cases t) (simp_all add: starts_with_def)
next
  case (Cons c s)
  then show ?case
    by (cases t; cases t') (auto simp: starts_with_def split: if_splits)
qed



section \<open>Expand\<close>

datatype expand_error = Repository qid_error | ResponseTooLarge nat

type_synonym tuple_groups = "(group_key, relationship_tuple list) hash_map"

text \<open>Phase one: read every group within the depth limit once. A group is marked when queued.\<close>

fun enqueue_new :: "group_key set \<Rightarrow> group_key list \<Rightarrow> group_key set \<times> group_key list" where
  "enqueue_new seen [] = (seen, [])"
| "enqueue_new seen (c # cs) =
     (if c \<in> seen then enqueue_new seen cs
      else (let (seen', new) = enqueue_new (insert c seen) cs in (seen', c # new)))"

lemma enqueue_new_sum:
  fixes f :: "group_key \<Rightarrow> nat"
  shows "sum_list (map f (snd (enqueue_new seen cs))) \<le> sum_list (map f cs)"
  by (induction seen cs rule: enqueue_new.induct) (auto simp: Let_def split: prod.splits)

function (sequential) discover ::
    "tuple_reader \<Rightarrow> group_key set \<Rightarrow> (group_key \<times> nat) list \<Rightarrow> tuple_groups \<Rightarrow> tuple_groups result" where
  "discover reader seen [] groups = Inr groups"
| "discover reader seen ((key, depth) # queue) groups =
     and_then (read_group reader key) (\<lambda>tuples.
       let (seen', new) =
         (if depth < max_depth then enqueue_new seen (map subject_key (filter is_userset tuples))
          else (seen, []))
       in discover reader seen' (queue @ map (\<lambda>c. (c, depth + 1)) new) (hm_insert key tuples groups))"
  by pat_completeness auto
termination
proof (relation "measure (\<lambda>(reader, seen, queue, groups). queue_size reader max_depth queue)", goal_cases)
  case (2 reader seen key depth queue groups tuples x seen' new)
  show ?case
  proof (cases "depth < max_depth")
    case True
    with 2(2,3) have "enqueue_new seen (map subject_key (filter is_userset tuples)) = (seen', new)"
      by simp
    then have "queue_size reader max_depth (map (\<lambda>c. (c, depth + 1)) new)
        \<le> queue_size reader max_depth (map (\<lambda>t. (subject_key t, Suc depth)) (filter is_userset tuples))"
      using enqueue_new_sum [of "tree_size reader (max_depth - Suc depth)" seen
          "map subject_key (filter is_userset tuples)"]
      by (simp add: queue_size_def comp_def)
    with queue_size_children [OF 2(1) True] show ?thesis by simp
  next
    case False
    with 2 show ?thesis by (simp add: tree_size_pos)
  qed
qed simp

text \<open>
  Phase two: the tree. A userset edge is opened when its group was read, is not empty and is not
  among the ancestors, up to the depth limit; any other edge is a leaf.
\<close>

definition leaf_of :: "relationship_tuple \<Rightarrow> expand_node" where
  "leaf_of t = Leaf (rt_subject_namespace t) (rt_subject_id t)
     (if is_userset t then Some (rt_subject_relation t) else None)"

definition opens :: "tuple_groups \<Rightarrow> group_key list \<Rightarrow> relationship_tuple \<Rightarrow> bool" where
  "opens groups ancestry t \<longleftrightarrow>
     is_userset t \<and> length ancestry \<le> max_depth
     \<and> (case hm_get groups (subject_key t) of None \<Rightarrow> False | Some tuples \<Rightarrow> tuples \<noteq> [])
     \<and> subject_key t \<notin> set ancestry"

definition branch :: "group_key \<Rightarrow> expand_node list \<Rightarrow> expand_node" where
  "branch key children = (case key of (ns, obj, rel) \<Rightarrow> Branch ns obj rel children)"

function expand_children :: "tuple_groups \<Rightarrow> group_key list \<Rightarrow> group_key \<Rightarrow> expand_node list" where
  "expand_children groups ancestry key =
     (case hm_get groups key of
        None \<Rightarrow> []
      | Some tuples \<Rightarrow>
          map (\<lambda>t. if opens groups ancestry t
                   then branch (subject_key t)
                          (expand_children groups (ancestry @ [subject_key t]) (subject_key t))
                   else leaf_of t) tuples)"
  by pat_completeness auto
termination
  by (relation "measure (\<lambda>(groups, ancestry, key). Suc max_depth - length ancestry)")
    (auto simp: opens_def)

declare expand_children.simps [simp del]

text \<open>The serialised response is counted against a byte budget as the chunks are written.\<close>

definition byte_budget_write :: "nat \<Rightarrow> string \<Rightarrow> nat option" where
  "byte_budget_write budget bytes = (if length bytes \<le> budget then Some (budget - length bytes) else None)"

fun to_writer :: "nat \<Rightarrow> string list \<Rightarrow> nat option" where
  "to_writer budget [] = Some budget"
| "to_writer budget (chunk # chunks) =
     (case byte_budget_write budget chunk of None \<Rightarrow> None | Some rest \<Rightarrow> to_writer rest chunks)"

text \<open>\<open>json_chunks\<close> is what the serialiser writes for the response around a tree.\<close>

definition expand ::
    "(expand_node \<Rightarrow> string list) \<Rightarrow> tuple_reader \<Rightarrow> string \<Rightarrow> string \<Rightarrow> string \<Rightarrow> nat \<Rightarrow> expand_error + expand_node" where
  "expand json_chunks reader ns obj rel max_response_bytes =
     (let start = (ns, obj, rel)
      in case discover reader {start} [(start, 0)] [] of
           Inl e \<Rightarrow> Inl (Repository e)
         | Inr groups \<Rightarrow>
             (let tree = branch start (expand_children groups [start] start)
              in case to_writer max_response_bytes (json_chunks tree) of
                   None \<Rightarrow> Inl (ResponseTooLarge max_response_bytes)
                 | Some _ \<Rightarrow> Inr tree))"

subsection \<open>The groups that phase one reads\<close>

lemma enqueue_new_sets:
  "enqueue_new seen cs = (seen', new) \<Longrightarrow> seen' = seen \<union> set cs \<and> set new = set cs - seen"
  by (induction seen cs arbitrary: seen' new rule: enqueue_new.induct)
    (auto simp: Let_def split: prod.splits if_splits)

definition groups_read :: "tuple_reader \<Rightarrow> tuple_groups \<Rightarrow> bool" where
  "groups_read reader groups \<longleftrightarrow> (\<forall>k ts. map_of groups k = Some ts \<longrightarrow> read_group reader k = Inr ts)"

definition discovered ::
    "tuple_reader \<Rightarrow> (group_key \<Rightarrow> nat) \<Rightarrow> group_key set \<Rightarrow> (group_key \<times> nat) list \<Rightarrow> tuple_groups \<Rightarrow> bool" where
  "discovered reader dst seen queue groups \<longleftrightarrow>
     sorted (map snd queue)
     \<and> (\<forall>a\<in>snd ` set queue. \<forall>b\<in>snd ` set queue. b \<le> Suc a)
     \<and> (\<forall>x\<in>set queue. dst (fst x) = snd x)
     \<and> seen = dom (map_of groups) \<union> fst ` set queue
     \<and> (\<forall>v\<in>dom (map_of groups). (\<forall>a\<in>snd ` set queue. dst v \<le> a)
          \<and> (dst v < max_depth \<longrightarrow> (\<forall>c. edge reader v c \<longrightarrow> c \<in> seen \<and> dst c \<le> Suc (dst v))))"

lemma discovered_step:
  assumes inv: "discovered reader dst seen ((key, depth) # queue) groups"
    and ts: "read_group reader key = Inr ts"
    and new: "(if depth < max_depth then enqueue_new seen (map subject_key (filter is_userset ts))
       else (seen, [])) = (seen', new)"
  defines "dst' \<equiv> \<lambda>c. if c \<in> set new then Suc depth else dst c"
  shows "discovered reader dst' seen' (queue @ map (\<lambda>c. (c, depth + 1)) new) (hm_insert key ts groups)"
    "\<forall>c\<in>seen. dst' c = dst c" "seen \<subseteq> seen'"
proof -
  let ?queue = "queue @ map (\<lambda>c. (c, depth + 1)) new"
  have fresh: "set new \<inter> seen = {}" and seen': "seen' = seen \<union> set new"
    and children: "depth < max_depth \<Longrightarrow> edge reader key c \<Longrightarrow> c \<in> seen'" for c
    using new enqueue_new_sets [of seen "map subject_key (filter is_userset ts)" seen' new]
    by (auto simp: edge_read [OF ts] split: if_splits)
  show old: "\<forall>c\<in>seen. dst' c = dst c" and "seen \<subseteq> seen'"
    using fresh seen' by (auto simp: dst'_def)
  have q: "depth \<le> snd x" "snd x \<le> Suc depth" "dst (fst x) = snd x" "fst x \<in> seen"
    if "x \<in> set queue" for x
    using inv that by (auto simp: discovered_def)
  have key: "dst key = depth" "key \<in> seen" using inv by (auto simp: discovered_def)
  have dom: "seen = insert key (dom (map_of groups) \<union> fst ` set queue)"
    using inv by (auto simp: discovered_def)
  have v: "dst v \<le> depth" "v \<in> seen"
      "\<lbrakk>dst v < max_depth; edge reader v c\<rbrakk> \<Longrightarrow> c \<in> seen \<and> dst c \<le> Suc (dst v)"
    if "v \<in> dom (map_of groups)" for v c
    using inv that unfolding discovered_def by auto
  have seen_near: "dst c \<le> Suc depth" if "c \<in> seen" for c
    using that dom v(1) [of c] q(2,3) key by fastforce
  have range: "depth \<le> snd x" "snd x \<le> Suc depth" "dst' (fst x) = snd x"
    if "x \<in> set ?queue" for x
  proof -
    from that consider "x \<in> set queue" | c where "c \<in> set new" "x = (c, Suc depth)" by auto
    then show "depth \<le> snd x" "snd x \<le> Suc depth" "dst' (fst x) = snd x"
      using q [of x] old by (cases; auto simp: dst'_def)+
  qed
  have dom': "dom (map_of (hm_insert key ts groups)) = insert key (dom (map_of groups))"
    by (simp add: update_conv' dom_fun_upd)
  show "discovered reader dst' seen' ?queue (hm_insert key ts groups)"
    unfolding discovered_def dom'
  proof (intro conjI ballI impI allI)
    show "sorted (map snd ?queue)"
      using inv q by (auto simp: discovered_def sorted_append comp_def map_replicate_const)
    show "b \<le> Suc a" if "a \<in> snd ` set ?queue" "b \<in> snd ` set ?queue" for a b
    proof -
      from that obtain x y where "x \<in> set ?queue" "a = snd x" "y \<in> set ?queue" "b = snd y" by blast
      with range [of x] range [of y] show ?thesis by simp
    qed
    show "dst' (fst x) = snd x" if "x \<in> set ?queue" for x using range(3) that .
    show "seen' = insert key (dom (map_of groups)) \<union> fst ` set ?queue"
    proof -
      have "fst ` set ?queue = fst ` set queue \<union> set new" by (simp add: image_Un image_image)
      then show ?thesis unfolding seen' dom by blast
    qed
    fix w assume w: "w \<in> insert key (dom (map_of groups))"
    have w': "dst' w = dst w" "dst w \<le> depth" "w \<in> seen"
      using w old key v(1,2) [of w] by auto
    show "dst' w \<le> a" if "a \<in> snd ` set ?queue" for a
    proof -
      from that obtain x where "x \<in> set ?queue" "a = snd x" by blast
      with range(1) [of x] w' show ?thesis by simp
    qed
    assume less: "dst' w < max_depth"
    fix c assume c: "edge reader w c"
    have "c \<in> seen' \<and> dst' c \<le> Suc (dst' w)"
    proof (cases "w = key")
      case True
      with w' key less c have "c \<in> seen'" by (intro children) simp_all
      moreover from this have "dst' c \<le> Suc depth"
        using seen_near [of c] seen' by (auto simp: dst'_def)
      ultimately show ?thesis using True w' key by simp
    next
      case False
      with w have "w \<in> dom (map_of groups)" by blast
      from v(3) [OF this _ c] w' less have "c \<in> seen" "dst c \<le> Suc (dst w)" by simp_all
      with old w' seen' show ?thesis by auto
    qed
    then show "c \<in> seen'" "dst' c \<le> Suc (dst' w)" by blast+
  qed
qed


lemma discover_complete:
  assumes "discover reader seen queue groups = Inr result" "discovered reader dst seen queue groups"
  shows "\<exists>dst'. discovered reader dst' (dom (map_of result)) [] result
    \<and> (\<forall>c\<in>seen. dst' c = dst c) \<and> seen \<subseteq> dom (map_of result)"
  using assms
proof (induction reader seen queue groups arbitrary: dst rule: discover.induct)
  case (1 reader seen groups)
  then have "groups = result" "seen = dom (map_of result)" by (auto simp: discovered_def)
  with 1 show ?case by blast
next
  case (2 reader seen key depth queue groups)
  from 2(2) obtain ts where ts: "read_group reader key = Inr ts" by auto
  obtain seen' new where new: "(if depth < max_depth
      then enqueue_new seen (map subject_key (filter is_userset ts)) else (seen, [])) = (seen', new)"
    by (metis prod.exhaust)
  note step = discovered_step [OF 2(3) ts new]
  have "discover reader seen' (queue @ map (\<lambda>c. (c, depth + 1)) new) (hm_insert key ts groups) = Inr result"
    using 2(2) ts new by simp
  from 2(1) [OF ts new [symmetric] refl this step(1)] step(2,3) show ?case by fastforce
qed

lemma discover_read:
  assumes "discover reader seen queue groups = Inr result" "groups_read reader groups"
  shows "groups_read reader result"
  using assms
proof (induction reader seen queue groups rule: discover.induct)
  case (2 reader seen key depth queue groups)
  from 2(2) obtain ts where ts: "read_group reader key = Inr ts" by auto
  obtain seen' new where new: "(if depth < max_depth
      then enqueue_new seen (map subject_key (filter is_userset ts)) else (seen, [])) = (seen', new)"
    by (metis prod.exhaust)
  have "groups_read reader (hm_insert key ts groups)"
    using 2(3) ts by (auto simp: groups_read_def update_conv')
  with 2(1) [OF ts new [symmetric] refl] 2(2) ts new show ?case by simp
qed simp

lemma discover_ok:
  assumes "\<And>k. is_ok (read_group reader k)"
  shows "is_ok (discover reader seen queue groups)"
  using assms
proof (induction reader seen queue groups rule: discover.induct)
  case (2 reader seen key depth queue groups)
  obtain ts where ts: "read_group reader key = Inr ts"
    using 2(2) [of key] by (cases "read_group reader key") auto
  obtain seen' new where new: "(if depth < max_depth
      then enqueue_new seen (map subject_key (filter is_userset ts)) else (seen, [])) = (seen', new)"
    by (metis prod.exhaust)
  from 2(1) [OF ts new [symmetric] refl 2(2)] ts new show ?case by simp
qed simp

lemma discover_reach:
  assumes "discover reader {start} [(start, 0)] [] = Inr groups" "(edge reader ^^ n) start c"
    "n \<le> max_depth"
  shows "c \<in> dom (map_of groups)"
proof -
  have "discovered reader (\<lambda>_. 0) {start} [(start, 0)] []"
    by (simp add: discovered_def)
  from discover_complete [OF assms(1) this] obtain dst
    where inv: "discovered reader dst (dom (map_of groups)) [] groups"
      and start: "dst start = 0" "start \<in> dom (map_of groups)" by blast
  have "c \<in> dom (map_of groups) \<and> dst c \<le> n"
    using assms(2,3)
  proof (induction n arbitrary: c)
    case 0
    then show ?case using start by simp
  next
    case (Suc n)
    then obtain b where b: "(edge reader ^^ n) start b" "edge reader b c" by auto
    with Suc have "b \<in> dom (map_of groups)" "dst b \<le> n" by simp_all
    with inv b(2) Suc.prems(2) have "c \<in> dom (map_of groups)" "dst c \<le> Suc (dst b)"
      unfolding discovered_def by auto
    with \<open>dst b \<le> n\<close> show ?case by simp
  qed
  then show ?thesis by simp
qed

subsection \<open>The leaves of the tree\<close>

fun leaves :: "expand_node \<Rightarrow> (string \<times> string \<times> string option) list" where
  "leaves (Leaf ns sid rel) = [(ns, sid, rel)]"
| "leaves (Branch ns obj rel children) = concat (map leaves children)"

lemma leaves_branch [simp]: "leaves (branch key children) = concat (map leaves children)"
  by (cases key) (simp add: branch_def)

lemma leaf_of_direct [simp]:
  "(sns, sid, None) \<in> set (leaves (leaf_of t)) \<longleftrightarrow> names_subject sns sid t"
  by (auto simp: leaf_of_def names_subject_def is_userset_def)

lemma in_expand_children:
  "node \<in> set (expand_children groups ancestry key) \<longleftrightarrow>
   (\<exists>ts t. map_of groups key = Some ts \<and> t \<in> set ts
      \<and> node = (if opens groups ancestry t then branch (subject_key t)
          (expand_children groups (ancestry @ [subject_key t]) (subject_key t)) else leaf_of t))"
proof (cases "map_of groups key")
  case None
  then show ?thesis by (simp add: expand_children.simps [of groups ancestry key])
next
  case (Some ts)
  then show ?thesis
    unfolding expand_children.simps [of groups ancestry key] Some option.case set_map image_iff by blast
qed

lemma expand_children_sound:
  assumes "groups_read reader groups" "node \<in> set (expand_children groups ancestry key)"
    "(sns, sid, None) \<in> set (leaves node)"
  shows "related_in (Suc max_depth - length ancestry) reader sns sid key"
  using assms
proof (induction groups ancestry key arbitrary: node rule: expand_children.induct)
  case (1 groups ancestry key)
  from "1.prems"(2) obtain ts t where ts: "map_of groups key = Some ts" "t \<in> set ts"
      "node = (if opens groups ancestry t then branch (subject_key t)
         (expand_children groups (ancestry @ [subject_key t]) (subject_key t)) else leaf_of t)"
    unfolding in_expand_children by blast
  have read: "read_group reader key = Inr ts"
    using "1.prems"(1) ts(1) by (simp add: groups_read_def)
  show ?case
  proof (cases "opens groups ancestry t")
    case True
    with ts(3) "1.prems"(3) obtain child where
        "child \<in> set (expand_children groups (ancestry @ [subject_key t]) (subject_key t))"
        "(sns, sid, None) \<in> set (leaves child)"
      by auto
    from "1.IH" [OF ts(1,2) True "1.prems"(1) this]
    obtain n b where n: "n \<le> Suc max_depth - Suc (length ancestry)" "(edge reader ^^ n) (subject_key t) b"
        "direct reader sns sid b"
      by (auto simp: related_in_def)
    have "edge reader key (subject_key t)"
      using True ts(2) by (auto simp: edge_read [OF read] opens_def)
    then have "(edge reader ^^ Suc n) key b" using n(2) by (rule relpowp_Suc_I2)
    moreover have "Suc n \<le> Suc max_depth - length ancestry"
      using n(1) True by (auto simp: opens_def)
    ultimately show ?thesis using n(3) unfolding related_in_def by blast
  next
    case False
    with ts(2,3) "1.prems"(3) read have "direct reader sns sid key"
      by (auto simp: direct_def list_ex_iff)
    then show ?thesis
      unfolding related_in_def by (intro exI [of _ 0]) auto
  qed
qed

text \<open>A path without repetition is opened edge by edge.\<close>

lemma expand_children_complete:
  assumes "groups_read reader groups" "successively (edge reader) (key # path)"
    "distinct (ancestry @ path)" "length ancestry + length path \<le> Suc max_depth"
    "set (key # path) \<subseteq> dom (map_of groups)" "direct reader sns sid (last (key # path))"
  shows "\<exists>node\<in>set (expand_children groups ancestry key). (sns, sid, None) \<in> set (leaves node)"
  using assms(2-)
proof (induction path arbitrary: key ancestry)
  case Nil
  then obtain ts where ts: "map_of groups key = Some ts" by auto
  with assms(1) have "read_group reader key = Inr ts" by (simp add: groups_read_def)
  with Nil.prems obtain t where "t \<in> set ts" "names_subject sns sid t"
    by (auto simp: direct_def list_ex_iff)
  moreover from this have "\<not> opens groups ancestry t"
    by (simp add: opens_def is_userset_def names_subject_def)
  ultimately have "leaf_of t \<in> set (expand_children groups ancestry key)"
    unfolding in_expand_children using ts by auto
  with \<open>names_subject sns sid t\<close> show ?case by (intro bexI [of _ "leaf_of t"]) simp_all
next
  case (Cons c path)
  from Cons.prems obtain ts where ts: "map_of groups key = Some ts" by auto
  with assms(1) have "read_group reader key = Inr ts" by (simp add: groups_read_def)
  with Cons.prems(1) obtain t where t: "t \<in> set ts" "is_userset t" "subject_key t = c"
    by (auto simp: edge_read)
  from Cons.prems(4) obtain ts' where ts': "map_of groups c = Some ts'" by auto
  with assms(1) have read': "read_group reader c = Inr ts'" by (simp add: groups_read_def)
  have "ts' \<noteq> []"
  proof (cases path)
    case Nil
    with Cons.prems(5) read' show ?thesis by (auto simp: direct_def)
  next
    case (Cons c' path')
    with Cons.prems(1) read' show ?thesis by (auto simp: edge_read)
  qed
  with t ts' Cons.prems(2,3) have opened: "opens groups ancestry t"
    by (auto simp: opens_def)
  have "\<exists>node\<in>set (expand_children groups (ancestry @ [c]) c). (sns, sid, None) \<in> set (leaves node)"
    using Cons.prems by (intro Cons.IH) auto
  then have "(sns, sid, None) \<in> set (leaves (branch c (expand_children groups (ancestry @ [c]) c)))"
    by auto
  moreover have "branch c (expand_children groups (ancestry @ [c]) c) \<in> set (expand_children groups ancestry key)"
    unfolding in_expand_children using opened ts t by auto
  ultimately show ?case by blast
qed

lemma relpowp_walk:
  "(E ^^ n) a b \<Longrightarrow> \<exists>p. successively E (a # p) \<and> last (a # p) = b \<and> length p = n"
proof (induction n arbitrary: a)
  case 0
  then show ?case by (intro exI [of _ "[]"]) simp
next
  case (Suc n)
  then obtain c where c: "E a c" "(E ^^ n) c b" by (meson relpowp_Suc_E2)
  with Suc.IH obtain p where "successively E (c # p)" "last (c # p) = b" "length p = n" by blast
  with c(1) show ?case by (intro exI [of _ "c # p"]) simp
qed

lemma walk_relpowp:
  "successively E (a # p) \<Longrightarrow> c \<in> set (a # p) \<Longrightarrow> \<exists>n\<le>length p. (E ^^ n) a c"
proof (induction p arbitrary: a)
  case (Cons d p)
  then consider "c = a" | "c \<in> set (d # p)" by auto
  then show ?case
  proof cases
    case 2
    with Cons obtain n where "n \<le> length p" "(E ^^ n) d c" by auto
    moreover from Cons.prems(1) have "E a d" by simp
    ultimately show ?thesis by (intro exI [of _ "Suc n"] conjI relpowp_Suc_I2 [of E a d]) simp_all
  qed (intro exI [of _ 0]; simp)
qed (intro exI [of _ 0]; simp)

lemma distinct_walk:
  "successively E (a # p) \<Longrightarrow>
   \<exists>q. successively E (a # q) \<and> last (a # q) = last (a # p) \<and> distinct (a # q) \<and> length q \<le> length p"
proof (induction p arbitrary: a)
  case (Cons d p)
  then obtain q where q: "successively E (d # q)" "last (d # q) = last (d # p)" "distinct (d # q)"
      "length q \<le> length p" by auto
  show ?case
  proof (cases "a \<in> set (d # q)")
    case True
    then obtain us vs where split: "d # q = us @ a # vs" by (meson split_list)
    then have "successively E (a # vs)" "last (a # vs) = last (d # q)" "distinct (a # vs)"
      using q(1,3) by (auto simp: successively_append_iff simp del: distinct.simps)
    moreover have "length vs \<le> length q" using arg_cong [OF split, of length] by simp
    ultimately show ?thesis using q(2,4) by (intro exI [of _ vs]) auto
  next
    case False
    with Cons.prems q show ?thesis by (intro exI [of _ "d # q"]) auto
  qed
qed (intro exI [of _ "[]"]; simp)


lemma related_simple_path:
  assumes "related_in limit reader sns sid a"
  obtains path where "successively (edge reader) (a # path)" "distinct (a # path)"
    "length path \<le> limit" "direct reader sns sid (last (a # path))"
proof -
  from assms obtain n b where n: "n \<le> limit" "(edge reader ^^ n) a b" "direct reader sns sid b"
    by (auto simp: related_in_def)
  from relpowp_walk [OF n(2)] obtain p
    where p: "successively (edge reader) (a # p)" "last (a # p) = b" "length p = n" by blast
  from distinct_walk [OF p(1)] obtain q where "successively (edge reader) (a # q)"
      "last (a # q) = last (a # p)" "distinct (a # q)" "length q \<le> length p" by blast
  with p n show thesis by (intro that [of q]) simp_all
qed

lemma expand_tree_leaves:
  assumes "discover reader {start} [(start, 0)] [] = Inr groups"
  shows "(sns, sid, None) \<in> set (leaves (branch start (expand_children groups [start] start)))
    \<longleftrightarrow> related_in max_depth reader sns sid start"
proof
  have read: "groups_read reader groups"
    by (rule discover_read [OF assms]) (simp add: groups_read_def)
  show "related_in max_depth reader sns sid start"
    if "(sns, sid, None) \<in> set (leaves (branch start (expand_children groups [start] start)))"
  proof -
    from that obtain node where "node \<in> set (expand_children groups [start] start)"
        "(sns, sid, None) \<in> set (leaves node)" by auto
    from expand_children_sound [OF read this] show ?thesis by simp
  qed
  assume "related_in max_depth reader sns sid start"
  then obtain path where p: "successively (edge reader) (start # path)" "distinct (start # path)"
      "length path \<le> max_depth" "direct reader sns sid (last (start # path))"
    by (rule related_simple_path)
  have "set (start # path) \<subseteq> dom (map_of groups)"
  proof
    fix c assume "c \<in> set (start # path)"
    from walk_relpowp [OF p(1) this] obtain n where "n \<le> length path" "(edge reader ^^ n) start c"
      by blast
    with discover_reach [OF assms] p(3) show "c \<in> dom (map_of groups)" by fastforce
  qed
  from expand_children_complete [OF read p(1) _ _ this p(4), of "[start]"] p(2,3)
  show "(sns, sid, None) \<in> set (leaves (branch start (expand_children groups [start] start)))"
    by auto
qed

lemma to_writer_total:
  "to_writer budget chunks =
     (if sum_list (map length chunks) \<le> budget then Some (budget - sum_list (map length chunks)) else None)"
  by (induction budget chunks rule: to_writer.induct)
    (auto simp: byte_budget_write_def split: option.splits)

text \<open>
  C22. Expanding a relation and checking it agree: over tuples that can be read, the direct subjects
  among the leaves of the expanded tree are exactly the subjects the check accepts, although the
  tree cuts cycles and stops at the depth limit.
\<close>

theorem expand_agrees_with_check:
  assumes "\<And>k. is_ok (read_group reader k)"
    and "expand json_chunks reader ns obj rel limit = Inr tree"
  shows "check reader ns obj rel sns sid = Inr ((sns, sid, None) \<in> set (leaves tree))"
proof -
  from assms(2) obtain groups where
      "discover reader {(ns, obj, rel)} [((ns, obj, rel), 0)] [] = Inr groups"
      "tree = branch (ns, obj, rel) (expand_children groups [(ns, obj, rel)] (ns, obj, rel))"
    by (auto simp: expand_def Let_def split: sum.splits option.splits)
  with expand_tree_leaves [of reader "(ns, obj, rel)" groups sns sid] show ?thesis
    unfolding check_is_related [OF assms(1)] related_def by simp
qed

definition example_chunks :: "expand_node \<Rightarrow> string list" where
  "example_chunks tree = map (\<lambda>(ns, sid, rel). ns @ sid) (leaves tree)"

lemma example_expand:
  "expand example_chunks example_reader ''doc'' ''d1'' ''viewer'' 100 = Inr
     (Branch ''doc'' ''d1'' ''viewer'' [Branch ''grp'' ''a'' ''member'' [Branch ''grp'' ''b'' ''member''
       [Leaf ''grp'' ''a'' (Some ''member''), Leaf ''user'' ''alice'' None]]])"
  by (simp add: expand_def example_simps expand_children.simps opens_def branch_def leaf_of_def
      example_chunks_def byte_budget_write_def)

theorem expand_agrees_with_check_witness:
  "(\<forall>k. is_ok (read_group example_reader k))
   \<and> check example_reader ''doc'' ''d1'' ''viewer'' ''user'' ''alice'' =
       Inr ((''user'', ''alice'', None) \<in> set (leaves
         (Branch ''doc'' ''d1'' ''viewer'' [Branch ''grp'' ''a'' ''member'' [Branch ''grp'' ''b'' ''member''
           [Leaf ''grp'' ''a'' (Some ''member''), Leaf ''user'' ''alice'' None]]])))"
  using expand_agrees_with_check [OF example_reader_ok example_expand, of "''user''" "''alice''"]
    example_reader_ok by blast



end
