(* ===== verification/Qid_File_Store.thy ===== *)
theory Qid_File_Store
  imports Qid_Models_Auth Qid_Models_Lifecycle Qid_Rebac
begin

text \<open>
  The file-backed repository: \<^verbatim>\<open>qid-storage/src/file/mod.rs\<close> (the store, the flush modes, saving and
  flushing, re-keying on load), \<^verbatim>\<open>qid-storage/src/file/insert.rs\<close> (create-only inserts),
  \<^verbatim>\<open>qid-storage/src/ownership.rs\<close> and the transition rules of \<^verbatim>\<open>qid-storage/src/domain/mod.rs\<close>.

  Every operation takes \<open>io\<close>, the outcome of the disk write it may attempt (\<open>None\<close> when the write
  succeeds), and returns its result with the repository after it. The store lock makes the change of
  the memory image atomic, so an operation is one step of the repository.
\<close>

section \<open>The store\<close>

record store =
  st_oidc_continuations :: "(string, stored_continuation) hash_map"
  st_push :: push_store
  st_realm_issuers :: "(string, string) hash_map"
  st_realm_tenants :: "(string, string) hash_map"
  st_users :: "(string, user) hash_map"
  st_credentials_password :: "(string, password_credential) hash_map"
  st_clients :: "(string, client) hash_map"
  st_sessions :: "(string, session) hash_map"
  st_authorization_codes :: "(string, authorization_code) hash_map"
  st_token_families :: "(string, token_family) hash_map"
  st_access_tokens :: "(string, access_token) hash_map"
  st_webauthn_credentials :: "(string, webauthn_credential list) hash_map"
  st_service_accounts :: "(string, service_account) hash_map"
  st_policy_bundles :: "(string, stored_policy_bundle) hash_map"
  st_totp_credentials :: "(string, totp_credential) hash_map"
  st_vc_credential_statuses :: "(string, vc_credential_status_record) hash_map"
  st_devices :: "(string, device) hash_map"
  st_par_requests :: "(string, par_request) hash_map"
  st_device_authorization_grants :: "(string, device_authorization_grant) hash_map"
  st_backchannel_authentication_grants :: "(string, backchannel_authentication_grant) hash_map"
  st_scim_users :: "(string, scim_user) hash_map"
  st_hr_receipts :: "(string, (string, hr_receipt) hash_map) hash_map"
  st_scim_groups :: "(string, scim_group) hash_map"
  st_scim_devices :: "(string, scim_device_record) hash_map"
  st_scim_event_subscriptions :: "(string, scim_event_subscription) hash_map"
  st_fedcm_identities :: "(string, fedcm_identity) hash_map"
  st_ciam_consent_grants :: "(string, ciam_consent_grant) hash_map"
  st_ciam_verification_challenges :: "(string, ciam_verification_challenge_record) hash_map"
  st_ciam_identity_links :: "(string, ciam_identity_link) hash_map"
  st_password_reset_tokens :: "(string, password_reset_token) hash_map"
  st_ciam_profiles :: "(string, ciam_progressive_profile) hash_map"
  st_workload_identities :: "(string, workload_identity) hash_map"
  st_workload_certificates :: "(string, workload_certificate) hash_map"
  st_custom_domains :: "(string, custom_domain) hash_map"
  st_ciam_brands :: "(string, ciam_brand) hash_map"
  st_app_catalog_entries :: "(string, app_catalog_entry) hash_map"
  st_marketplace_connectors :: "(string, marketplace_connector) hash_map"
  st_usage_billing_events :: "(string, usage_billing_event) hash_map"
  st_compliance_evidence_packs :: "(string, compliance_evidence_pack) hash_map"
  st_delegated_tenant_admins :: "(string, delegated_tenant_admin) hash_map"
  st_iga_entitlements :: "(string, iga_entitlement_record) hash_map"
  st_iga_access_packages :: "(string, iga_access_package_record) hash_map"
  st_iga_access_requests :: "(string, iga_access_request_record) hash_map"
  st_iga_approvals :: "(string, iga_approval_record) hash_map"
  st_iga_access_grants :: "(string, iga_access_grant_record) hash_map"
  st_iga_jit_privilege_grants :: "(string, iga_jit_privilege_grant_record) hash_map"
  st_iga_access_review_campaigns :: "(string, iga_access_review_campaign_record) hash_map"
  st_iga_access_review_decisions :: "(string, iga_access_review_decision_record) hash_map"
  st_iga_certifications :: "(string, iga_certification_record) hash_map"
  st_iga_findings :: "(string, iga_finding_record) hash_map"
  st_admins :: "(string, admin) hash_map"
  st_admin_elevations :: "(string, admin_elevation) hash_map"
  st_admin_approvals :: "(string, admin_approval) hash_map"
  st_ssf_streams :: "(string, ssf_stream_record) hash_map"
  st_ssf_set_replay :: "(string, u64) hash_map"
  st_siem_deliveries :: "(string, siem_delivery_record) hash_map"
  st_relationship_tuples :: "relationship_tuple list"
  st_audit_events :: "audit_event list"
  st_audit_retention_configs :: "(string, audit_retention_config) hash_map"

definition empty_store :: store where
  "empty_store =
     \<lparr>st_oidc_continuations = [],
      st_push = \<lparr>ps_authenticators = [], ps_logins = [], ps_registration_issued_at = [], ps_login_issued_at = []\<rparr>,
      st_realm_issuers = [], st_realm_tenants = [], st_users = [], st_credentials_password = [],
      st_clients = [], st_sessions = [], st_authorization_codes = [], st_token_families = [],
      st_access_tokens = [], st_webauthn_credentials = [], st_service_accounts = [],
      st_policy_bundles = [], st_totp_credentials = [], st_vc_credential_statuses = [],
      st_devices = [], st_par_requests = [], st_device_authorization_grants = [],
      st_backchannel_authentication_grants = [], st_scim_users = [], st_hr_receipts = [],
      st_scim_groups = [], st_scim_devices = [], st_scim_event_subscriptions = [],
      st_fedcm_identities = [], st_ciam_consent_grants = [], st_ciam_verification_challenges = [],
      st_ciam_identity_links = [], st_password_reset_tokens = [], st_ciam_profiles = [],
      st_workload_identities = [], st_workload_certificates = [], st_custom_domains = [],
      st_ciam_brands = [], st_app_catalog_entries = [], st_marketplace_connectors = [],
      st_usage_billing_events = [], st_compliance_evidence_packs = [],
      st_delegated_tenant_admins = [], st_iga_entitlements = [], st_iga_access_packages = [],
      st_iga_access_requests = [], st_iga_approvals = [], st_iga_access_grants = [],
      st_iga_jit_privilege_grants = [], st_iga_access_review_campaigns = [],
      st_iga_access_review_decisions = [], st_iga_certifications = [], st_iga_findings = [],
      st_admins = [], st_admin_elevations = [], st_admin_approvals = [], st_ssf_streams = [],
      st_ssf_set_replay = [], st_siem_deliveries = [], st_relationship_tuples = [],
      st_audit_events = [], st_audit_retention_configs = []\<rparr>"

section \<open>The repository\<close>

datatype file_flush_mode = Immediate | Interval nat

text \<open>
  The memory image, the content of the store file, the dirty flag and the flush mode. A failed
  write leaves the file as it was: the new content goes to a temporary file that replaces the store
  file by a rename.
\<close>

record file_repository =
  repo_store :: store
  repo_disk :: "store option"
  repo_dirty :: bool
  repo_flush_mode :: file_flush_mode

type_synonym io = "qid_error option"

definition write_store_content :: "io \<Rightarrow> store \<Rightarrow> file_repository \<Rightarrow> unit result \<times> file_repository" where
  "write_store_content io content r =
     (case io of Some e \<Rightarrow> (Inl e, r) | None \<Rightarrow> (Inr (), r\<lparr>repo_disk := Some content\<rparr>))"

definition flush_store :: "io \<Rightarrow> file_repository \<Rightarrow> unit result \<times> file_repository" where
  "flush_store io r = write_store_content io (repo_store r) r"

definition save :: "io \<Rightarrow> file_repository \<Rightarrow> unit result \<times> file_repository" where
  "save io r =
     (case repo_flush_mode r of
        Immediate \<Rightarrow> flush_store io r
      | Interval _ \<Rightarrow> (Inr (), r\<lparr>repo_dirty := True\<rparr>))"

definition flush :: "io \<Rightarrow> file_repository \<Rightarrow> unit result \<times> file_repository" where
  "flush io r =
     (if \<not> repo_dirty r then (Inr (), r)
      else (case flush_store io (r\<lparr>repo_dirty := False\<rparr>) of
              (Inl e, r') \<Rightarrow> (Inl e, r'\<lparr>repo_dirty := True\<rparr>)
            | (Inr u, r') \<Rightarrow> (Inr u, r')))"

definition migrate :: "io \<Rightarrow> file_repository \<Rightarrow> unit result \<times> file_repository" where
  "migrate io r = (if repo_disk r = None then flush_store io r else (Inr (), r))"

definition map_get :: "(store \<Rightarrow> 'a option) \<Rightarrow> file_repository \<Rightarrow> 'a option" where
  "map_get select r = select (repo_store r)"

text \<open>Replace the memory image, then save and return a value.\<close>

definition commit :: "io \<Rightarrow> store \<Rightarrow> 'a \<Rightarrow> file_repository \<Rightarrow> 'a result \<times> file_repository" where
  "commit io s a r =
     (case save io (r\<lparr>repo_store := s\<rparr>) of (Inl e, r') \<Rightarrow> (Inl e, r') | (Inr _, r') \<Rightarrow> (Inr a, r'))"

definition map_write :: "io \<Rightarrow> (store \<Rightarrow> store) \<Rightarrow> file_repository \<Rightarrow> unit result \<times> file_repository" where
  "map_write io f r = commit io (f (repo_store r)) () r"

text \<open>An operation that validates and changes the store, and saves when it succeeds.\<close>

definition try_write ::
    "io \<Rightarrow> (store \<Rightarrow> (store \<times> 'a) result) \<Rightarrow> file_repository \<Rightarrow> 'a result \<times> file_repository" where
  "try_write io f r =
     (case f (repo_store r) of Inl e \<Rightarrow> (Inl e, r) | Inr (s, a) \<Rightarrow> commit io s a r)"

text \<open>Persist a candidate first and install it in memory only when it is on disk.\<close>

definition persist_candidate :: "io \<Rightarrow> store \<Rightarrow> file_repository \<Rightarrow> unit result \<times> file_repository" where
  "persist_candidate io candidate r =
     (case write_store_content io candidate r of
        (Inl e, r') \<Rightarrow> (Inl e, r')
      | (Inr u, r') \<Rightarrow> (Inr u, r'\<lparr>repo_store := candidate\<rparr>))"

section \<open>Shared helpers\<close>

definition scoped_record_key :: "string \<Rightarrow> string \<Rightarrow> string" where
  "scoped_record_key scope i = decimal (length scope) @ '':'' @ scope @ i"

definition reject_duplicate_id :: "bool \<Rightarrow> string \<Rightarrow> unit result" where
  "reject_duplicate_id exists message = (if exists then Inl (Conflict message) else Inr ())"

definition unique_match :: "'a list \<Rightarrow> string \<Rightarrow> 'a option result" where
  "unique_match matches message =
     (case matches of
        [] \<Rightarrow> Inr None
      | first # rest \<Rightarrow> and_then (reject_duplicate_id (rest \<noteq> []) message) (\<lambda>_. Inr (Some first)))"

definition ensure_same_binding :: "'a option \<Rightarrow> 'a \<Rightarrow> string \<Rightarrow> unit result" where
  "ensure_same_binding incumbent incoming message =
     (case incumbent of
        Some binding \<Rightarrow> if binding \<noteq> incoming then Inl (Conflict message) else Inr ()
      | None \<Rightarrow> Inr ())"

definition unit_separator :: char where
  "unit_separator = byte 31"

definition ssf_stream_key :: "string \<Rightarrow> string \<Rightarrow> string" where
  "ssf_stream_key realm_id stream_id = realm_id @ [unit_separator] @ stream_id"

definition ssf_set_replay_key :: "string \<Rightarrow> string \<Rightarrow> string \<Rightarrow> string \<Rightarrow> string" where
  "ssf_set_replay_key realm_id issuer stream_id jti =
     realm_id @ [unit_separator] @ issuer @ [unit_separator] @ stream_id @ [unit_separator] @ jti"

text \<open>Rebuild a map from the keys its records demand; two records with one key are an error.\<close>

fun rekey_loop ::
    "('v \<Rightarrow> string) \<Rightarrow> string \<Rightarrow> (string \<times> 'v) list \<Rightarrow> (string, 'v) hash_map \<Rightarrow> bool
      \<Rightarrow> ((string, 'v) hash_map \<times> bool) result" where
  "rekey_loop key bindings [] rekeyed changed = Inr (rekeyed, changed)"
| "rekey_loop key bindings ((old_key, row) # rows) rekeyed changed =
     (let new_key = key row
      in if hm_contains rekeyed new_key
         then Inl (Internal (''file store contains duplicate '' @ bindings))
         else rekey_loop key bindings rows (hm_insert new_key row rekeyed) (changed \<or> old_key \<noteq> new_key))"

definition rekey_records ::
    "('v \<Rightarrow> string) \<Rightarrow> string \<Rightarrow> (string, 'v) hash_map \<Rightarrow> ((string, 'v) hash_map \<times> bool) result" where
  "rekey_records key bindings rows = rekey_loop key bindings rows [] False"

definition audit_retention_stream_id :: "string option \<Rightarrow> string" where
  "audit_retention_stream_id realm_id =
     (case realm_id of None \<Rightarrow> ''global'' | Some i \<Rightarrow> ''realm:'' @ i)"

text \<open>Opening a store that was read from \<open>content\<close>; \<open>None\<close> stands for a missing file.\<close>

definition rekey_store :: "store \<Rightarrow> (store \<times> bool) result" where
  "rekey_store s =
     and_then (rekey_records (\<lambda>p. scoped_record_key (cpp_realm_id p) (cpp_user_id p))
                 ''CIAM progressive profile owners'' (st_ciam_profiles s)) (\<lambda>(profiles, c1).
     and_then (rekey_records (\<lambda>c. audit_retention_stream_id (ret_realm_id c))
                 ''audit retention streams'' (st_audit_retention_configs s)) (\<lambda>(configs, c2).
     and_then (rekey_records (\<lambda>e. scoped_record_key (ent_tenant_id e) (ent_id e))
                 ''IGA entitlement owners'' (st_iga_entitlements s)) (\<lambda>(entitlements, c3).
     and_then (rekey_records (\<lambda>p. scoped_record_key (pkg_tenant_id p) (pkg_id p))
                 ''IGA access package owners'' (st_iga_access_packages s)) (\<lambda>(packages, c4).
       Inr (s\<lparr>st_ciam_profiles := profiles, st_audit_retention_configs := configs,
              st_iga_entitlements := entitlements, st_iga_access_packages := packages\<rparr>,
            c1 \<or> c2 \<or> c3 \<or> c4)))))"

definition open_repository :: "io \<Rightarrow> store option \<Rightarrow> file_flush_mode \<Rightarrow> file_repository result" where
  "open_repository io content mode =
     and_then (rekey_store (case content of None \<Rightarrow> empty_store | Some s \<Rightarrow> s)) (\<lambda>(s, rekeyed).
       let r = \<lparr>repo_store = s, repo_disk = content, repo_dirty = False, repo_flush_mode = mode\<rparr>
       in if rekeyed then (case save io r of (Inl e, _) \<Rightarrow> Inl e | (Inr _, r') \<Rightarrow> Inr r') else Inr r)"

section \<open>Create-only inserts\<close>

text \<open>The trait \<^verbatim>\<open>InsertIdentity\<close>: its constants and its two keys.\<close>

record 'v insert_identity =
  ii_record :: string
  ii_identity_name :: string
  ii_global_identity :: bool
  ii_id :: "'v \<Rightarrow> string"
  ii_identity :: "'v \<Rightarrow> (string \<times> string) option"

definition policy_bundle_identity :: "stored_policy_bundle insert_identity" where
  "policy_bundle_identity =
     \<lparr>ii_record = ''policy bundle'', ii_identity_name = ''policy bundle'', ii_global_identity = False,
      ii_id = spb_id, ii_identity = (\<lambda>b. Some (spb_realm_id b, spb_name b))\<rparr>"

definition user_identity :: "user insert_identity" where
  "user_identity =
     \<lparr>ii_record = ''user'', ii_identity_name = ''user email'', ii_global_identity = False,
      ii_id = usr_id, ii_identity = (\<lambda>u. map_option (\<lambda>email. (usr_realm_id u, email)) (usr_email u))\<rparr>"

definition scim_user_identity :: "scim_user insert_identity" where
  "scim_user_identity =
     \<lparr>ii_record = ''SCIM user'', ii_identity_name = ''user name'', ii_global_identity = False,
      ii_id = su_id, ii_identity = (\<lambda>u. Some (su_realm_id u, su_user_name u))\<rparr>"

definition scim_group_identity :: "scim_group insert_identity" where
  "scim_group_identity =
     \<lparr>ii_record = ''SCIM group'', ii_identity_name = ''display name'', ii_global_identity = False,
      ii_id = sg_id, ii_identity = (\<lambda>g. Some (sg_realm_id g, sg_display_name g))\<rparr>"

definition client_identity :: "client insert_identity" where
  "client_identity =
     \<lparr>ii_record = ''client'', ii_identity_name = ''client id'', ii_global_identity = False,
      ii_id = cl_id, ii_identity = (\<lambda>c. Some (cl_realm_id c, cl_client_id c))\<rparr>"

definition par_request_identity :: "par_request insert_identity" where
  "par_request_identity =
     \<lparr>ii_record = ''PAR request'', ii_identity_name = ''PAR request URI'', ii_global_identity = False,
      ii_id = par_request_uri, ii_identity = (\<lambda>_. None)\<rparr>"

definition device_grant_identity :: "device_authorization_grant insert_identity" where
  "device_grant_identity =
     \<lparr>ii_record = ''device authorization grant'', ii_identity_name = ''device user code'',
      ii_global_identity = True, ii_id = dag_device_code_hash,
      ii_identity = (\<lambda>g. Some ([], dag_user_code g))\<rparr>"

definition backchannel_grant_identity :: "backchannel_authentication_grant insert_identity" where
  "backchannel_grant_identity =
     \<lparr>ii_record = ''backchannel authentication grant'',
      ii_identity_name = ''backchannel authentication grant'', ii_global_identity = False,
      ii_id = bag_auth_req_id_hash, ii_identity = (\<lambda>_. None)\<rparr>"

definition identity_conflict :: "'v insert_identity \<Rightarrow> string \<Rightarrow> string \<Rightarrow> qid_error" where
  "identity_conflict T owner identity =
     Conflict (if ii_global_identity T then ii_identity_name T @ '' '' @ identity @ '' already exists globally''
       else ii_identity_name T @ '' '' @ identity @ '' already exists in realm '' @ owner)"

definition insert_new ::
    "'v insert_identity \<Rightarrow> (string, 'v) hash_map \<Rightarrow> 'v \<Rightarrow> (string, 'v) hash_map result" where
  "insert_new T m row =
     and_then (reject_duplicate_id (hm_contains m (ii_id T row))
                 (ii_record T @ '' record ID '' @ ii_id T row @ '' already exists'')) (\<lambda>_.
       case ii_identity T row of
         Some (owner, identity) \<Rightarrow>
           if list_ex (\<lambda>stored. ii_identity T stored = Some (owner, identity)) (hm_values m)
           then Inl (identity_conflict T owner identity)
           else Inr (hm_insert (ii_id T row) row m)
       | None \<Rightarrow> Inr (hm_insert (ii_id T row) row m))"

section \<open>Persistence\<close>

lemma commit_Inr:
  "commit io s a r = (Inr b, r') \<Longrightarrow> b = a \<and> repo_store r' = s"
  by (auto simp: commit_def save_def flush_store_def write_store_content_def
      split: prod.splits sum.splits file_flush_mode.splits option.splits)

lemma commit_store [simp]: "repo_store (snd (commit io s a r)) = s"
  by (simp add: commit_def save_def flush_store_def write_store_content_def
      split: prod.splits sum.splits file_flush_mode.splits option.splits)

lemma commit_flush_mode [simp]: "repo_flush_mode (snd (commit io s a r)) = repo_flush_mode r"
  by (simp add: commit_def save_def flush_store_def write_store_content_def
      split: prod.splits sum.splits file_flush_mode.splits option.splits)

lemma flush_store_unchanged [simp]: "repo_store (snd (flush io r)) = repo_store r"
  by (simp add: flush_def flush_store_def write_store_content_def split: option.splits)

lemma flush_mode_unchanged [simp]: "repo_flush_mode (snd (flush io r)) = repo_flush_mode r"
  by (simp add: flush_def flush_store_def write_store_content_def split: option.splits)

lemma try_write_store:
  "repo_store (snd (try_write io f r)) =
     (case f (repo_store r) of Inl _ \<Rightarrow> repo_store r | Inr (s, _) \<Rightarrow> s)"
  by (simp add: try_write_def split: sum.splits prod.splits)

text \<open>A relation between stores that holds of the change holds of the operation, whatever the write does.\<close>

lemma try_write_relates:
  assumes "\<And>s a. f (repo_store r) = Inr (s, a) \<Longrightarrow> rel (repo_store r) s" "rel (repo_store r) (repo_store r)"
  shows "rel (repo_store r) (repo_store (snd (try_write io f r)))"
  using assms by (simp add: try_write_store split: sum.splits prod.splits)

lemma try_write_flush_mode [simp]: "repo_flush_mode (snd (try_write io f r)) = repo_flush_mode r"
  by (simp add: try_write_def split: sum.splits prod.splits)

lemma map_write_store [simp]: "repo_store (snd (map_write io f r)) = f (repo_store r)"
  by (simp add: map_write_def)

text \<open>What an operation may do to the repository: change the store and save, or flush.\<close>

inductive file_step :: "file_repository \<Rightarrow> file_repository \<Rightarrow> bool" where
  file_commit: "file_step r (snd (commit io s () r))"
| file_flush: "file_step r (snd (flush io r))"

lemma commit_steps: "file_step\<^sup>*\<^sup>* r (snd (commit io s a r))"
proof -
  have "snd (commit io s a r) = snd (commit io s () r)"
    by (simp add: commit_def split: prod.splits sum.splits)
  then show ?thesis using file_commit [of r io s] by auto
qed

lemma try_write_steps: "file_step\<^sup>*\<^sup>* r (snd (try_write io f r))"
  by (simp add: try_write_def commit_steps split: sum.splits prod.splits)

lemma map_write_steps: "file_step\<^sup>*\<^sup>* r (snd (map_write io f r))"
  by (simp add: map_write_def commit_steps)

definition synced :: "file_repository \<Rightarrow> bool" where
  "synced r \<longleftrightarrow> repo_dirty r \<or> repo_disk r = Some (repo_store r)"

lemma commit_synced:
  assumes "repo_flush_mode r = Interval d"
  shows "synced (snd (commit io s a r))"
  using assms by (simp add: commit_def save_def synced_def)

lemma flush_synced: "synced r \<Longrightarrow> synced (snd (flush io r))"
  by (auto simp: flush_def flush_store_def write_store_content_def synced_def split: option.splits)

lemma file_steps_synced:
  assumes "file_step\<^sup>*\<^sup>* r r'" "repo_flush_mode r = Interval d" "synced r"
  shows "synced r' \<and> repo_flush_mode r' = Interval d"
  using assms
proof (induction rule: rtranclp_induct)
  case (step r' r'')
  then have IH: "synced r'" "repo_flush_mode r' = Interval d" by simp_all
  from step.hyps(2) show ?case
  proof cases
    case (file_commit io s)
    with IH show ?thesis by (simp add: commit_synced)
  next
    case (file_flush io)
    with IH show ?thesis by (simp add: flush_synced)
  qed
qed simp



text \<open>
  In immediate mode a reported success is durable: when a write reports success the store file
  holds exactly the memory image, and when it reports an error of the validation nothing changed
  in memory or on disk.
\<close>

theorem immediate_success_is_durable:
  assumes "repo_flush_mode r = Immediate"
  shows "case try_write io f r of
      (Inr a, r') \<Rightarrow> repo_disk r' = Some (repo_store r') \<and> f (repo_store r) = Inr (repo_store r', a)
    | (Inl e, r') \<Rightarrow> repo_disk r' = repo_disk r \<and> (f (repo_store r) = Inl e \<and> r' = r \<or> io = Some e)"
  using assms
  by (auto simp: try_write_def commit_def save_def flush_store_def write_store_content_def
      split: prod.splits sum.splits option.splits)

theorem immediate_success_is_durable_witness:
  "(let r = \<lparr>repo_store = empty_store, repo_disk = None, repo_dirty = False, repo_flush_mode = Immediate\<rparr>;
        f = (\<lambda>s. Inr (s\<lparr>st_realm_issuers := [(''corp'', ''https://corp'')]\<rparr>, ()))
    in repo_flush_mode r = Immediate
       \<and> repo_disk (snd (try_write None f r)) = Some (empty_store\<lparr>st_realm_issuers := [(''corp'', ''https://corp'')]\<rparr>))"
  using immediate_success_is_durable [where r = "\<lparr>repo_store = empty_store, repo_disk = None,
      repo_dirty = False, repo_flush_mode = Immediate\<rparr>" and io = None
      and f = "\<lambda>s. Inr (s\<lparr>st_realm_issuers := [(''corp'', ''https://corp'')]\<rparr>, ())"]
  by (auto simp: Let_def try_write_def commit_def save_def flush_store_def write_store_content_def)


section \<open>Keys and identities\<close>

text \<open>
  A scoped record key determines its scope and its identifier, whatever delimiters they carry.
\<close>

theorem scoped_record_key_inject:
  "scoped_record_key scope i = scoped_record_key scope' i' \<longleftrightarrow> scope = scope' \<and> i = i'"
  using length_prefix_inject [of scope i scope' i'] by (auto simp: scoped_record_key_def)

lemma rekey_loop_Inr:
  assumes "rekey_loop key bindings rows m changed = Inr (m', changed')"
    "hm_wf m" "\<forall>k v. map_of m k = Some v \<longrightarrow> key v = k"
  shows "hm_wf m' \<and> (\<forall>k v. map_of m' k = Some v \<longleftrightarrow> key v = k \<and> (map_of m k = Some v \<or> v \<in> snd ` set rows))
    \<and> changed' = (changed \<or> (\<exists>x\<in>set rows. fst x \<noteq> key (snd x)))"
  using assms
proof (induction key bindings rows m changed rule: rekey_loop.induct)
  case (2 key bindings old_key row rows m changed)
  from "2.prems"(1) have new: "map_of m (key row) = None"
    and run: "rekey_loop key bindings rows (hm_insert (key row) row m) (changed \<or> old_key \<noteq> key row)
      = Inr (m', changed')"
    by (auto simp: Let_def hm_contains_def split: if_splits)
  have "\<not> hm_contains m (key row)" using new by (simp add: hm_contains_def)
  note IH = "2.IH" [OF refl this run]
  have "hm_wf (hm_insert (key row) row m)" using "2.prems"(2) by simp
  moreover have "\<forall>k v. map_of (hm_insert (key row) row m) k = Some v \<longrightarrow> key v = k"
    using "2.prems"(3) by simp
  ultimately have IH: "hm_wf m'"
      "map_of m' k = Some v \<longleftrightarrow> key v = k
         \<and> (map_of (hm_insert (key row) row m) k = Some v \<or> v \<in> snd ` set rows)"
      "changed' \<longleftrightarrow> (changed \<or> old_key \<noteq> key row) \<or> (\<exists>x\<in>set rows. fst x \<noteq> key (snd x))" for k v
    using IH by blast+
  have "map_of m' k = Some v \<longleftrightarrow> key v = k \<and> (map_of m k = Some v \<or> v \<in> snd ` set ((old_key, row) # rows))" for k v
    using IH(2) [of k v] new "2.prems"(3) [rule_format, of k v] by auto
  with IH(1,3) show ?case by simp
qed auto

lemma rekey_loop_ok:
  "is_ok (rekey_loop key bindings rows m changed) \<longleftrightarrow>
     distinct (map (\<lambda>x. key (snd x)) rows) \<and> (\<forall>x\<in>set rows. map_of m (key (snd x)) = None)"
proof (induction key bindings rows m changed rule: rekey_loop.induct)
  case (2 key bindings old_key row rows m changed)
  show ?case
  proof (cases "hm_contains m (key row)")
    case True
    then show ?thesis by (auto simp: Let_def hm_contains_def)
  next
    case False
    with 2 have "is_ok (rekey_loop key bindings ((old_key, row) # rows) m changed) \<longleftrightarrow>
        distinct (map (\<lambda>x. key (snd x)) rows) \<and> (\<forall>x\<in>set rows. map_of (hm_insert (key row) row m) (key (snd x)) = None)"
      by (simp add: Let_def)
    moreover have "map_of (hm_insert (key row) row m) k = None \<longleftrightarrow> key row \<noteq> k \<and> map_of m k = None" for k
      by simp
    moreover have "map_of m (key row) = None" using False by (simp add: hm_contains_def)
    ultimately show ?thesis
      unfolding list.map distinct.simps list.set ball_simps set_map image_iff by (simp add: ball_conj_distrib) blast
  qed
qed simp

text \<open>
  Re-keying a table on load keeps exactly its records, files each under the key its content
  demands, refuses a table in which two records demand one key, and has nothing left to do the
  second time.
\<close>

theorem rekey_records_correct:
  "is_ok (rekey_records key bindings rows) = distinct (map (\<lambda>x. key (snd x)) rows)
   \<and> (case rekey_records key bindings rows of
        Inl e \<Rightarrow> e = Internal (''file store contains duplicate '' @ bindings)
      | Inr (m, changed) \<Rightarrow>
          hm_wf m \<and> (\<forall>k v. (map_of m k = Some v) = (key v = k \<and> v \<in> snd ` set rows))
          \<and> changed = (\<exists>x\<in>set rows. fst x \<noteq> key (snd x))
          \<and> (case rekey_records key bindings m of Inl _ \<Rightarrow> False
             | Inr (m', changed') \<Rightarrow> map_of m' = map_of m \<and> \<not> changed'))"
proof (cases "rekey_records key bindings rows")
  case (Inl e)
  have "rekey_loop key bindings rows m changed = Inl e
      \<Longrightarrow> e = Internal (''file store contains duplicate '' @ bindings)" for m changed
    by (induction key bindings rows m changed rule: rekey_loop.induct)
      (auto simp: Let_def split: if_splits)
  with Inl rekey_loop_ok [of key bindings rows "[]" False] show ?thesis
    by (auto simp: rekey_records_def)
next
  case (Inr x)
  obtain m changed where x: "x = (m, changed)" by (cases x)
  have m: "hm_wf m" "\<And>k v. map_of m k = Some v \<longleftrightarrow> key v = k \<and> v \<in> snd ` set rows"
      "changed = (\<exists>x\<in>set rows. fst x \<noteq> key (snd x))"
    using rekey_loop_Inr [of key bindings rows "[]" False m changed] Inr x
    by (auto simp: rekey_records_def)
  have keys: "key (snd y) = fst y" if "y \<in> set m" for y
  proof -
    from that m(1) have "map_of m (fst y) = Some (snd y)" using hm_mem_iff [of m "fst y" "snd y"] by simp
    with m(2) show ?thesis by blast
  qed
  then have "map (\<lambda>x. key (snd x)) m = map fst m" by (intro map_cong) simp_all
  then have "is_ok (rekey_loop key bindings m [] False)"
    using m(1) unfolding rekey_loop_ok hm_wf_def by (simp only:) simp
  then obtain m' changed' where again: "rekey_loop key bindings m [] False = Inr (m', changed')"
    by (cases "rekey_loop key bindings m [] False") auto
  have "\<not> changed'" and m': "map_of m' k = Some v \<longleftrightarrow> key v = k \<and> v \<in> snd ` set m" for k v
    using rekey_loop_Inr [OF again] keys by auto
  have "v \<in> snd ` set m \<longleftrightarrow> (\<exists>k. map_of m k = Some v)" for v
    using hm_values_iff [OF m(1), of v] by (simp add: hm_values_def)
  then have "map_of m' k = Some v \<longleftrightarrow> map_of m k = Some v" for k v
    using m' [of k v] m(2) [of k v] m(2) by metis
  then have "map_of m' = map_of m" by (intro ext) (metis not_Some_eq)
  then show ?thesis
    using Inr x m again \<open>\<not> changed'\<close> rekey_loop_ok [of key bindings rows "[]" False]
    by (auto simp: rekey_records_def)
qed

definition identities_unique :: "'v insert_identity \<Rightarrow> (string, 'v) hash_map \<Rightarrow> bool" where
  "identities_unique T m \<longleftrightarrow>
     hm_wf m \<and> (\<forall>k v. map_of m k = Some v \<longrightarrow> ii_id T v = k)
     \<and> (\<forall>k k' v v'. map_of m k = Some v \<longrightarrow> map_of m k' = Some v' \<longrightarrow> ii_identity T v \<noteq> None
          \<longrightarrow> ii_identity T v = ii_identity T v' \<longrightarrow> k = k')"

lemma insert_new_Inr:
  "insert_new T m row = Inr m' \<longleftrightarrow>
     map_of m (ii_id T row) = None \<and> m' = hm_insert (ii_id T row) row m
     \<and> (ii_identity T row \<noteq> None \<longrightarrow> (\<forall>v\<in>set (hm_values m). ii_identity T v \<noteq> ii_identity T row))"
  by (auto simp: insert_new_def reject_duplicate_id_def hm_contains_def list_ex_iff
      split: option.splits if_splits)

lemma insert_new_Inl:
  "insert_new T m row = Inl e \<Longrightarrow>
     (\<exists>msg. e = Conflict msg) \<and> (ii_id T row \<in> dom (map_of m)
       \<or> ii_identity T row \<noteq> None \<and> (\<exists>v\<in>set (hm_values m). ii_identity T v = ii_identity T row))"
  by (auto simp: insert_new_def reject_duplicate_id_def hm_contains_def list_ex_iff and_then_Inl_iff
      identity_conflict_def split: option.splits if_splits)

lemma insert_new_unique:
  assumes "identities_unique T m" "insert_new T m row = Inr m'"
  shows "identities_unique T m'"
  using assms unfolding insert_new_Inr identities_unique_def
  by (auto simp: hm_values_iff)

text \<open>
  A create-only insert never overwrites and never duplicates: it succeeds exactly when neither
  the record id nor the identity is taken, adds that record alone, keeps identities unique, and
  otherwise reports a conflict.
\<close>

theorem insert_new_correct:
  assumes "identities_unique T m"
  shows "case insert_new T m row of
      Inr m' \<Rightarrow> map_of m (ii_id T row) = None \<and> map_of m' = (map_of m)(ii_id T row \<mapsto> row)
        \<and> identities_unique T m'
    | Inl e \<Rightarrow> (\<exists>msg. e = Conflict msg) \<and> (ii_id T row \<in> dom (map_of m)
        \<or> ii_identity T row \<noteq> None \<and> (\<exists>v\<in>set (hm_values m). ii_identity T v = ii_identity T row))"
proof (cases "insert_new T m row")
  case (Inl e)
  with insert_new_Inl [OF Inl] show ?thesis by simp
next
  case (Inr m')
  with insert_new_unique [OF assms Inr] Inr [unfolded insert_new_Inr] show ?thesis by simp
qed


theorem insert_new_correct_witness:
  "(let m = [(''p1'', \<lparr>spb_id = ''p1'', spb_realm_id = ''corp'', spb_name = ''main'', spb_source_hash = [],
                spb_compiled_json = JNull, spb_version = 1, spb_active = True\<rparr>)];
        row = \<lparr>spb_id = ''p2'', spb_realm_id = ''corp'', spb_name = ''main'', spb_source_hash = [],
                spb_compiled_json = JNull, spb_version = 2, spb_active = True\<rparr>
    in identities_unique policy_bundle_identity m
       \<and> (case insert_new policy_bundle_identity m row of Inr _ \<Rightarrow> False
          | Inl e \<Rightarrow> (\<exists>v\<in>set (hm_values m). ii_identity policy_bundle_identity v = Some (''corp'', ''main''))))"
proof -
  let ?m = "[(''p1'', \<lparr>spb_id = ''p1'', spb_realm_id = ''corp'', spb_name = ''main'', spb_source_hash = [],
                spb_compiled_json = JNull, spb_version = 1, spb_active = True\<rparr>)]"
  let ?row = "\<lparr>spb_id = ''p2'', spb_realm_id = ''corp'', spb_name = ''main'', spb_source_hash = [],
                spb_compiled_json = JNull, spb_version = 2, spb_active = True\<rparr>"
  have "identities_unique policy_bundle_identity ?m"
    by (simp add: identities_unique_def hm_wf_def policy_bundle_identity_def)
  with insert_new_correct [OF this, of ?row] show ?thesis
    by (simp add: Let_def insert_new_def policy_bundle_identity_def reject_duplicate_id_def
        hm_contains_def hm_values_def)
qed

section \<open>The contract of one-shot records\<close>

text \<open>
  What the protocol endpoints rely on when they redeem a code, a request or a grant: \<open>step k\<close> is any
  operation of the repository other than issuing \<open>k\<close> anew, \<open>inv\<close> is what they all keep, \<open>available k\<close> says that \<open>k\<close> can be
  redeemed, and \<open>consume\<close> redeems it.
\<close>

locale one_shot =
  fixes inv :: "'r \<Rightarrow> bool"
    and step :: "'k \<Rightarrow> 'r \<Rightarrow> 'r \<Rightarrow> bool"
    and available :: "'k \<Rightarrow> 'r \<Rightarrow> bool"
    and consume :: "'i \<Rightarrow> 'k \<Rightarrow> 'r \<Rightarrow> bool \<times> 'r"
  assumes step_inv: "inv r \<Longrightarrow> step k r r' \<Longrightarrow> inv r'"
    and consume_inv: "inv r \<Longrightarrow> inv (snd (consume i k r))"
    and consume_available: "inv r \<Longrightarrow> fst (consume i k r) \<Longrightarrow> available k r"
    and consume_spends: "inv r \<Longrightarrow> fst (consume i k r) \<Longrightarrow> \<not> available k (snd (consume i k r))"
    and step_unavailable: "inv r \<Longrightarrow> step k r r' \<Longrightarrow> \<not> available k r \<Longrightarrow> \<not> available k r'"
begin

lemma steps_unavailable:
  assumes "(step k)\<^sup>*\<^sup>* r r'" "inv r" "\<not> available k r"
  shows "inv r' \<and> \<not> available k r'"
  using assms by (induction rule: rtranclp_induct) (auto dest: step_unavailable step_inv)

lemma consumed_once:
  assumes "inv r" "fst (consume i k r)" "(step k)\<^sup>*\<^sup>* (snd (consume i k r)) r'"
  shows "\<not> fst (consume i' k r')"
  using steps_unavailable [OF assms(3) consume_inv consume_spends] assms(1,2) consume_available by blast

end

end
