(* ===== verification/Qid_Tokens.thy ===== *)
theory Qid_Tokens
  imports Qid_File_Store
begin

text \<open>
  Sessions, authorization codes, token families, access tokens and the pushed, device and
  backchannel grants of the file repository: \<^verbatim>\<open>qid-storage/src/file/session.rs\<close>,
  \<^verbatim>\<open>qid-storage/src/file/token.rs\<close> and the rules they take from \<^verbatim>\<open>qid-storage/src/domain/mod.rs\<close>
  and \<^verbatim>\<open>qid-core/src/models/oauth.rs\<close>.

  Operations keep the names of the source. Those that change the store return the repository;
  those that only read return a result.
\<close>

section \<open>Rules\<close>

definition is_active :: "session \<Rightarrow> u64 \<Rightarrow> bool" where
  "is_active ses now \<longleftrightarrow>
     \<not> ses_revoked ses \<and> now \<le> ses_absolute_expires_at ses \<and> now \<le> ses_idle_expires_at ses"

definition validate_session_creation :: "session option \<Rightarrow> unit result" where
  "validate_session_creation existing =
     (case existing of
        Some s \<Rightarrow> Inl (BadRequest (''session '' @ ses_id s @ '' already exists''))
      | None \<Rightarrow> Inr ())"

definition validate_token_family_rotation :: "token_family \<Rightarrow> string \<Rightarrow> string \<Rightarrow> unit result" where
  "validate_token_family_rotation family expected_refresh_hash new_refresh_hash =
     (if tf_revoked family
        then Inl (Conflict (''token family '' @ tf_id family @ '' is revoked''))
      else if tf_current_refresh_hash family \<noteq> expected_refresh_hash
        then Inl (Conflict (''token family '' @ tf_id family @ '' refresh token already consumed''))
      else if new_refresh_hash = expected_refresh_hash
            \<or> tf_current_refresh_hash family = new_refresh_hash
        then Inl (Conflict (''token family '' @ tf_id family @ '' refresh hash reuse detected''))
      else Inr ())"

definition validate_authz_code_reuse :: "authorization_code \<Rightarrow> unit result" where
  "validate_authz_code_reuse code =
     (if code_used code
        then Inl (BadRequest (''authorization code '' @ code_code_hash code @ '' already used''))
      else Inr ())"

definition auth_code_owner_matches :: "authorization_code \<Rightarrow> authorization_code \<Rightarrow> bool" where
  "auth_code_owner_matches cur expected \<longleftrightarrow>
     code_realm_id cur = code_realm_id expected \<and> code_client_id cur = code_client_id expected
     \<and> code_user_id cur = code_user_id expected"

section \<open>Sessions\<close>

definition create_session :: "io \<Rightarrow> session \<Rightarrow> file_repository \<Rightarrow> unit result \<times> file_repository" where
  "create_session io ses = try_write io (\<lambda>s.
     and_then (validate_session_creation (hm_get (st_sessions s) (ses_id ses)))
       (\<lambda>_. Inr (s\<lparr>st_sessions := hm_insert (ses_id ses) ses (st_sessions s)\<rparr>, ())))"

definition get_session :: "string \<Rightarrow> file_repository \<Rightarrow> session option result" where
  "get_session i r = Inr (map_get (\<lambda>s. hm_get (st_sessions s) i) r)"

definition session_in_scope :: "string \<Rightarrow> string option \<Rightarrow> store \<Rightarrow> session option" where
  "session_in_scope i realm_scope s =
     opt_filter (\<lambda>ses. none_or realm_scope (\<lambda>realm. ses_realm_id ses = realm)) (hm_get (st_sessions s) i)"

definition update_session_idle_expiry ::
    "io \<Rightarrow> string \<Rightarrow> u64 \<Rightarrow> string option \<Rightarrow> file_repository \<Rightarrow> bool result \<times> file_repository" where
  "update_session_idle_expiry io i idle_expires_at realm_scope r =
     (let s = repo_store r
      in case session_in_scope i realm_scope s of
           None \<Rightarrow> (Inr False, r)
         | Some ses \<Rightarrow>
             commit io (s\<lparr>st_sessions := hm_insert i (ses\<lparr>ses_idle_expires_at := idle_expires_at\<rparr>) (st_sessions s)\<rparr>)
               True r)"

definition revoke_session ::
    "io \<Rightarrow> string \<Rightarrow> string option \<Rightarrow> file_repository \<Rightarrow> bool result \<times> file_repository" where
  "revoke_session io i realm_scope r =
     (let s = repo_store r
      in case session_in_scope i realm_scope s of
           None \<Rightarrow> (Inr False, r)
         | Some ses \<Rightarrow>
             if ses_revoked ses then (Inr False, r)
             else commit io (s\<lparr>st_sessions := hm_insert i (ses\<lparr>ses_revoked := True\<rparr>) (st_sessions s)\<rparr>) True r)"

definition list_sessions :: "string \<Rightarrow> string option \<Rightarrow> file_repository \<Rightarrow> session list result" where
  "list_sessions realm_id user_id r =
     Inr (sort_key (\<lambda>ses. - uint (ses_created_at ses))
       (filter (\<lambda>ses. none_or user_id (\<lambda>uid. ses_user_id ses = uid))
         (filter (\<lambda>ses. ses_realm_id ses = realm_id) (hm_values (st_sessions (repo_store r))))))"

section \<open>Authorization codes\<close>

definition create_authorization_code ::
    "io \<Rightarrow> authorization_code \<Rightarrow> file_repository \<Rightarrow> unit result \<times> file_repository" where
  "create_authorization_code io code = try_write io (\<lambda>s.
     if hm_contains (st_authorization_codes s) (code_code_hash code)
     then Inl (Storage (''duplicate code '' @ code_code_hash code))
     else Inr (s\<lparr>st_authorization_codes := hm_insert (code_code_hash code) code (st_authorization_codes s)\<rparr>, ()))"

definition get_authorization_code :: "string \<Rightarrow> file_repository \<Rightarrow> authorization_code option result" where
  "get_authorization_code code_hash r = Inr (map_get (\<lambda>s. hm_get (st_authorization_codes s) code_hash) r)"

definition mark_authorization_code_used ::
    "io \<Rightarrow> authorization_code \<Rightarrow> file_repository \<Rightarrow> unit result \<times> file_repository" where
  "mark_authorization_code_used io code = try_write io (\<lambda>s.
     and_then (ok_or (NotFound (''authorization code '' @ code_code_hash code))
         (opt_filter (\<lambda>stored. auth_code_owner_matches stored code)
           (hm_get (st_authorization_codes s) (code_code_hash code)))) (\<lambda>stored.
       if code_used stored then Inl (Conflict ''authorization code already consumed'')
       else Inr (s\<lparr>st_authorization_codes :=
              hm_insert (code_code_hash code) (stored\<lparr>code_used := True\<rparr>) (st_authorization_codes s)\<rparr>, ())))"

section \<open>Token families\<close>

definition create_token_family :: "io \<Rightarrow> token_family \<Rightarrow> file_repository \<Rightarrow> unit result \<times> file_repository" where
  "create_token_family io family = try_write io (\<lambda>s.
     if hm_contains (st_token_families s) (tf_id family)
     then Inl (Storage (''duplicate family '' @ tf_id family))
     else Inr (s\<lparr>st_token_families := hm_insert (tf_id family) family (st_token_families s)\<rparr>, ()))"

definition get_token_family :: "string \<Rightarrow> file_repository \<Rightarrow> token_family option result" where
  "get_token_family i r = Inr (map_get (\<lambda>s. hm_get (st_token_families s) i) r)"

text \<open>The tentative rotation in memory, with what a rollback needs.\<close>

definition rotate_family ::
    "string \<Rightarrow> string \<Rightarrow> string \<Rightarrow> string \<Rightarrow> u64 \<Rightarrow> store \<Rightarrow> (store \<times> (string \<times> u64 option)) result" where
  "rotate_family i realm_id expected_refresh_hash refresh_hash refresh_expires_at s =
     and_then (ok_or (NotFound (''token family '' @ i))
         (opt_filter (\<lambda>family. tf_realm_id family = realm_id) (hm_get (st_token_families s) i))) (\<lambda>family.
     and_then (validate_token_family_rotation family expected_refresh_hash refresh_hash) (\<lambda>_.
       Inr (s\<lparr>st_token_families := hm_insert i
                (family\<lparr>tf_current_refresh_hash := refresh_hash,
                        tf_refresh_expires_at := Some refresh_expires_at\<rparr>) (st_token_families s)\<rparr>,
            (tf_current_refresh_hash family, tf_refresh_expires_at family))))"

definition rollback_rotation :: "string \<Rightarrow> string \<Rightarrow> u64 option \<Rightarrow> store \<Rightarrow> store" where
  "rollback_rotation i previous_hash previous_deadline s =
     s\<lparr>st_token_families := hm_modify i (\<lambda>family.
         family\<lparr>tf_current_refresh_hash := previous_hash, tf_refresh_expires_at := previous_deadline\<rparr>)
       (st_token_families s)\<rparr>"

definition update_token_family_refresh_hash ::
    "io \<Rightarrow> string \<Rightarrow> string \<Rightarrow> string \<Rightarrow> string \<Rightarrow> u64 \<Rightarrow> file_repository \<Rightarrow> unit result \<times> file_repository" where
  "update_token_family_refresh_hash io i realm_id expected_refresh_hash refresh_hash refresh_expires_at r =
     (case rotate_family i realm_id expected_refresh_hash refresh_hash refresh_expires_at (repo_store r) of
        Inl e \<Rightarrow> (Inl e, r)
      | Inr (s, (previous_hash, previous_deadline)) \<Rightarrow>
          (let rotated = r\<lparr>repo_store := s\<rparr>
           in case repo_flush_mode r of
                Interval _ \<Rightarrow> save io rotated
              | Immediate \<Rightarrow>
                  (case flush_store io rotated of
                     (Inl save_err, r') \<Rightarrow>
                       (Inl save_err,
                        r'\<lparr>repo_store := rollback_rotation i previous_hash previous_deadline (repo_store r')\<rparr>)
                   | (Inr u, r') \<Rightarrow> (Inr u, r'))))"

definition revoke_token_family ::
    "io \<Rightarrow> string \<Rightarrow> string \<Rightarrow> file_repository \<Rightarrow> unit result \<times> file_repository" where
  "revoke_token_family io i realm_id = map_write io (\<lambda>s.
     s\<lparr>st_token_families := hm_modify i
         (\<lambda>family. family\<lparr>tf_revoked := tf_revoked family \<or> tf_realm_id family = realm_id\<rparr>)
       (st_token_families s)\<rparr>)"

definition list_token_families ::
    "string \<Rightarrow> string option \<Rightarrow> string option \<Rightarrow> file_repository \<Rightarrow> token_family list result" where
  "list_token_families realm_id user_id client_id r =
     Inr (sort_key (\<lambda>f. - uint (tf_issued_at f))
       (filter (\<lambda>f. none_or client_id (\<lambda>cid. tf_client_id f = cid))
         (filter (\<lambda>f. none_or user_id (\<lambda>uid. tf_user_id f = uid))
           (filter (\<lambda>f. tf_realm_id f = realm_id) (hm_values (st_token_families (repo_store r)))))))"


section \<open>Access tokens\<close>

definition create_access_token :: "io \<Rightarrow> access_token \<Rightarrow> file_repository \<Rightarrow> unit result \<times> file_repository" where
  "create_access_token io token = try_write io (\<lambda>s.
     if hm_contains (st_access_tokens s) (at_jti token)
     then Inl (Storage (''duplicate token '' @ at_jti token))
     else Inr (s\<lparr>st_access_tokens := hm_insert (at_jti token) token (st_access_tokens s)\<rparr>, ()))"

definition get_access_token :: "string \<Rightarrow> file_repository \<Rightarrow> access_token option result" where
  "get_access_token jti r = Inr (map_get (\<lambda>s. hm_get (st_access_tokens s) jti) r)"

definition revoke_access_token ::
    "io \<Rightarrow> string \<Rightarrow> string \<Rightarrow> file_repository \<Rightarrow> unit result \<times> file_repository" where
  "revoke_access_token io jti realm_id = map_write io (\<lambda>s.
     s\<lparr>st_access_tokens := hm_modify jti
         (\<lambda>token. token\<lparr>at_revoked := at_revoked token \<or> at_realm_id token = realm_id\<rparr>)
       (st_access_tokens s)\<rparr>)"

section \<open>Pushed authorization requests\<close>

definition store_par_request :: "io \<Rightarrow> par_request \<Rightarrow> file_repository \<Rightarrow> unit result \<times> file_repository" where
  "store_par_request io req = try_write io (\<lambda>s.
     and_then (insert_new par_request_identity (st_par_requests s) req)
       (\<lambda>m. Inr (s\<lparr>st_par_requests := m\<rparr>, ())))"

definition get_par_request :: "string \<Rightarrow> file_repository \<Rightarrow> par_request option result" where
  "get_par_request request_uri r = Inr (map_get (\<lambda>s. hm_get (st_par_requests s) request_uri) r)"

definition mark_par_request_used :: "io \<Rightarrow> string \<Rightarrow> file_repository \<Rightarrow> unit result \<times> file_repository" where
  "mark_par_request_used io request_uri = try_write io (\<lambda>s.
     and_then (ok_or (NotFound (''PAR request '' @ request_uri)) (hm_get (st_par_requests s) request_uri)) (\<lambda>req.
       if par_used req then Inl (Conflict ''PAR request already consumed'')
       else Inr (s\<lparr>st_par_requests := hm_insert request_uri (req\<lparr>par_used := True\<rparr>) (st_par_requests s)\<rparr>, ())))"

section \<open>Device authorization grants\<close>

definition store_device_authorization_grant ::
    "io \<Rightarrow> device_authorization_grant \<Rightarrow> file_repository \<Rightarrow> unit result \<times> file_repository" where
  "store_device_authorization_grant io grant = try_write io (\<lambda>s.
     and_then (insert_new device_grant_identity (st_device_authorization_grants s) grant)
       (\<lambda>m. Inr (s\<lparr>st_device_authorization_grants := m\<rparr>, ())))"

definition get_device_authorization_grant ::
    "string \<Rightarrow> file_repository \<Rightarrow> device_authorization_grant option result" where
  "get_device_authorization_grant device_code_hash r =
     Inr (map_get (\<lambda>s. hm_get (st_device_authorization_grants s) device_code_hash) r)"

definition get_device_authorization_grant_by_user_code ::
    "string \<Rightarrow> file_repository \<Rightarrow> device_authorization_grant option result" where
  "get_device_authorization_grant_by_user_code user_code r =
     unique_match (filter (\<lambda>g. dag_user_code g = user_code)
         (hm_values (st_device_authorization_grants (repo_store r))))
       ''ambiguous device user code''"

definition approve_device_authorization_grant ::
    "io \<Rightarrow> string \<Rightarrow> string \<Rightarrow> u64 \<Rightarrow> file_repository \<Rightarrow> unit result \<times> file_repository" where
  "approve_device_authorization_grant io user_code user_id approved_at = try_write io (\<lambda>s.
     and_then (unique_match (filter (\<lambda>(k, g). dag_user_code g = user_code) (st_device_authorization_grants s))
                 ''ambiguous device user code'') (\<lambda>found.
     and_then (ok_or (NotFound ''device authorization grant'') found) (\<lambda>(k, grant).
       Inr (s\<lparr>st_device_authorization_grants := hm_insert k
                (grant\<lparr>dag_user_id := Some user_id, dag_approved_at := Some approved_at\<rparr>)
                (st_device_authorization_grants s)\<rparr>, ()))))"

definition record_device_authorization_poll ::
    "io \<Rightarrow> string \<Rightarrow> u64 \<Rightarrow> u64 \<Rightarrow> file_repository \<Rightarrow> unit result \<times> file_repository" where
  "record_device_authorization_poll io device_code_hash polled_at poll_interval_seconds = map_write io (\<lambda>s.
     s\<lparr>st_device_authorization_grants := hm_modify device_code_hash
         (\<lambda>g. g\<lparr>dag_last_poll_at := Some polled_at, dag_poll_interval_seconds := poll_interval_seconds\<rparr>)
       (st_device_authorization_grants s)\<rparr>)"

definition consume_device_authorization_grant ::
    "io \<Rightarrow> string \<Rightarrow> file_repository \<Rightarrow> unit result \<times> file_repository" where
  "consume_device_authorization_grant io device_code_hash = try_write io (\<lambda>s.
     and_then (ok_or (NotFound (''device authorization grant '' @ device_code_hash))
         (hm_get (st_device_authorization_grants s) device_code_hash)) (\<lambda>grant.
       if dag_consumed grant then Inl (Conflict ''device authorization grant already consumed'')
       else Inr (s\<lparr>st_device_authorization_grants := hm_insert device_code_hash (grant\<lparr>dag_consumed := True\<rparr>)
                    (st_device_authorization_grants s)\<rparr>, ())))"

section \<open>Backchannel authentication grants\<close>

definition store_backchannel_authentication_grant ::
    "io \<Rightarrow> backchannel_authentication_grant \<Rightarrow> file_repository \<Rightarrow> unit result \<times> file_repository" where
  "store_backchannel_authentication_grant io grant = try_write io (\<lambda>s.
     and_then (insert_new backchannel_grant_identity (st_backchannel_authentication_grants s) grant)
       (\<lambda>m. Inr (s\<lparr>st_backchannel_authentication_grants := m\<rparr>, ())))"

definition get_backchannel_authentication_grant ::
    "string \<Rightarrow> file_repository \<Rightarrow> backchannel_authentication_grant option result" where
  "get_backchannel_authentication_grant auth_req_id_hash r =
     Inr (map_get (\<lambda>s. hm_get (st_backchannel_authentication_grants s) auth_req_id_hash) r)"

definition approve_backchannel_authentication_grant ::
    "io \<Rightarrow> string \<Rightarrow> string \<Rightarrow> u64 \<Rightarrow> file_repository \<Rightarrow> unit result \<times> file_repository" where
  "approve_backchannel_authentication_grant io auth_req_id_hash user_id approved_at = try_write io (\<lambda>s.
     and_then (ok_or (NotFound ''backchannel authentication grant'')
         (hm_get (st_backchannel_authentication_grants s) auth_req_id_hash)) (\<lambda>grant.
       Inr (s\<lparr>st_backchannel_authentication_grants := hm_insert auth_req_id_hash
                (grant\<lparr>bag_user_id := Some user_id, bag_approved_at := Some approved_at\<rparr>)
                (st_backchannel_authentication_grants s)\<rparr>, ())))"

definition record_backchannel_authentication_poll ::
    "io \<Rightarrow> string \<Rightarrow> u64 \<Rightarrow> u64 \<Rightarrow> file_repository \<Rightarrow> unit result \<times> file_repository" where
  "record_backchannel_authentication_poll io auth_req_id_hash polled_at poll_interval_seconds = map_write io (\<lambda>s.
     s\<lparr>st_backchannel_authentication_grants := hm_modify auth_req_id_hash
         (\<lambda>g. g\<lparr>bag_last_poll_at := Some polled_at, bag_poll_interval_seconds := poll_interval_seconds\<rparr>)
       (st_backchannel_authentication_grants s)\<rparr>)"

definition consume_backchannel_authentication_grant ::
    "io \<Rightarrow> string \<Rightarrow> file_repository \<Rightarrow> unit result \<times> file_repository" where
  "consume_backchannel_authentication_grant io auth_req_id_hash = try_write io (\<lambda>s.
     and_then (ok_or (NotFound (''backchannel authentication grant '' @ auth_req_id_hash))
         (hm_get (st_backchannel_authentication_grants s) auth_req_id_hash)) (\<lambda>grant.
       if bag_consumed grant then Inl (Conflict ''backchannel authentication grant already consumed'')
       else Inr (s\<lparr>st_backchannel_authentication_grants := hm_insert auth_req_id_hash (grant\<lparr>bag_consumed := True\<rparr>)
                    (st_backchannel_authentication_grants s)\<rparr>, ())))"

section \<open>Rotation of refresh tokens\<close>

lemma update_same: "map_of m k = Some v \<Longrightarrow> hm_insert k v m = m"
  by (induction m) (auto split: if_splits)

lemma update_twice: "hm_insert k v (hm_insert k w m) = hm_insert k v m"
  by (induction m) auto

lemma rotate_family_Inr:
  "rotate_family i realm old new deadline s = Inr (s', prev) \<longleftrightarrow>
     (\<exists>f. hm_get (st_token_families s) i = Some f \<and> tf_realm_id f = realm \<and> \<not> tf_revoked f
        \<and> tf_current_refresh_hash f = old \<and> new \<noteq> old
        \<and> prev = (tf_current_refresh_hash f, tf_refresh_expires_at f)
        \<and> s' = s\<lparr>st_token_families := hm_insert i (f\<lparr>tf_current_refresh_hash := new,
              tf_refresh_expires_at := Some deadline\<rparr>) (st_token_families s)\<rparr>)"
  by (auto simp: rotate_family_def validate_token_family_rotation_def split: if_splits)

lemma rollback_rotate:
  assumes "rotate_family i realm old new deadline s = Inr (s', (h, d))"
  shows "rollback_rotation i h d s' = s"
proof -
  obtain f where f: "hm_get (st_token_families s) i = Some f" "h = tf_current_refresh_hash f"
      "d = tf_refresh_expires_at f"
      "s' = s\<lparr>st_token_families := hm_insert i (f\<lparr>tf_current_refresh_hash := new,
              tf_refresh_expires_at := Some deadline\<rparr>) (st_token_families s)\<rparr>"
    using assms unfolding rotate_family_Inr by auto
  have "hm_modify i (\<lambda>family. family\<lparr>tf_current_refresh_hash := h, tf_refresh_expires_at := d\<rparr>)
      (st_token_families s') = st_token_families s"
    by (simp add: hm_modify_def f update_twice update_same)
  then show ?thesis by (simp add: rollback_rotation_def f(4))
qed

lemma rotation_Inr:
  assumes "update_token_family_refresh_hash io i realm old new deadline r = (Inr u, r')"
  shows "\<exists>prev. rotate_family i realm old new deadline (repo_store r) = Inr (repo_store r', prev)"
  using assms
  by (auto simp: update_token_family_refresh_hash_def Let_def save_def flush_store_def write_store_content_def
      split: sum.splits prod.splits file_flush_mode.splits option.splits)

text \<open>
  C12. A refresh token is consumed by the rotation that replaces it: a rotation that succeeds found
  the family unrevoked in the named realm with the presented hash as the current one, changed that
  family alone, and leaves a family on which presenting the same hash again is refused as already
  consumed.
\<close>

theorem rotation_consumes_refresh_token:
  assumes "update_token_family_refresh_hash io i realm old new deadline r = (Inr (), r')"
  shows "\<exists>f. hm_get (st_token_families (repo_store r)) i = Some f \<and> tf_realm_id f = realm
      \<and> \<not> tf_revoked f \<and> tf_current_refresh_hash f = old \<and> new \<noteq> old
      \<and> repo_store r' = (repo_store r)\<lparr>st_token_families := hm_insert i
          (f\<lparr>tf_current_refresh_hash := new, tf_refresh_expires_at := Some deadline\<rparr>)
          (st_token_families (repo_store r))\<rparr>
      \<and> fst (update_token_family_refresh_hash io' i realm old again deadline' r') =
          Inl (Conflict (''token family '' @ tf_id f @ '' refresh token already consumed''))"
proof -
  from rotation_Inr [OF assms] obtain f where f: "hm_get (st_token_families (repo_store r)) i = Some f"
      "tf_realm_id f = realm" "\<not> tf_revoked f" "tf_current_refresh_hash f = old" "new \<noteq> old"
      "repo_store r' = (repo_store r)\<lparr>st_token_families := hm_insert i
          (f\<lparr>tf_current_refresh_hash := new, tf_refresh_expires_at := Some deadline\<rparr>)
          (st_token_families (repo_store r))\<rparr>"
    unfolding rotate_family_Inr by auto
  have "fst (update_token_family_refresh_hash io' i realm old again deadline' r') =
      Inl (Conflict (''token family '' @ tf_id f @ '' refresh token already consumed''))"
    using f by (simp add: update_token_family_refresh_hash_def rotate_family_def opt_filter_def
        validate_token_family_rotation_def)
  with f show ?thesis by blast
qed

definition example_family :: token_family where
  "example_family =
     \<lparr>tf_id = ''f1'', tf_user_id = ''u1'', tf_client_id = ''app'', tf_realm_id = ''corp'',
      tf_current_refresh_hash = ''h1'', tf_scopes = [], tf_auth_time = None, tf_acr = None, tf_amr = [],
      tf_audience = [], tf_resource = [], tf_authorization_details = None, tf_sender_constraint = None,
      tf_issued_at = 1, tf_refresh_expires_at = None, tf_session_id = None, tf_revoked = False\<rparr>"

definition example_repo :: file_repository where
  "example_repo = \<lparr>repo_store = empty_store\<lparr>st_token_families := [(''f1'', example_family)]\<rparr>,
     repo_disk = None, repo_dirty = False, repo_flush_mode = Immediate\<rparr>"

theorem rotation_consumes_refresh_token_witness:
  "(let r' = snd (update_token_family_refresh_hash None ''f1'' ''corp'' ''h1'' ''h2'' 90 example_repo)
    in update_token_family_refresh_hash None ''f1'' ''corp'' ''h1'' ''h2'' 90 example_repo = (Inr (), r')
       \<and> fst (update_token_family_refresh_hash None ''f1'' ''corp'' ''h1'' ''h3'' 90 r') =
           Inl (Conflict ''token family f1 refresh token already consumed''))"
proof -
  have run: "update_token_family_refresh_hash None ''f1'' ''corp'' ''h1'' ''h2'' 90 example_repo =
      (Inr (), snd (update_token_family_refresh_hash None ''f1'' ''corp'' ''h1'' ''h2'' 90 example_repo))"
    by (simp add: update_token_family_refresh_hash_def rotate_family_def example_repo_def example_family_def
        opt_filter_def validate_token_family_rotation_def flush_store_def write_store_content_def)
  from rotation_consumes_refresh_token [OF run, of None "''h3''" 90] show ?thesis
    using run by (auto simp: Let_def example_repo_def example_family_def)
qed

lemma rotation_Inl:
  assumes "update_token_family_refresh_hash io i realm old new deadline r = (Inl e, r')"
  shows "r' = r"
proof (cases "rotate_family i realm old new deadline (repo_store r)")
  case (Inl e')
  with assms show ?thesis by (simp add: update_token_family_refresh_hash_def)
next
  case (Inr x)
  obtain s h d where x: "x = (s, (h, d))" by (metis prod.exhaust)
  from rollback_rotate [of i realm old new deadline "repo_store r" s h d] Inr x
  have "rollback_rotation i h d s = repo_store r" by simp
  with assms Inr x show ?thesis
    by (auto simp: update_token_family_refresh_hash_def Let_def save_def flush_store_def write_store_content_def
        split: prod.splits file_flush_mode.splits option.splits)
qed

text \<open>
  C30. A rotation that reports an error has no effect: whether the validation refused it or the disk
  write failed, the repository afterwards is the repository before, so the presented refresh token
  stays valid and can be retried.
\<close>

theorem failed_rotation_rolls_back:
  assumes "update_token_family_refresh_hash io i realm old new deadline r = (Inl e, r')"
  shows "r' = r"
  by (rule rotation_Inl [OF assms])

theorem failed_rotation_rolls_back_witness:
  "(let (res, r') = update_token_family_refresh_hash (Some (Internal ''disk full'')) ''f1'' ''corp'' ''h1'' ''h2'' 90
                      example_repo
    in res = Inl (Internal ''disk full'') \<and> r' = example_repo)"
proof -
  let ?run = "update_token_family_refresh_hash (Some (Internal ''disk full'')) ''f1'' ''corp'' ''h1'' ''h2'' 90
                      example_repo"
  have "fst ?run = Inl (Internal ''disk full'')"
    by (simp add: update_token_family_refresh_hash_def rotate_family_def example_repo_def example_family_def
        opt_filter_def validate_token_family_rotation_def flush_store_def write_store_content_def)
  then have "?run = (Inl (Internal ''disk full''), snd ?run)" by (metis prod.collapse)
  with failed_rotation_rolls_back [OF this] show ?thesis by (simp add: split_beta)
qed

text \<open>
  The rollback of a rotation whose write failed undoes the two fields it changed and nothing
  else: whatever other operations did to the store in between, in particular a revocation of the
  family, stays.
\<close>

theorem rollback_keeps_concurrent_changes:
  "hm_get (st_token_families (rollback_rotation i h d s)) j =
     (if j = i then map_option (\<lambda>f. f\<lparr>tf_current_refresh_hash := h, tf_refresh_expires_at := d\<rparr>)
                      (hm_get (st_token_families s) i)
      else hm_get (st_token_families s) j)
   \<and> (\<exists>m. rollback_rotation i h d s = s\<lparr>st_token_families := m\<rparr>)
   \<and> map_option tf_revoked (hm_get (st_token_families (rollback_rotation i h d s)) j)
     = map_option tf_revoked (hm_get (st_token_families s) j)"
  by (auto simp: rollback_rotation_def option.map_comp comp_def)

section \<open>Steps of the token tables\<close>

text \<open>What an operation issues: the record that the key names may come into being by it.\<close>

datatype issue =
    IssueNothing
  | IssueSession string
  | IssueCode string
  | IssueFamily string
  | IssueAccessToken string
  | IssuePar string
  | IssueDeviceGrant string
  | IssueBackchannelGrant string

inductive token_step :: "issue \<Rightarrow> file_repository \<Rightarrow> file_repository \<Rightarrow> bool" where
  "token_step (IssueSession (ses_id ses)) r (snd (create_session io ses r))"
| "token_step IssueNothing r (snd (update_session_idle_expiry io i t scope r))"
| "token_step IssueNothing r (snd (revoke_session io i scope r))"
| "token_step (IssueCode (code_code_hash code)) r (snd (create_authorization_code io code r))"
| "token_step IssueNothing r (snd (mark_authorization_code_used io code r))"
| "token_step (IssueFamily (tf_id family)) r (snd (create_token_family io family r))"
| "token_step IssueNothing r (snd (update_token_family_refresh_hash io i realm old new deadline r))"
| "token_step IssueNothing r (snd (revoke_token_family io i realm r))"
| "token_step (IssueAccessToken (at_jti token)) r (snd (create_access_token io token r))"
| "token_step IssueNothing r (snd (revoke_access_token io jti realm r))"
| "token_step (IssuePar (par_request_uri req)) r (snd (store_par_request io req r))"
| "token_step IssueNothing r (snd (mark_par_request_used io uri r))"
| "token_step (IssueDeviceGrant (dag_device_code_hash grant)) r (snd (store_device_authorization_grant io grant r))"
| "token_step IssueNothing r (snd (approve_device_authorization_grant io code user t r))"
| "token_step IssueNothing r (snd (record_device_authorization_poll io hash t interval r))"
| "token_step IssueNothing r (snd (consume_device_authorization_grant io hash r))"
| "token_step (IssueBackchannelGrant (bag_auth_req_id_hash bgrant)) r
     (snd (store_backchannel_authentication_grant io bgrant r))"
| "token_step IssueNothing r (snd (approve_backchannel_authentication_grant io hash user t r))"
| "token_step IssueNothing r (snd (record_backchannel_authentication_poll io hash t interval r))"
| "token_step IssueNothing r (snd (consume_backchannel_authentication_grant io hash r))"

lemma rotation_store:
  "repo_store (snd (update_token_family_refresh_hash io i realm old new deadline r)) = repo_store r
   \<or> (\<exists>prev. rotate_family i realm old new deadline (repo_store r) =
        Inr (repo_store (snd (update_token_family_refresh_hash io i realm old new deadline r)), prev))"
proof (cases "fst (update_token_family_refresh_hash io i realm old new deadline r)")
  case (Inl e)
  then have "update_token_family_refresh_hash io i realm old new deadline r
      = (Inl e, snd (update_token_family_refresh_hash io i realm old new deadline r))"
    by (metis prod.collapse)
  then have "snd (update_token_family_refresh_hash io i realm old new deadline r) = r"
    by (rule rotation_Inl)
  then show ?thesis by simp
next
  case (Inr u)
  then show ?thesis using rotation_Inr by (metis prod.collapse)
qed

lemma unique_match_Inr_Some:
  "unique_match xs msg = Inr (Some x) \<longleftrightarrow> xs = [x]"
  by (auto simp: unique_match_def reject_duplicate_id_def split: list.splits)

lemma filter_singleton_map_of:
  assumes "filter p m = [(k, v)]" "hm_wf m"
  shows "map_of m k = Some v"
proof -
  have "(k, v) \<in> set (filter p m)" using assms(1) by simp
  then show ?thesis using hm_mem_iff [OF assms(2), of k v] by simp
qed

section \<open>Token records only move forward\<close>

text \<open>
  Between two states of a record nothing changes but the fields the protocol advances, and what is
  used, consumed or revoked stays so.
\<close>

definition session_le :: "session \<Rightarrow> session \<Rightarrow> bool" where
  "session_le a b \<longleftrightarrow> b = a\<lparr>ses_idle_expires_at := ses_idle_expires_at b, ses_revoked := ses_revoked b\<rparr>
     \<and> (ses_revoked a \<longrightarrow> ses_revoked b)"

definition code_le :: "authorization_code \<Rightarrow> authorization_code \<Rightarrow> bool" where
  "code_le a b \<longleftrightarrow> b = a\<lparr>code_used := code_used b\<rparr> \<and> (code_used a \<longrightarrow> code_used b)"

definition family_le :: "token_family \<Rightarrow> token_family \<Rightarrow> bool" where
  "family_le a b \<longleftrightarrow> b = a\<lparr>tf_current_refresh_hash := tf_current_refresh_hash b,
       tf_refresh_expires_at := tf_refresh_expires_at b, tf_revoked := tf_revoked b\<rparr>
     \<and> (tf_revoked a \<longrightarrow> b = a)"

definition access_token_le :: "access_token \<Rightarrow> access_token \<Rightarrow> bool" where
  "access_token_le a b \<longleftrightarrow> b = a\<lparr>at_revoked := at_revoked b\<rparr> \<and> (at_revoked a \<longrightarrow> at_revoked b)"

definition par_le :: "par_request \<Rightarrow> par_request \<Rightarrow> bool" where
  "par_le a b \<longleftrightarrow> b = a\<lparr>par_used := par_used b\<rparr> \<and> (par_used a \<longrightarrow> par_used b)"

definition device_grant_le :: "device_authorization_grant \<Rightarrow> device_authorization_grant \<Rightarrow> bool" where
  "device_grant_le a b \<longleftrightarrow> b = a\<lparr>dag_user_id := dag_user_id b, dag_approved_at := dag_approved_at b,
       dag_last_poll_at := dag_last_poll_at b, dag_poll_interval_seconds := dag_poll_interval_seconds b,
       dag_consumed := dag_consumed b\<rparr>
     \<and> (dag_consumed a \<longrightarrow> dag_consumed b)"

definition backchannel_grant_le ::
    "backchannel_authentication_grant \<Rightarrow> backchannel_authentication_grant \<Rightarrow> bool" where
  "backchannel_grant_le a b \<longleftrightarrow> b = a\<lparr>bag_user_id := bag_user_id b, bag_approved_at := bag_approved_at b,
       bag_last_poll_at := bag_last_poll_at b, bag_poll_interval_seconds := bag_poll_interval_seconds b,
       bag_consumed := bag_consumed b\<rparr>
     \<and> (bag_consumed a \<longrightarrow> bag_consumed b)"

lemmas token_le_defs = session_le_def code_le_def family_le_def access_token_le_def par_le_def
  device_grant_le_def backchannel_grant_le_def

lemma token_le_refl [simp]:
  "session_le a a" "code_le b b" "family_le c c" "access_token_le d d" "par_le e e" "device_grant_le f f"
  "backchannel_grant_le g g"
  by (simp_all add: token_le_defs)

definition token_evolves :: "issue \<Rightarrow> store \<Rightarrow> store \<Rightarrow> bool" where
  "token_evolves lab s s' \<longleftrightarrow>
     evolves (\<lambda>k. lab = IssueSession k) session_le (st_sessions s) (st_sessions s')
     \<and> evolves (\<lambda>k. lab = IssueCode k) code_le (st_authorization_codes s) (st_authorization_codes s')
     \<and> evolves (\<lambda>k. lab = IssueFamily k) family_le (st_token_families s) (st_token_families s')
     \<and> evolves (\<lambda>k. lab = IssueAccessToken k) access_token_le (st_access_tokens s) (st_access_tokens s')
     \<and> evolves (\<lambda>k. lab = IssuePar k) par_le (st_par_requests s) (st_par_requests s')
     \<and> evolves (\<lambda>k. lab = IssueDeviceGrant k) device_grant_le
          (st_device_authorization_grants s) (st_device_authorization_grants s')
     \<and> evolves (\<lambda>k. lab = IssueBackchannelGrant k) backchannel_grant_le
          (st_backchannel_authentication_grants s) (st_backchannel_authentication_grants s')"

lemma token_evolves_refl [simp]: "token_evolves lab s s"
  by (simp add: token_evolves_def)

text \<open>The operations of this theory change nothing but these tables.\<close>

definition other_tables_kept :: "store \<Rightarrow> store \<Rightarrow> bool" where
  "other_tables_kept s s' \<longleftrightarrow> st_push s' = st_push s \<and> st_users s' = st_users s \<and> st_clients s' = st_clients s
     \<and> st_admin_approvals s' = st_admin_approvals s \<and> st_totp_credentials s' = st_totp_credentials s
     \<and> st_webauthn_credentials s' = st_webauthn_credentials s \<and> st_ssf_set_replay s' = st_ssf_set_replay s
     \<and> st_vc_credential_statuses s' = st_vc_credential_statuses s"

definition token_change :: "issue \<Rightarrow> store \<Rightarrow> store \<Rightarrow> bool" where
  "token_change lab s s' \<longleftrightarrow> token_evolves lab s s' \<and> other_tables_kept s s'"

lemmas token_change_defs = token_change_def token_evolves_def other_tables_kept_def

lemma token_change_refl [simp]: "token_change lab s s"
  by (simp add: token_change_def other_tables_kept_def)

lemma session_in_scope_Some:
  "session_in_scope i scope s = Some ses \<Longrightarrow> hm_get (st_sessions s) i = Some ses"
  by (auto simp: session_in_scope_def opt_filter_def split: option.splits if_splits)

lemma approve_device_evolves:
  assumes "filter p m = [(k, g)]"
  shows "evolves new device_grant_le m (hm_insert k (g\<lparr>dag_user_id := u, dag_approved_at := tm\<rparr>) m)"
proof (cases "hm_wf m")
  case True
  with assms filter_singleton_map_of show ?thesis by (intro evolves_insert [of m k g]) (auto simp: token_le_defs)
qed (simp add: evolves_def)

lemma rotation_change:
  "token_change lab (repo_store r) (repo_store (snd (update_token_family_refresh_hash io i realm old new deadline r)))"
  using rotation_store [of io i realm old new deadline r]
proof (elim disjE exE)
  fix prev
  assume "rotate_family i realm old new deadline (repo_store r) =
    Inr (repo_store (snd (update_token_family_refresh_hash io i realm old new deadline r)), prev)"
  then show ?thesis
    by (auto simp: rotate_family_Inr token_change_defs validate_token_family_rotation_def opt_filter_def token_le_defs
        intro!: evolves_insert split: option.splits if_splits)
qed simp

lemma session_op_change:
  "token_change (IssueSession (ses_id ses)) (repo_store r) (repo_store (snd (create_session io ses r)))"
  "token_change lab (repo_store r) (repo_store (snd (update_session_idle_expiry io i tm scope r)))"
  "token_change lab (repo_store r) (repo_store (snd (revoke_session io i scope r)))"
proof -
  show "token_change (IssueSession (ses_id ses)) (repo_store r) (repo_store (snd (create_session io ses r)))"
    unfolding create_session_def
    by (rule try_write_relates)
      (auto simp: token_change_defs validate_session_creation_def intro!: evolves_insert_new split: option.splits)
qed (auto simp: update_session_idle_expiry_def revoke_session_def Let_def token_change_defs token_le_defs
    dest!: session_in_scope_Some intro: evolves_insert split: option.splits)

lemma create_op_change:
  "token_change (IssueCode (code_code_hash code)) (repo_store r) (repo_store (snd (create_authorization_code io code r)))"
  "token_change (IssueFamily (tf_id family)) (repo_store r) (repo_store (snd (create_token_family io family r)))"
  "token_change (IssueAccessToken (at_jti token)) (repo_store r) (repo_store (snd (create_access_token io token r)))"
  "token_change (IssuePar (par_request_uri req)) (repo_store r) (repo_store (snd (store_par_request io req r)))"
  "token_change (IssueDeviceGrant (dag_device_code_hash grant)) (repo_store r)
     (repo_store (snd (store_device_authorization_grant io grant r)))"
  "token_change (IssueBackchannelGrant (bag_auth_req_id_hash bgrant)) (repo_store r)
     (repo_store (snd (store_backchannel_authentication_grant io bgrant r)))"
  unfolding create_authorization_code_def create_token_family_def create_access_token_def store_par_request_def
    store_device_authorization_grant_def store_backchannel_authentication_grant_def
  by (rule try_write_relates; auto simp: token_change_defs hm_contains_def insert_new_Inr par_request_identity_def
      device_grant_identity_def backchannel_grant_identity_def intro!: evolves_insert_new split: if_splits)+

lemma consume_op_change:
  "token_change lab (repo_store r) (repo_store (snd (mark_authorization_code_used io code r)))"
  "token_change lab (repo_store r) (repo_store (snd (mark_par_request_used io uri r)))"
  "token_change lab (repo_store r) (repo_store (snd (consume_device_authorization_grant io hash r)))"
  "token_change lab (repo_store r) (repo_store (snd (consume_backchannel_authentication_grant io hash r)))"
  "token_change lab (repo_store r) (repo_store (snd (approve_backchannel_authentication_grant io hash user tm r)))"
  "token_change lab (repo_store r) (repo_store (snd (approve_device_authorization_grant io ucode user tm r)))"
  unfolding mark_authorization_code_used_def mark_par_request_used_def consume_device_authorization_grant_def
    consume_backchannel_authentication_grant_def approve_backchannel_authentication_grant_def
    approve_device_authorization_grant_def
  by (rule try_write_relates; auto simp: token_change_defs opt_filter_def unique_match_Inr_Some token_le_defs
      approve_device_evolves intro: evolves_insert split: if_splits option.splits)+

lemma modify_op_change:
  "token_change lab (repo_store r) (repo_store (snd (revoke_token_family io i realm r)))"
  "token_change lab (repo_store r) (repo_store (snd (revoke_access_token io i realm r)))"
  "token_change lab (repo_store r) (repo_store (snd (record_device_authorization_poll io hash tm interval r)))"
  "token_change lab (repo_store r) (repo_store (snd (record_backchannel_authentication_poll io hash tm interval r)))"
  unfolding revoke_token_family_def revoke_access_token_def record_device_authorization_poll_def
    record_backchannel_authentication_poll_def map_write_store
  by (auto simp: token_change_defs token_le_defs intro!: evolves_modify)

lemma token_step_change: "token_step lab r r' \<Longrightarrow> token_change lab (repo_store r) (repo_store r')"
  by (induction rule: token_step.induct)
    (simp_all only: session_op_change create_op_change consume_op_change modify_op_change rotation_change)

end
