(* ===== verification/Qid_Identity.thy ===== *)
theory Qid_Identity
  imports Qid_Tokens
begin

text \<open>
  Users, password credentials, realms, clients, service accounts and stored policy bundles of the
  file repository: \<^verbatim>\<open>qid-storage/src/file/user.rs\<close>, \<^verbatim>\<open>realm.rs\<close>, \<^verbatim>\<open>client.rs\<close>,
  \<^verbatim>\<open>service_account.rs\<close> and \<^verbatim>\<open>policy.rs\<close>. The deletion of a user or of a realm takes the dependent
  authentication state with it (\<open>remove_auth_state\<close>, \<open>remove_realm\<close>).
\<close>

section \<open>Users\<close>

definition create_user :: "io \<Rightarrow> user \<Rightarrow> file_repository \<Rightarrow> unit result \<times> file_repository" where
  "create_user io u = try_write io (\<lambda>s.
     and_then (insert_new user_identity (st_users s) u) (\<lambda>m. Inr (s\<lparr>st_users := m\<rparr>, ())))"

definition get_user_by_id :: "string \<Rightarrow> file_repository \<Rightarrow> user option result" where
  "get_user_by_id i r = Inr (map_get (\<lambda>s. hm_get (st_users s) i) r)"

definition get_user_by_id_in_realm :: "string \<Rightarrow> string \<Rightarrow> file_repository \<Rightarrow> user option result" where
  "get_user_by_id_in_realm realm i r =
     and_then (get_user_by_id i r) (\<lambda>u. Inr (opt_filter (\<lambda>u. usr_realm_id u = realm) u))"

definition get_user_by_email :: "string \<Rightarrow> string \<Rightarrow> file_repository \<Rightarrow> user option result" where
  "get_user_by_email realm email r =
     unique_match (filter (\<lambda>u. usr_realm_id u = realm \<and> usr_email u = Some email)
         (hm_values (st_users (repo_store r))))
       ''ambiguous user realm/email identity''"

definition list_users_page :: "string \<Rightarrow> nat \<Rightarrow> nat \<Rightarrow> file_repository \<Rightarrow> user list result" where
  "list_users_page realm offset limit r =
     Inr (take limit (drop offset (sort_key usr_id
       (filter (\<lambda>u. usr_realm_id u = realm) (hm_values (st_users (repo_store r)))))))"

text \<open>The email another user of the realm already holds, if any.\<close>

definition email_held_by_another :: "store \<Rightarrow> user \<Rightarrow> string option" where
  "email_held_by_another s u =
     (case usr_email u of
        None \<Rightarrow> None
      | Some email \<Rightarrow>
          if list_ex (\<lambda>stored. usr_id stored \<noteq> usr_id u \<and> usr_realm_id stored = usr_realm_id u
                \<and> usr_email stored = Some email) (hm_values (st_users s))
          then Some email else None)"

definition user_email_conflict :: "string \<Rightarrow> string \<Rightarrow> qid_error" where
  "user_email_conflict email realm =
     Conflict (''user email '' @ email @ '' already exists in realm '' @ realm)"

definition update_user :: "io \<Rightarrow> user \<Rightarrow> string option \<Rightarrow> file_repository \<Rightarrow> unit result \<times> file_repository" where
  "update_user io u realm = try_write io (\<lambda>s.
     let incumbent = hm_get (st_users s) (usr_id u)
     in if (case realm of None \<Rightarrow> False
            | Some rl \<Rightarrow> none_or incumbent (\<lambda>stored. usr_realm_id stored \<noteq> rl))
        then Inl (NotFound (''user '' @ usr_id u))
        else (let u' = u\<lparr>usr_realm_id := (case incumbent of None \<Rightarrow> usr_realm_id u
                                            | Some stored \<Rightarrow> usr_realm_id stored)\<rparr>
              in case email_held_by_another s u' of
                   Some email \<Rightarrow> Inl (user_email_conflict email (usr_realm_id u'))
                 | None \<Rightarrow> Inr (s\<lparr>st_users := hm_insert (usr_id u') u' (st_users s)\<rparr>, ())))"

definition store_password_credential ::
    "io \<Rightarrow> password_credential \<Rightarrow> file_repository \<Rightarrow> unit result \<times> file_repository" where
  "store_password_credential io cred = map_write io (\<lambda>s.
     s\<lparr>st_credentials_password := hm_insert (pwc_user_id cred) cred (st_credentials_password s)\<rparr>)"

definition update_password_credential_in_realm ::
    "io \<Rightarrow> password_credential \<Rightarrow> string \<Rightarrow> file_repository \<Rightarrow> unit result \<times> file_repository" where
  "update_password_credential_in_realm io cred realm = try_write io (\<lambda>s.
     if none_or (hm_get (st_users s) (pwc_user_id cred)) (\<lambda>u. usr_realm_id u \<noteq> realm)
        \<or> \<not> hm_contains (st_credentials_password s) (pwc_user_id cred)
     then Inl (NotFound (''password credential '' @ pwc_user_id cred))
     else Inr (s\<lparr>st_credentials_password := hm_insert (pwc_user_id cred) cred (st_credentials_password s)\<rparr>, ()))"

definition get_password_credential :: "string \<Rightarrow> file_repository \<Rightarrow> password_credential option result" where
  "get_password_credential user r = Inr (hm_get (st_credentials_password (repo_store r)) user)"

section \<open>Removal of dependent state\<close>

text \<open>
  Rows go when their user is in \<open>users\<close> or their realm is the given one, and when they hang on a
  session or a token family that goes.
\<close>

definition gone :: "string set \<Rightarrow> string option \<Rightarrow> string \<Rightarrow> string \<Rightarrow> bool" where
  "gone users realm user owner \<longleftrightarrow> user \<in> users \<or> realm = Some owner"

definition removed_push :: "string set \<Rightarrow> string option \<Rightarrow> push_store \<Rightarrow> push_store" where
  "removed_push users realm p =
     (let authenticators = hm_retain (\<lambda>_ row. let a = record_authenticator row
            in \<not> gone users realm (pa_user_id a) (pa_realm_id a)) (ps_authenticators p);
          logins = hm_retain (\<lambda>_ c. \<not> gone users realm (plc_user_id c) (plc_realm_id c)) (ps_logins p)
      in \<lparr>ps_authenticators = authenticators,
          ps_logins = logins,
          ps_registration_issued_at = hm_retain (\<lambda>i _. hm_contains authenticators i) (ps_registration_issued_at p),
          ps_login_issued_at = hm_retain (\<lambda>i _. hm_contains logins i) (ps_login_issued_at p)\<rparr>)"

definition removed_sessions :: "string set \<Rightarrow> string option \<Rightarrow> store \<Rightarrow> string set" where
  "removed_sessions users realm s =
     set (map ses_id (filter (\<lambda>ses. gone users realm (ses_user_id ses) (ses_realm_id ses))
       (hm_values (st_sessions s))))"

definition hangs_on :: "string set \<Rightarrow> string option \<Rightarrow> bool" where
  "hangs_on ids link \<longleftrightarrow> (case link of None \<Rightarrow> False | Some i \<Rightarrow> i \<in> ids)"

definition removed_families :: "string set \<Rightarrow> string option \<Rightarrow> store \<Rightarrow> string set" where
  "removed_families users realm s =
     set (map tf_id (filter (\<lambda>f. gone users realm (tf_user_id f) (tf_realm_id f)
         \<or> hangs_on (removed_sessions users realm s) (tf_session_id f))
       (hm_values (st_token_families s))))"

definition remove_auth_state :: "string set \<Rightarrow> string option \<Rightarrow> store \<Rightarrow> store" where
  "remove_auth_state users realm s =
     (let sessions = removed_sessions users realm s;
          families = removed_families users realm s;
          in_realm = (\<lambda>owner. realm = Some owner)
      in s\<lparr>st_push := removed_push users realm (st_push s),
           st_authorization_codes := hm_retain (\<lambda>_ c. \<not> gone users realm (code_user_id c) (code_realm_id c)
             \<and> \<not> hangs_on sessions (code_session_id c)) (st_authorization_codes s),
           st_access_tokens := hm_retain (\<lambda>_ t. \<not> gone users realm (at_user_id t) (at_realm_id t)
             \<and> \<not> hangs_on families (at_family_id t)) (st_access_tokens s),
           st_token_families := hm_retain (\<lambda>fid _. fid \<notin> families) (st_token_families s),
           st_sessions := hm_retain (\<lambda>sid _. sid \<notin> sessions) (st_sessions s),
           st_webauthn_credentials := hm_retain (\<lambda>u _. u \<notin> users) (st_webauthn_credentials s),
           st_totp_credentials := hm_retain (\<lambda>_ c. totp_user_id c \<notin> users) (st_totp_credentials s),
           st_devices := hm_retain (\<lambda>_ d. \<not> gone users realm (dev_user_id d) (dev_realm_id d)) (st_devices s),
           st_device_authorization_grants := hm_retain (\<lambda>_ g. \<not> hangs_on users (dag_user_id g)
             \<and> \<not> in_realm (dag_realm_id g)) (st_device_authorization_grants s),
           st_backchannel_authentication_grants := hm_retain (\<lambda>_ g. \<not> hangs_on users (bag_user_id g)
             \<and> \<not> in_realm (bag_realm_id g)) (st_backchannel_authentication_grants s),
           st_users := hm_retain (\<lambda>u _. u \<notin> users) (st_users s),
           st_credentials_password := hm_retain (\<lambda>u _. u \<notin> users) (st_credentials_password s),
           st_ciam_profiles := hm_retain (\<lambda>_ p. \<not> gone users realm (cpp_user_id p) (cpp_realm_id p))
             (st_ciam_profiles s),
           st_ciam_consent_grants := hm_retain (\<lambda>_ g. \<not> gone users realm (ccg_user_id g) (ccg_realm_id g))
             (st_ciam_consent_grants s),
           st_ciam_verification_challenges :=
             hm_retain (\<lambda>_ c. \<not> gone users realm (cvc_user_id c) (cvc_realm_id c))
               (st_ciam_verification_challenges s),
           st_ciam_identity_links := hm_retain (\<lambda>_ l. \<not> gone users realm (cil_user_id l) (cil_realm_id l))
             (st_ciam_identity_links s),
           st_password_reset_tokens := hm_retain (\<lambda>_ t. \<not> gone users realm (prt_user_id t) (prt_realm_id t))
             (st_password_reset_tokens s)\<rparr>)"

definition delete_user :: "io \<Rightarrow> string \<Rightarrow> string option \<Rightarrow> file_repository \<Rightarrow> unit result \<times> file_repository" where
  "delete_user io i realm = try_write io (\<lambda>s.
     if (case realm of None \<Rightarrow> False
         | Some rl \<Rightarrow> none_or (hm_get (st_users s) i) (\<lambda>u. usr_realm_id u \<noteq> rl))
     then Inl (NotFound (''user '' @ i))
     else Inr (remove_auth_state {i} None s, ()))"

section \<open>Realms\<close>

definition remove_realm :: "string \<Rightarrow> store \<Rightarrow> store" where
  "remove_realm realm s =
     (let users = set (map usr_id (filter (\<lambda>u. usr_realm_id u = realm) (hm_values (st_users s))));
          s' = remove_auth_state users (Some realm) s
      in s'\<lparr>st_clients := hm_retain (\<lambda>_ v. cl_realm_id v \<noteq> realm) (st_clients s'),
            st_service_accounts := hm_retain (\<lambda>_ v. sa_realm_id v \<noteq> realm) (st_service_accounts s'),
            st_policy_bundles := hm_retain (\<lambda>_ v. spb_realm_id v \<noteq> realm) (st_policy_bundles s'),
            st_vc_credential_statuses := hm_retain (\<lambda>_ v. vcs_realm_id v \<noteq> realm) (st_vc_credential_statuses s'),
            st_par_requests := hm_retain (\<lambda>_ v. par_realm_id v \<noteq> realm) (st_par_requests s'),
            st_hr_receipts := hm_remove realm (st_hr_receipts s'),
            st_scim_users := hm_retain (\<lambda>_ v. su_realm_id v \<noteq> realm) (st_scim_users s'),
            st_scim_groups := hm_retain (\<lambda>_ v. sg_realm_id v \<noteq> realm) (st_scim_groups s'),
            st_scim_devices := hm_retain (\<lambda>_ v. sd_realm_id v \<noteq> realm) (st_scim_devices s'),
            st_scim_event_subscriptions := hm_retain (\<lambda>_ v. ses_sub_realm_id v \<noteq> realm)
              (st_scim_event_subscriptions s'),
            st_fedcm_identities := hm_retain (\<lambda>_ v. fed_realm_id v \<noteq> realm) (st_fedcm_identities s'),
            st_workload_identities := hm_retain (\<lambda>_ v. wi_realm_id v \<noteq> realm) (st_workload_identities s'),
            st_workload_certificates := hm_retain (\<lambda>_ v. wc_realm_id v \<noteq> realm) (st_workload_certificates s'),
            st_custom_domains := hm_retain (\<lambda>_ v. cd_realm_id v \<noteq> realm) (st_custom_domains s'),
            st_ciam_brands := hm_retain (\<lambda>_ v. cb_realm_id v \<noteq> realm) (st_ciam_brands s'),
            st_app_catalog_entries := hm_retain (\<lambda>_ v. ace_realm_id v \<noteq> realm) (st_app_catalog_entries s'),
            st_ssf_streams := hm_retain (\<lambda>_ v. ssf_realm_id v \<noteq> realm) (st_ssf_streams s'),
            st_ssf_set_replay := hm_retain (\<lambda>key _. \<not> starts_with key (realm @ [unit_separator]))
              (st_ssf_set_replay s'),
            st_realm_issuers := hm_remove realm (st_realm_issuers s'),
            st_realm_tenants := hm_remove realm (st_realm_tenants s')\<rparr>)"

definition create_realm ::
    "io \<Rightarrow> string \<Rightarrow> string \<Rightarrow> string \<Rightarrow> file_repository \<Rightarrow> unit result \<times> file_repository" where
  "create_realm io tenant realm issuer r =
     (let s = repo_store r
      in case reject_duplicate_id
             (hm_contains (st_realm_issuers s) realm \<or> hm_contains (st_realm_tenants s) realm
              \<or> list_ex (\<lambda>stored. stored = issuer) (hm_values (st_realm_issuers s)))
             ''realm ID or issuer already exists'' of
           Inl e \<Rightarrow> (Inl e, r)
         | Inr _ \<Rightarrow>
             (let base = remove_realm realm s;
                  candidate = base\<lparr>st_realm_issuers := hm_insert realm issuer (st_realm_issuers base),
                                   st_realm_tenants := hm_insert realm tenant (st_realm_tenants base)\<rparr>
              in case repo_flush_mode r of
                   Immediate \<Rightarrow> persist_candidate io candidate r
                 | Interval _ \<Rightarrow> (Inr (), r\<lparr>repo_store := candidate, repo_dirty := True\<rparr>)))"

definition delete_realm :: "io \<Rightarrow> string \<Rightarrow> string \<Rightarrow> file_repository \<Rightarrow> unit result \<times> file_repository" where
  "delete_realm io realm expected_tenant r =
     (if hm_get (st_realm_tenants (repo_store r)) realm \<noteq> Some expected_tenant then (Inr (), r)
      else (let candidate = remove_realm realm (repo_store r)
            in case repo_flush_mode r of
                 Immediate \<Rightarrow> persist_candidate io candidate r
               | Interval _ \<Rightarrow> (Inr (), r\<lparr>repo_store := candidate, repo_dirty := True\<rparr>)))"

definition get_realm_issuer :: "string \<Rightarrow> file_repository \<Rightarrow> string option result" where
  "get_realm_issuer realm r = Inr (hm_get (st_realm_issuers (repo_store r)) realm)"

definition get_realm_tenant :: "string \<Rightarrow> file_repository \<Rightarrow> string option result" where
  "get_realm_tenant realm r = Inr (hm_get (st_realm_tenants (repo_store r)) realm)"

definition list_realms :: "file_repository \<Rightarrow> (string \<times> string) list result" where
  "list_realms r = Inr (sort_key fst (st_realm_issuers (repo_store r)))"

section \<open>Clients, service accounts and policy bundles\<close>

definition create_client :: "io \<Rightarrow> client \<Rightarrow> file_repository \<Rightarrow> unit result \<times> file_repository" where
  "create_client io c = try_write io (\<lambda>s.
     and_then (insert_new client_identity (st_clients s) c) (\<lambda>m. Inr (s\<lparr>st_clients := m\<rparr>, ())))"

definition update_client :: "io \<Rightarrow> client \<Rightarrow> file_repository \<Rightarrow> unit result \<times> file_repository" where
  "update_client io c = try_write io (\<lambda>s.
     and_then (ensure_same_binding
         (map_option (\<lambda>stored. (cl_realm_id stored, cl_client_id stored)) (hm_get (st_clients s) (cl_id c)))
         (cl_realm_id c, cl_client_id c) ''client ID belongs to another identity'')
       (\<lambda>_. Inr (s\<lparr>st_clients := hm_insert (cl_id c) c (st_clients s)\<rparr>, ())))"

definition get_client_by_client_id :: "string \<Rightarrow> string \<Rightarrow> file_repository \<Rightarrow> client option result" where
  "get_client_by_client_id realm cid r =
     Inr (find (\<lambda>c. cl_realm_id c = realm \<and> cl_client_id c = cid) (hm_values (st_clients (repo_store r))))"

definition find_clients_by_client_id :: "string list \<Rightarrow> string \<Rightarrow> file_repository \<Rightarrow> client list result" where
  "find_clients_by_client_id realms cid r =
     Inr (filter (\<lambda>c. cl_client_id c = cid \<and> list_ex (\<lambda>rl. rl = cl_realm_id c) realms)
       (hm_values (st_clients (repo_store r))))"

definition list_clients_page :: "string \<Rightarrow> nat \<Rightarrow> nat \<Rightarrow> file_repository \<Rightarrow> client list result" where
  "list_clients_page realm offset limit r =
     Inr (take limit (drop offset (sort_key cl_id
       (filter (\<lambda>c. cl_realm_id c = realm) (hm_values (st_clients (repo_store r)))))))"

definition delete_client :: "io \<Rightarrow> string \<Rightarrow> string \<Rightarrow> file_repository \<Rightarrow> unit result \<times> file_repository" where
  "delete_client io realm i = map_write io (\<lambda>s.
     case hm_get (st_clients s) i of
       Some c \<Rightarrow> if cl_realm_id c = realm then s\<lparr>st_clients := hm_remove i (st_clients s)\<rparr> else s
     | None \<Rightarrow> s)"

definition create_service_account :: "io \<Rightarrow> service_account \<Rightarrow> file_repository \<Rightarrow> unit result \<times> file_repository" where
  "create_service_account io sa = try_write io (\<lambda>s.
     and_then (reject_duplicate_id
         (hm_contains (st_service_accounts s) (sa_id sa)
          \<or> list_ex (\<lambda>a. sa_realm_id a = sa_realm_id sa \<and> sa_client_id a = sa_client_id sa)
              (hm_values (st_service_accounts s)))
         ''service account ID or realm/client already exists'')
       (\<lambda>_. Inr (s\<lparr>st_service_accounts := hm_insert (sa_id sa) sa (st_service_accounts s)\<rparr>, ())))"

definition get_service_account_by_client_id ::
    "string \<Rightarrow> string \<Rightarrow> file_repository \<Rightarrow> service_account option result" where
  "get_service_account_by_client_id realm cid r =
     unique_match (filter (\<lambda>a. sa_realm_id a = realm \<and> sa_client_id a = cid)
         (hm_values (st_service_accounts (repo_store r))))
       ''ambiguous service account realm/client identity; repair externally''"

definition list_service_accounts :: "string \<Rightarrow> file_repository \<Rightarrow> service_account list result" where
  "list_service_accounts realm r =
     Inr (sort_key sa_id (filter (\<lambda>a. sa_realm_id a = realm) (hm_values (st_service_accounts (repo_store r)))))"

definition delete_service_account ::
    "io \<Rightarrow> string option \<Rightarrow> string \<Rightarrow> file_repository \<Rightarrow> unit result \<times> file_repository" where
  "delete_service_account io realm i = try_write io (\<lambda>s.
     if (case realm of None \<Rightarrow> False
         | Some rl \<Rightarrow> none_or (hm_get (st_service_accounts s) i) (\<lambda>a. sa_realm_id a \<noteq> rl))
     then Inl (NotFound (''service account '' @ i))
     else Inr (s\<lparr>st_service_accounts := hm_remove i (st_service_accounts s)\<rparr>, ()))"

definition create_policy_bundle ::
    "io \<Rightarrow> stored_policy_bundle \<Rightarrow> file_repository \<Rightarrow> unit result \<times> file_repository" where
  "create_policy_bundle io b = try_write io (\<lambda>s.
     and_then (insert_new policy_bundle_identity (st_policy_bundles s) b)
       (\<lambda>m. Inr (s\<lparr>st_policy_bundles := m\<rparr>, ())))"

definition get_active_policy_bundle :: "string \<Rightarrow> file_repository \<Rightarrow> stored_policy_bundle option result" where
  "get_active_policy_bundle realm r =
     Inr (find (\<lambda>b. spb_realm_id b = realm \<and> spb_active b) (hm_values (st_policy_bundles (repo_store r))))"

definition list_policy_bundles :: "string \<Rightarrow> file_repository \<Rightarrow> stored_policy_bundle list result" where
  "list_policy_bundles realm r =
     Inr (sort_key (\<lambda>b. - uint (spb_version b))
       (filter (\<lambda>b. spb_realm_id b = realm) (hm_values (st_policy_bundles (repo_store r)))))"

definition delete_policy_bundle :: "io \<Rightarrow> string \<Rightarrow> file_repository \<Rightarrow> unit result \<times> file_repository" where
  "delete_policy_bundle io i = map_write io (\<lambda>s. s\<lparr>st_policy_bundles := hm_remove i (st_policy_bundles s)\<rparr>)"

section \<open>Deletion is complete and precise\<close>

definition keyed :: "('v \<Rightarrow> string) \<Rightarrow> (string, 'v) hash_map \<Rightarrow> bool" where
  "keyed key m \<longleftrightarrow> hm_wf m \<and> (\<forall>k v. map_of m k = Some v \<longrightarrow> key v = k)"

text \<open>The tables are maps, and sessions, families and users are filed under their ids.\<close>

definition auth_tables_wf :: "store \<Rightarrow> bool" where
  "auth_tables_wf s \<longleftrightarrow>
     keyed ses_id (st_sessions s) \<and> keyed tf_id (st_token_families s) \<and> keyed usr_id (st_users s)
     \<and> hm_wf (st_authorization_codes s) \<and> hm_wf (st_access_tokens s)
     \<and> hm_wf (st_webauthn_credentials s) \<and> hm_wf (st_totp_credentials s) \<and> hm_wf (st_devices s)
     \<and> hm_wf (st_device_authorization_grants s) \<and> hm_wf (st_backchannel_authentication_grants s)
     \<and> hm_wf (st_credentials_password s) \<and> hm_wf (st_ciam_profiles s)
     \<and> hm_wf (st_ciam_consent_grants s) \<and> hm_wf (st_ciam_verification_challenges s)
     \<and> hm_wf (st_ciam_identity_links s) \<and> hm_wf (st_password_reset_tokens s)
     \<and> hm_wf (ps_authenticators (st_push s)) \<and> hm_wf (ps_logins (st_push s))"

definition has_row :: "(string, 'v) hash_map \<Rightarrow> (string \<Rightarrow> 'v \<Rightarrow> bool) \<Rightarrow> bool" where
  "has_row m p \<longleftrightarrow> (\<exists>k v. map_of m k = Some v \<and> p k v)"

definition mentions_user :: "string \<Rightarrow> store \<Rightarrow> bool" where
  "mentions_user u s \<longleftrightarrow>
     has_row (st_users s) (\<lambda>k _. k = u) \<or> has_row (st_credentials_password s) (\<lambda>k _. k = u)
     \<or> has_row (st_webauthn_credentials s) (\<lambda>k _. k = u)
     \<or> has_row (st_totp_credentials s) (\<lambda>_ c. totp_user_id c = u)
     \<or> has_row (st_sessions s) (\<lambda>_ ses. ses_user_id ses = u)
     \<or> has_row (st_authorization_codes s) (\<lambda>_ c. code_user_id c = u)
     \<or> has_row (st_token_families s) (\<lambda>_ f. tf_user_id f = u)
     \<or> has_row (st_access_tokens s) (\<lambda>_ t. at_user_id t = u)
     \<or> has_row (st_devices s) (\<lambda>_ d. dev_user_id d = u)
     \<or> has_row (st_device_authorization_grants s) (\<lambda>_ g. dag_user_id g = Some u)
     \<or> has_row (st_backchannel_authentication_grants s) (\<lambda>_ g. bag_user_id g = Some u)
     \<or> has_row (st_ciam_profiles s) (\<lambda>_ p. cpp_user_id p = u)
     \<or> has_row (st_ciam_consent_grants s) (\<lambda>_ g. ccg_user_id g = u)
     \<or> has_row (st_ciam_verification_challenges s) (\<lambda>_ c. cvc_user_id c = u)
     \<or> has_row (st_ciam_identity_links s) (\<lambda>_ l. cil_user_id l = u)
     \<or> has_row (st_password_reset_tokens s) (\<lambda>_ t. prt_user_id t = u)
     \<or> has_row (ps_authenticators (st_push s)) (\<lambda>_ a. pa_user_id (record_authenticator a) = u)
     \<or> has_row (ps_logins (st_push s)) (\<lambda>_ c. plc_user_id c = u)"

lemma keyed_values:
  assumes "keyed key m" "v \<in> set (hm_values m)"
  shows "map_of m (key v) = Some v"
  using assms by (auto simp: keyed_def hm_values_iff)

lemma in_removed_sessions:
  assumes "keyed ses_id (st_sessions s)"
  shows "i \<in> removed_sessions users realm s \<longleftrightarrow>
    (\<exists>ses. map_of (st_sessions s) i = Some ses \<and> gone users realm (ses_user_id ses) (ses_realm_id ses))"
  using assms keyed_values [OF assms]
  by (auto simp: removed_sessions_def keyed_def hm_values_iff)

lemma in_removed_families:
  assumes "keyed tf_id (st_token_families s)"
  shows "i \<in> removed_families users realm s \<longleftrightarrow>
    (\<exists>f. map_of (st_token_families s) i = Some f \<and> (gone users realm (tf_user_id f) (tf_realm_id f)
       \<or> hangs_on (removed_sessions users realm s) (tf_session_id f)))"
  using assms keyed_values [OF assms]
  by (auto simp: removed_families_def keyed_def hm_values_iff)

lemma remove_auth_state_complete:
  assumes "auth_tables_wf s" "u \<in> users"
  shows "\<not> mentions_user u (remove_auth_state users realm s)"
  using assms
  by (simp add: mentions_user_def has_row_def remove_auth_state_def removed_push_def Let_def
      auth_tables_wf_def in_removed_sessions in_removed_families keyed_def gone_def hangs_on_def
      split: option.splits) blast

lemma delete_user_store:
  assumes "delete_user io u realm r = (Inr (), r')"
  shows "repo_store r' = remove_auth_state {u} None (repo_store r)"
  using assms
  by (auto simp: delete_user_def try_write_def dest: commit_Inr split: if_splits option.splits)

definition example_user :: "string \<Rightarrow> string \<Rightarrow> user" where
  "example_user i realm = \<lparr>usr_id = i, usr_realm_id = realm, usr_email = None, usr_email_verified = False,
     usr_display_name = None, usr_failed_login_attempts = 0, usr_locked_until = None, usr_org = None\<rparr>"

definition example_session :: "string \<Rightarrow> string \<Rightarrow> string \<Rightarrow> session" where
  "example_session i realm u = \<lparr>ses_id = i, ses_realm_id = realm, ses_user_id = u, ses_auth_time = 0,
     ses_acr = None, ses_amr = [], ses_idle_expires_at = 10, ses_absolute_expires_at = 20,
     ses_revoked = False, ses_created_at = 0, ses_cnf = None\<rparr>"

definition example_accounts :: file_repository where
  "example_accounts = \<lparr>repo_store = empty_store\<lparr>
       st_users := [(''alice'', example_user ''alice'' ''corp''), (''bob'', example_user ''bob'' ''lab'')],
       st_sessions := [(''s1'', example_session ''s1'' ''corp'' ''alice''), (''s2'', example_session ''s2'' ''lab'' ''bob'')],
       st_token_families := [(''f1'', example_family\<lparr>tf_id := ''f1'', tf_user_id := ''alice'', tf_session_id := Some ''s1''\<rparr>),
         (''f2'', example_family\<lparr>tf_id := ''f2'', tf_user_id := ''bob'', tf_session_id := Some ''s2''\<rparr>)],
       st_realm_issuers := [(''corp'', ''https://corp''), (''lab'', ''https://lab'')],
       st_realm_tenants := [(''corp'', ''t1''), (''lab'', ''t2'')]\<rparr>,
     repo_disk = None, repo_dirty = False, repo_flush_mode = Immediate\<rparr>"

lemma example_accounts_wf: "auth_tables_wf (repo_store example_accounts)"
  by (simp add: example_accounts_def auth_tables_wf_def keyed_def hm_wf_def empty_store_def
      example_user_def example_session_def example_family_def split: if_splits)

definition links_kept :: "store \<Rightarrow> store \<Rightarrow> bool" where
  "links_kept s s' \<longleftrightarrow>
     (\<forall>i f sid. map_of (st_token_families s') i = Some f \<and> tf_session_id f = Some sid
        \<and> sid \<in> dom (map_of (st_sessions s)) \<longrightarrow> sid \<in> dom (map_of (st_sessions s')))
   \<and> (\<forall>i c sid. map_of (st_authorization_codes s') i = Some c \<and> code_session_id c = Some sid
        \<and> sid \<in> dom (map_of (st_sessions s)) \<longrightarrow> sid \<in> dom (map_of (st_sessions s')))
   \<and> (\<forall>i t fid. map_of (st_access_tokens s') i = Some t \<and> at_family_id t = Some fid
        \<and> fid \<in> dom (map_of (st_token_families s)) \<longrightarrow> fid \<in> dom (map_of (st_token_families s')))"

lemma example_delete_user:
  "delete_user None ''alice'' (Some ''corp'') example_accounts =
     (Inr (), snd (delete_user None ''alice'' (Some ''corp'') example_accounts))"
  by (simp add: delete_user_def try_write_def example_accounts_def example_user_def none_or_def commit_def save_def
      flush_store_def write_store_content_def)

text \<open>
  C4. Deleting a user deletes all of the user's authentication state: after a deletion that reports
  success no user row, credential, session, code, token, grant, device, consent, challenge, link or
  push record of that user is left in the store.
\<close>

theorem delete_user_complete:
  assumes "auth_tables_wf (repo_store r)" and "delete_user io u realm r = (Inr (), r')"
  shows "\<not> mentions_user u (repo_store r')"
  using remove_auth_state_complete [OF assms(1), of u "{u}" None] delete_user_store [OF assms(2)] by simp

theorem delete_user_complete_witness:
  "(let r' = snd (delete_user None ''alice'' (Some ''corp'') example_accounts)
    in auth_tables_wf (repo_store example_accounts) \<and> mentions_user ''alice'' (repo_store example_accounts)
       \<and> delete_user None ''alice'' (Some ''corp'') example_accounts = (Inr (), r')
       \<and> \<not> mentions_user ''alice'' (repo_store r'))"
  unfolding Let_def
  using delete_user_complete [OF example_accounts_wf example_delete_user] example_accounts_wf example_delete_user
  by (auto simp: mentions_user_def has_row_def example_accounts_def)

lemma remove_auth_state_tables:
  "st_sessions (remove_auth_state users realm s) =
     hm_retain (\<lambda>sid _. sid \<notin> removed_sessions users realm s) (st_sessions s)"
  "st_token_families (remove_auth_state users realm s) =
     hm_retain (\<lambda>fid _. fid \<notin> removed_families users realm s) (st_token_families s)"
  "st_authorization_codes (remove_auth_state users realm s) =
     hm_retain (\<lambda>_ c. \<not> gone users realm (code_user_id c) (code_realm_id c)
       \<and> \<not> hangs_on (removed_sessions users realm s) (code_session_id c)) (st_authorization_codes s)"
  "st_access_tokens (remove_auth_state users realm s) =
     hm_retain (\<lambda>_ t. \<not> gone users realm (at_user_id t) (at_realm_id t)
       \<and> \<not> hangs_on (removed_families users realm s) (at_family_id t)) (st_access_tokens s)"
  "st_users (remove_auth_state users realm s) = hm_retain (\<lambda>u _. u \<notin> users) (st_users s)"
  by (simp_all add: remove_auth_state_def Let_def)

lemma remove_auth_state_rows:
  assumes "auth_tables_wf s"
  shows "map_of (st_sessions (remove_auth_state users realm s)) i = Some ses \<longleftrightarrow>
      map_of (st_sessions s) i = Some ses \<and> \<not> gone users realm (ses_user_id ses) (ses_realm_id ses)"
    "map_of (st_token_families (remove_auth_state users realm s)) i = Some f \<longleftrightarrow>
      map_of (st_token_families s) i = Some f \<and> \<not> gone users realm (tf_user_id f) (tf_realm_id f)
      \<and> \<not> hangs_on (removed_sessions users realm s) (tf_session_id f)"
    "map_of (st_authorization_codes (remove_auth_state users realm s)) i = Some c \<longleftrightarrow>
      map_of (st_authorization_codes s) i = Some c \<and> \<not> gone users realm (code_user_id c) (code_realm_id c)
      \<and> \<not> hangs_on (removed_sessions users realm s) (code_session_id c)"
    "map_of (st_access_tokens (remove_auth_state users realm s)) i = Some t \<longleftrightarrow>
      map_of (st_access_tokens s) i = Some t \<and> \<not> gone users realm (at_user_id t) (at_realm_id t)
      \<and> \<not> hangs_on (removed_families users realm s) (at_family_id t)"
    "map_of (st_users (remove_auth_state users realm s)) i = Some w \<longleftrightarrow>
      map_of (st_users s) i = Some w \<and> i \<notin> users"
proof -
  from assms have wf: "hm_wf (st_sessions s)" "hm_wf (st_token_families s)" "hm_wf (st_authorization_codes s)"
    "hm_wf (st_access_tokens s)" "hm_wf (st_users s)"
    and keyed: "keyed ses_id (st_sessions s)" "keyed tf_id (st_token_families s)"
    by (simp_all add: auth_tables_wf_def keyed_def)
  show "map_of (st_sessions (remove_auth_state users realm s)) i = Some ses \<longleftrightarrow>
      map_of (st_sessions s) i = Some ses \<and> \<not> gone users realm (ses_user_id ses) (ses_realm_id ses)"
    using wf(1) by (auto simp: remove_auth_state_tables(1) in_removed_sessions [OF keyed(1)])
  show "map_of (st_token_families (remove_auth_state users realm s)) i = Some f \<longleftrightarrow>
      map_of (st_token_families s) i = Some f \<and> \<not> gone users realm (tf_user_id f) (tf_realm_id f)
      \<and> \<not> hangs_on (removed_sessions users realm s) (tf_session_id f)"
    using wf(2) by (auto simp: remove_auth_state_tables(2) in_removed_families [OF keyed(2)])
qed (use assms in \<open>simp_all add: remove_auth_state_tables(3-5) auth_tables_wf_def keyed_def\<close>)

lemma delete_user_rows:
  assumes "auth_tables_wf (repo_store r)" and "delete_user io u realm r = (Inr (), r')"
  defines "s \<equiv> repo_store r" and "s' \<equiv> repo_store r'"
  shows "map_of (st_sessions s') i = Some ses \<longleftrightarrow> map_of (st_sessions s) i = Some ses \<and> ses_user_id ses \<noteq> u"
    and "map_of (st_users s') i = Some w \<longleftrightarrow> map_of (st_users s) i = Some w \<and> i \<noteq> u"
    and "map_of (st_token_families s') i = Some f \<Longrightarrow> tf_session_id f = Some sid
      \<Longrightarrow> sid \<in> dom (map_of (st_sessions s)) \<Longrightarrow> sid \<in> dom (map_of (st_sessions s'))"
    and "map_of (st_authorization_codes s') i = Some c \<Longrightarrow> code_session_id c = Some sid
      \<Longrightarrow> sid \<in> dom (map_of (st_sessions s)) \<Longrightarrow> sid \<in> dom (map_of (st_sessions s'))"
    and "map_of (st_access_tokens s') i = Some t \<Longrightarrow> at_family_id t = Some fid
      \<Longrightarrow> fid \<in> dom (map_of (st_token_families s)) \<Longrightarrow> fid \<in> dom (map_of (st_token_families s'))"
proof -
  have s': "s' = remove_auth_state {u} None s"
    using assms(2) unfolding s_def s'_def
    by (auto simp: delete_user_def try_write_def dest: commit_Inr split: if_splits option.splits)
  note wf = assms(1) [folded s_def]
  note rows = remove_auth_state_rows [OF wf, of "{u}" None, folded s']
  have keyed: "keyed ses_id (st_sessions s)" "keyed tf_id (st_token_families s)"
    using wf by (simp_all add: auth_tables_wf_def)
  show "map_of (st_sessions s') i = Some ses \<longleftrightarrow> map_of (st_sessions s) i = Some ses \<and> ses_user_id ses \<noteq> u"
    and "map_of (st_users s') i = Some w \<longleftrightarrow> map_of (st_users s) i = Some w \<and> i \<noteq> u"
    by (simp_all add: rows gone_def)
  have session: "sid \<in> dom (map_of (st_sessions s'))"
    if "\<not> hangs_on (removed_sessions {u} None s) (Some sid)" "sid \<in> dom (map_of (st_sessions s))" for sid
    using that by (auto simp: rows hangs_on_def in_removed_sessions [OF keyed(1)] domIff)
  show "sid \<in> dom (map_of (st_sessions s'))"
    if "map_of (st_token_families s') i = Some f" "tf_session_id f = Some sid" "sid \<in> dom (map_of (st_sessions s))"
    using that session by (auto simp: rows)
  show "sid \<in> dom (map_of (st_sessions s'))"
    if "map_of (st_authorization_codes s') i = Some c" "code_session_id c = Some sid" "sid \<in> dom (map_of (st_sessions s))"
    using that session by (auto simp: rows)
  show "fid \<in> dom (map_of (st_token_families s'))"
    if "map_of (st_access_tokens s') i = Some t" "at_family_id t = Some fid" "fid \<in> dom (map_of (st_token_families s))"
    using that by (auto simp: rows hangs_on_def in_removed_families [OF keyed(2)] domIff)
qed

lemma delete_user_links:
  assumes "auth_tables_wf (repo_store r)" and "delete_user io u realm r = (Inr (), r')"
  shows "links_kept (repo_store r) (repo_store r')"
  unfolding links_kept_def using delete_user_rows(3-5) [OF assms] by blast

text \<open>
  C26. Deleting a user takes nothing that belongs to others, except what hangs on the user's own
  sessions and token families, and leaves no dangling link: a session, family, code or access token
  of another user goes only if it names a session or family that goes too, and the survivors' links
  that led to a session or a family before still do.
\<close>

theorem delete_user_precise:
  assumes "auth_tables_wf (repo_store r)" and "delete_user io u realm r = (Inr (), r')"
  shows "(\<forall>i ses. map_of (st_sessions (repo_store r')) i = Some ses \<longleftrightarrow>
           map_of (st_sessions (repo_store r)) i = Some ses \<and> ses_user_id ses \<noteq> u)
    \<and> (\<forall>i w. map_of (st_users (repo_store r')) i = Some w \<longleftrightarrow>
           map_of (st_users (repo_store r)) i = Some w \<and> i \<noteq> u)
    \<and> (\<forall>i f. map_of (st_token_families (repo_store r')) i = Some f \<longleftrightarrow>
           map_of (st_token_families (repo_store r)) i = Some f \<and> tf_user_id f \<noteq> u
           \<and> \<not> hangs_on (removed_sessions {u} None (repo_store r)) (tf_session_id f))
    \<and> links_kept (repo_store r) (repo_store r')"
  using delete_user_rows(1,2) [OF assms] delete_user_links [OF assms]
    remove_auth_state_rows(2) [OF assms(1), of "{u}" None, folded delete_user_store [OF assms(2)]]
  by (simp add: gone_def)

theorem delete_user_precise_witness:
  "(let r' = snd (delete_user None ''alice'' (Some ''corp'') example_accounts)
    in auth_tables_wf (repo_store example_accounts)
       \<and> delete_user None ''alice'' (Some ''corp'') example_accounts = (Inr (), r')
       \<and> map_of (st_sessions (repo_store r')) ''s1'' = None
       \<and> map_of (st_sessions (repo_store r')) ''s2'' = Some (example_session ''s2'' ''lab'' ''bob'')
       \<and> links_kept (repo_store example_accounts) (repo_store r'))"
proof -
  let ?r' = "snd (delete_user None ''alice'' (Some ''corp'') example_accounts)"
  have rows: "map_of (st_sessions (repo_store example_accounts)) ''s2'' = Some (example_session ''s2'' ''lab'' ''bob'')"
    "\<forall>ses. map_of (st_sessions (repo_store example_accounts)) ''s1'' = Some ses \<longrightarrow> ses_user_id ses = ''alice''"
    "ses_user_id (example_session ''s2'' ''lab'' ''bob'') \<noteq> ''alice''"
    by (auto simp: example_accounts_def example_session_def)
  note law = delete_user_precise [OF example_accounts_wf example_delete_user]
  from law have iff: "map_of (st_sessions (repo_store ?r')) i = Some ses \<longleftrightarrow>
      map_of (st_sessions (repo_store example_accounts)) i = Some ses \<and> ses_user_id ses \<noteq> ''alice''" for i ses
    by simp
  have "map_of (st_sessions (repo_store ?r')) ''s1'' = None"
    using iff [of "''s1''"] rows(2) by (cases "map_of (st_sessions (repo_store ?r')) ''s1''") auto
  moreover have "map_of (st_sessions (repo_store ?r')) ''s2'' = Some (example_session ''s2'' ''lab'' ''bob'')"
    using iff [of "''s2''"] rows(1,3) by simp
  ultimately show ?thesis
    unfolding Let_def using law example_accounts_wf example_delete_user by simp
qed

section \<open>Realms\<close>

definition realm_tables_wf :: "store \<Rightarrow> bool" where
  "realm_tables_wf s \<longleftrightarrow> auth_tables_wf s
     \<and> hm_wf (st_clients s) \<and> hm_wf (st_service_accounts s) \<and> hm_wf (st_policy_bundles s)
     \<and> hm_wf (st_vc_credential_statuses s) \<and> hm_wf (st_par_requests s) \<and> hm_wf (st_scim_users s)
     \<and> hm_wf (st_scim_groups s) \<and> hm_wf (st_scim_devices s) \<and> hm_wf (st_scim_event_subscriptions s)
     \<and> hm_wf (st_fedcm_identities s) \<and> hm_wf (st_workload_identities s)
     \<and> hm_wf (st_workload_certificates s) \<and> hm_wf (st_custom_domains s) \<and> hm_wf (st_ciam_brands s)
     \<and> hm_wf (st_app_catalog_entries s) \<and> hm_wf (st_ssf_streams s)"

definition mentions_realm :: "string \<Rightarrow> store \<Rightarrow> bool" where
  "mentions_realm rl s \<longleftrightarrow>
     has_row (st_users s) (\<lambda>_ v. usr_realm_id v = rl) \<or> has_row (st_sessions s) (\<lambda>_ v. ses_realm_id v = rl)
     \<or> has_row (st_authorization_codes s) (\<lambda>_ v. code_realm_id v = rl)
     \<or> has_row (st_token_families s) (\<lambda>_ v. tf_realm_id v = rl)
     \<or> has_row (st_access_tokens s) (\<lambda>_ v. at_realm_id v = rl)
     \<or> has_row (st_devices s) (\<lambda>_ v. dev_realm_id v = rl)
     \<or> has_row (st_device_authorization_grants s) (\<lambda>_ v. dag_realm_id v = rl)
     \<or> has_row (st_backchannel_authentication_grants s) (\<lambda>_ v. bag_realm_id v = rl)
     \<or> has_row (st_ciam_profiles s) (\<lambda>_ v. cpp_realm_id v = rl)
     \<or> has_row (st_ciam_consent_grants s) (\<lambda>_ v. ccg_realm_id v = rl)
     \<or> has_row (st_ciam_verification_challenges s) (\<lambda>_ v. cvc_realm_id v = rl)
     \<or> has_row (st_ciam_identity_links s) (\<lambda>_ v. cil_realm_id v = rl)
     \<or> has_row (st_password_reset_tokens s) (\<lambda>_ v. prt_realm_id v = rl)
     \<or> has_row (ps_authenticators (st_push s)) (\<lambda>_ v. pa_realm_id (record_authenticator v) = rl)
     \<or> has_row (ps_logins (st_push s)) (\<lambda>_ v. plc_realm_id v = rl)
     \<or> has_row (st_clients s) (\<lambda>_ v. cl_realm_id v = rl)
     \<or> has_row (st_service_accounts s) (\<lambda>_ v. sa_realm_id v = rl)
     \<or> has_row (st_policy_bundles s) (\<lambda>_ v. spb_realm_id v = rl)
     \<or> has_row (st_vc_credential_statuses s) (\<lambda>_ v. vcs_realm_id v = rl)
     \<or> has_row (st_par_requests s) (\<lambda>_ v. par_realm_id v = rl)
     \<or> has_row (st_hr_receipts s) (\<lambda>k _. k = rl)
     \<or> has_row (st_scim_users s) (\<lambda>_ v. su_realm_id v = rl)
     \<or> has_row (st_scim_groups s) (\<lambda>_ v. sg_realm_id v = rl)
     \<or> has_row (st_scim_devices s) (\<lambda>_ v. sd_realm_id v = rl)
     \<or> has_row (st_scim_event_subscriptions s) (\<lambda>_ v. ses_sub_realm_id v = rl)
     \<or> has_row (st_fedcm_identities s) (\<lambda>_ v. fed_realm_id v = rl)
     \<or> has_row (st_workload_identities s) (\<lambda>_ v. wi_realm_id v = rl)
     \<or> has_row (st_workload_certificates s) (\<lambda>_ v. wc_realm_id v = rl)
     \<or> has_row (st_custom_domains s) (\<lambda>_ v. cd_realm_id v = rl)
     \<or> has_row (st_ciam_brands s) (\<lambda>_ v. cb_realm_id v = rl)
     \<or> has_row (st_app_catalog_entries s) (\<lambda>_ v. ace_realm_id v = rl)
     \<or> has_row (st_ssf_streams s) (\<lambda>_ v. ssf_realm_id v = rl)
     \<or> has_row (st_realm_issuers s) (\<lambda>k _. k = rl) \<or> has_row (st_realm_tenants s) (\<lambda>k _. k = rl)"

lemma in_realm_users:
  assumes "keyed usr_id (st_users s)"
  shows "i \<in> set (map usr_id (filter (\<lambda>u. usr_realm_id u = rl) (hm_values (st_users s)))) \<longleftrightarrow>
    (\<exists>u. map_of (st_users s) i = Some u \<and> usr_realm_id u = rl)"
  using assms keyed_values [OF assms] by (auto simp: keyed_def hm_values_iff)

lemma remove_realm_auth_complete:
  assumes "realm_tables_wf s"
  shows "\<not> has_row (st_users (remove_realm rl s)) (\<lambda>_ v. usr_realm_id v = rl)"
    "\<not> has_row (st_sessions (remove_realm rl s)) (\<lambda>_ v. ses_realm_id v = rl)"
    "\<not> has_row (st_authorization_codes (remove_realm rl s)) (\<lambda>_ v. code_realm_id v = rl)"
    "\<not> has_row (st_token_families (remove_realm rl s)) (\<lambda>_ v. tf_realm_id v = rl)"
    "\<not> has_row (st_access_tokens (remove_realm rl s)) (\<lambda>_ v. at_realm_id v = rl)"
proof -
  have wf: "auth_tables_wf s" and users: "keyed usr_id (st_users s)"
    using assms by (simp_all add: realm_tables_wf_def auth_tables_wf_def)
  show "\<not> has_row (st_users (remove_realm rl s)) (\<lambda>_ v. usr_realm_id v = rl)"
    by (simp add: remove_realm_def Let_def has_row_def remove_auth_state_rows [OF wf] in_realm_users [OF users]
        del: set_map set_filter)
  show "\<not> has_row (st_sessions (remove_realm rl s)) (\<lambda>_ v. ses_realm_id v = rl)"
    "\<not> has_row (st_authorization_codes (remove_realm rl s)) (\<lambda>_ v. code_realm_id v = rl)"
    "\<not> has_row (st_token_families (remove_realm rl s)) (\<lambda>_ v. tf_realm_id v = rl)"
    "\<not> has_row (st_access_tokens (remove_realm rl s)) (\<lambda>_ v. at_realm_id v = rl)"
    by (auto simp add: remove_realm_def Let_def has_row_def remove_auth_state_rows [OF wf] gone_def)
qed

lemma remove_realm_complete:
  assumes "realm_tables_wf s"
  shows "\<not> mentions_realm rl (remove_realm rl s)"
  using assms
  by (auto simp: mentions_realm_def remove_realm_auth_complete)
    (auto simp add: has_row_def remove_realm_def remove_auth_state_def removed_push_def Let_def
        realm_tables_wf_def auth_tables_wf_def gone_def)

lemma realm_commit:
  assumes "(case repo_flush_mode r of Immediate \<Rightarrow> persist_candidate io candidate r
            | Interval _ \<Rightarrow> (Inr (), r\<lparr>repo_store := candidate, repo_dirty := True\<rparr>)) = (res, r')"
  shows "res = Inr () \<Longrightarrow> repo_store r' = candidate"
    and "res = Inl e \<Longrightarrow> repo_store r' = repo_store r"
  using assms
  by (auto simp: persist_candidate_def write_store_content_def split: file_flush_mode.splits option.splits)

lemma remove_realm_rows:
  assumes "realm_tables_wf s"
  shows "map_of (st_users (remove_realm rl s)) i = Some u \<longleftrightarrow>
      map_of (st_users s) i = Some u \<and> usr_realm_id u \<noteq> rl"
    "map_of (st_clients (remove_realm rl s)) i = Some c \<longleftrightarrow>
      map_of (st_clients s) i = Some c \<and> cl_realm_id c \<noteq> rl"
    "map_of (st_realm_issuers (remove_realm rl s)) i = (if i = rl then None else map_of (st_realm_issuers s) i)"
    "map_of (st_realm_tenants (remove_realm rl s)) i = (if i = rl then None else map_of (st_realm_tenants s) i)"
proof -
  have wf: "auth_tables_wf s" and users: "keyed usr_id (st_users s)" and cl: "hm_wf (st_clients s)"
    using assms by (simp_all add: realm_tables_wf_def auth_tables_wf_def)
  show "map_of (st_users (remove_realm rl s)) i = Some u \<longleftrightarrow>
      map_of (st_users s) i = Some u \<and> usr_realm_id u \<noteq> rl"
    by (auto simp add: remove_realm_def Let_def remove_auth_state_rows [OF wf] in_realm_users [OF users]
        simp del: set_map set_filter)
  show "map_of (st_clients (remove_realm rl s)) i = Some c \<longleftrightarrow>
      map_of (st_clients s) i = Some c \<and> cl_realm_id c \<noteq> rl"
    using cl by (simp add: remove_realm_def Let_def remove_auth_state_def)
  show "map_of (st_realm_issuers (remove_realm rl s)) i = (if i = rl then None else map_of (st_realm_issuers s) i)"
    "map_of (st_realm_tenants (remove_realm rl s)) i = (if i = rl then None else map_of (st_realm_tenants s) i)"
    by (simp_all add: remove_realm_def Let_def remove_auth_state_def delete_conv')
qed

lemma example_realms_wf: "realm_tables_wf (repo_store example_accounts)"
  using example_accounts_wf
  by (simp add: realm_tables_wf_def) (simp add: example_accounts_def hm_wf_def empty_store_def)



text \<open>
  A realm that exists is never overwritten: creating a realm whose identifier or issuer is in use
  is a conflict and changes nothing, and a successful creation gives the realm its issuer and tenant
  and starts it empty, whatever rows an earlier realm of that name had left behind.
\<close>

theorem create_realm_correct:
  assumes "realm_tables_wf (repo_store r)"
  shows "case create_realm io tenant rl issuer r of
      (Inl _, r') \<Rightarrow> repo_store r' = repo_store r
    | (Inr _, r') \<Rightarrow> get_realm_issuer rl r = Inr None \<and> get_realm_tenant rl r = Inr None
        \<and> issuer \<notin> set (hm_values (st_realm_issuers (repo_store r)))
        \<and> get_realm_issuer rl r' = Inr (Some issuer) \<and> get_realm_tenant rl r' = Inr (Some tenant)
        \<and> (\<forall>i u. map_of (st_users (repo_store r')) i = Some u \<longleftrightarrow>
             map_of (st_users (repo_store r)) i = Some u \<and> usr_realm_id u \<noteq> rl)
        \<and> (\<forall>i c. map_of (st_clients (repo_store r')) i = Some c \<longleftrightarrow>
             map_of (st_clients (repo_store r)) i = Some c \<and> cl_realm_id c \<noteq> rl)
        \<and> (\<forall>other. other \<noteq> rl \<longrightarrow> get_realm_issuer other r' = get_realm_issuer other r)"
proof -
  obtain res r' where run: "create_realm io tenant rl issuer r = (res, r')" by fastforce
  let ?used = "hm_contains (st_realm_issuers (repo_store r)) rl \<or> hm_contains (st_realm_tenants (repo_store r)) rl
    \<or> list_ex (\<lambda>stored. stored = issuer) (hm_values (st_realm_issuers (repo_store r)))"
  show ?thesis
  proof (cases ?used)
    case True
    with run show ?thesis by (auto simp: create_realm_def reject_duplicate_id_def Let_def)
  next
    case False
    then have free: "reject_duplicate_id ?used ''realm ID or issuer already exists'' = Inr ()"
      by (simp add: reject_duplicate_id_def)
    note step = run [unfolded create_realm_def Let_def free, simplified]
    show ?thesis
    proof (cases res)
      case (Inl e)
      with realm_commit(2) [OF step Inl] run show ?thesis by simp
    next
      case (Inr u)
      with realm_commit(1) [OF step] run False remove_realm_rows [OF assms, of rl] show ?thesis
        by (auto simp: get_realm_issuer_def get_realm_tenant_def hm_contains_def list_ex_iff update_conv')
    qed
  qed
qed

theorem create_realm_correct_witness:
  "realm_tables_wf (repo_store example_accounts)
   \<and> fst (create_realm None ''t1'' ''corp'' ''https://new'' example_accounts) =
        Inl (Conflict ''realm ID or issuer already exists'')
   \<and> fst (create_realm None ''t3'' ''ops'' ''https://ops'' example_accounts) = Inr ()
   \<and> get_realm_issuer ''ops'' (snd (create_realm None ''t3'' ''ops'' ''https://ops'' example_accounts)) =
        Inr (Some ''https://ops'')"
proof -
  have ok: "fst (create_realm None ''t3'' ''ops'' ''https://ops'' example_accounts) = Inr ()"
    and bad: "fst (create_realm None ''t1'' ''corp'' ''https://new'' example_accounts) =
        Inl (Conflict ''realm ID or issuer already exists'')"
    by (simp_all add: create_realm_def example_accounts_def reject_duplicate_id_def hm_contains_def hm_values_def
        persist_candidate_def write_store_content_def Let_def)
  from create_realm_correct [OF example_realms_wf, where io = None and tenant = "''t3''" and rl = "''ops''"
      and issuer = "''https://ops''"] ok
  have "get_realm_issuer ''ops'' (snd (create_realm None ''t3'' ''ops'' ''https://ops'' example_accounts)) =
      Inr (Some ''https://ops'')"
    by (auto split: prod.splits sum.splits)
  with ok bad example_realms_wf show ?thesis by simp
qed

section \<open>Steps of these tables\<close>

inductive identity_step :: "file_repository \<Rightarrow> file_repository \<Rightarrow> bool" where
  "identity_step r (snd (create_user io u r))"
| "identity_step r (snd (update_user io u realm r))"
| "identity_step r (snd (store_password_credential io cred r))"
| "identity_step r (snd (update_password_credential_in_realm io cred owner r))"
| "identity_step r (snd (delete_user io i realm r))"
| "identity_step r (snd (create_realm io tenant owner issuer r))"
| "identity_step r (snd (delete_realm io owner tenant r))"
| "identity_step r (snd (create_client io cl r))"
| "identity_step r (snd (update_client io cl r))"
| "identity_step r (snd (delete_client io owner i r))"
| "identity_step r (snd (create_service_account io sa r))"
| "identity_step r (snd (delete_service_account io realm i r))"
| "identity_step r (snd (create_policy_bundle io bundle r))"
| "identity_step r (snd (delete_policy_bundle io i r))"

text \<open>
  The tables that issue and revoke: a step leaves them as they are or drops rows of a user or a
  realm from all of them.
\<close>

definition auth_rows_kept :: "store \<Rightarrow> store \<Rightarrow> bool" where
  "auth_rows_kept s s' \<longleftrightarrow> token_evolves IssueNothing s s'
     \<and> (st_push s' = st_push s \<or> (\<exists>users realm. st_push s' = removed_push users realm (st_push s)))
     \<and> st_admin_approvals s' = st_admin_approvals s"

lemma auth_rows_kept_refl [simp]: "auth_rows_kept s s"
  by (simp add: auth_rows_kept_def)

lemma remove_auth_state_kept: "auth_rows_kept s (remove_auth_state users realm s)"
proof -
  have "st_push (remove_auth_state users realm s) = removed_push users realm (st_push s)"
    "st_admin_approvals (remove_auth_state users realm s) = st_admin_approvals s"
    by (simp_all add: remove_auth_state_def Let_def)
  moreover have "token_evolves IssueNothing s (remove_auth_state users realm s)"
    by (simp add: token_evolves_def remove_auth_state_def Let_def)
  ultimately show ?thesis by (auto simp: auth_rows_kept_def)
qed

lemma remove_realm_kept: "auth_rows_kept s (remove_realm realm s)"
proof -
  let ?users = "set (map usr_id (filter (\<lambda>u. usr_realm_id u = realm) (hm_values (st_users s))))"
  have "st_push (remove_realm realm s) = removed_push ?users (Some realm) (st_push s)"
    "st_admin_approvals (remove_realm realm s) = st_admin_approvals s"
    by (simp_all add: remove_realm_def remove_auth_state_def Let_def)
  moreover have "token_evolves IssueNothing s (remove_realm realm s)"
    by (simp add: token_evolves_def remove_realm_def remove_auth_state_def Let_def)
  ultimately show ?thesis by (auto simp: auth_rows_kept_def)
qed

lemma auth_rows_kept_realms:
  "auth_rows_kept s s' \<Longrightarrow> auth_rows_kept s (s'\<lparr>st_realm_issuers := issuers, st_realm_tenants := tenants\<rparr>)"
  by (simp add: auth_rows_kept_def token_evolves_def)

lemma realm_op_kept:
  "auth_rows_kept (repo_store r) (repo_store (snd (create_realm io tenant owner issuer r)))"
  "auth_rows_kept (repo_store r) (repo_store (snd (delete_realm io owner tenant r)))"
  "auth_rows_kept (repo_store r) (repo_store (snd (delete_user io i realm r)))"
proof -
  show "auth_rows_kept (repo_store r) (repo_store (snd (create_realm io tenant owner issuer r)))"
    "auth_rows_kept (repo_store r) (repo_store (snd (delete_realm io owner tenant r)))"
    by (simp_all add: create_realm_def delete_realm_def Let_def persist_candidate_def write_store_content_def
        remove_realm_kept auth_rows_kept_realms split: sum.splits file_flush_mode.splits option.splits)
  show "auth_rows_kept (repo_store r) (repo_store (snd (delete_user io i realm r)))"
    unfolding delete_user_def
    by (rule try_write_relates) (auto simp: remove_auth_state_kept split: if_splits)
qed

lemma account_op_kept:
  "auth_rows_kept (repo_store r) (repo_store (snd (create_user io u r)))"
  "auth_rows_kept (repo_store r) (repo_store (snd (update_user io u realm r)))"
  "auth_rows_kept (repo_store r) (repo_store (snd (update_password_credential_in_realm io cred owner r)))"
  "auth_rows_kept (repo_store r) (repo_store (snd (create_client io cl r)))"
  "auth_rows_kept (repo_store r) (repo_store (snd (update_client io cl r)))"
  "auth_rows_kept (repo_store r) (repo_store (snd (create_service_account io sa r)))"
  "auth_rows_kept (repo_store r) (repo_store (snd (create_policy_bundle io bundle r)))"
  "auth_rows_kept (repo_store r) (repo_store (snd (delete_service_account io realm i r)))"
  unfolding create_user_def update_user_def update_password_credential_in_realm_def create_client_def
    update_client_def create_service_account_def create_policy_bundle_def delete_service_account_def
  by (rule try_write_relates; auto simp: auth_rows_kept_def token_evolves_def Let_def split: if_splits option.splits)+

lemma table_op_kept:
  "auth_rows_kept (repo_store r) (repo_store (snd (store_password_credential io cred r)))"
  "auth_rows_kept (repo_store r) (repo_store (snd (delete_client io owner i r)))"
  "auth_rows_kept (repo_store r) (repo_store (snd (delete_policy_bundle io i r)))"
  by (simp_all add: store_password_credential_def delete_client_def delete_policy_bundle_def
      auth_rows_kept_def token_evolves_def split: option.splits)

lemma identity_step_kept: "identity_step r r' \<Longrightarrow> auth_rows_kept (repo_store r) (repo_store r')"
  by (induction rule: identity_step.induct) (simp_all only: account_op_kept realm_op_kept table_op_kept)

end
