(* ===== verification/Qid_Credentials.thy ===== *)
theory Qid_Credentials
  imports Qid_Identity
begin

text \<open>
  The credential, administrator, security-event, device, verifiable-credential and FedCM tables:
  \<^verbatim>\<open>file/credential.rs\<close>, \<^verbatim>\<open>admin.rs\<close>, \<^verbatim>\<open>ssf.rs\<close>, \<^verbatim>\<open>device.rs\<close>, \<^verbatim>\<open>vc.rs\<close> and \<^verbatim>\<open>fedcm.rs\<close> of
  \<^verbatim>\<open>qid-storage\<close>. Shown: a WebAuthn credential has one owner and its counter never goes back, a
  one-time-password step and a security-event token are accepted once, revocation is final.
\<close>

section \<open>WebAuthn credentials\<close>

definition get_webauthn_credentials :: "string \<Rightarrow> file_repository \<Rightarrow> webauthn_credential list result" where
  "get_webauthn_credentials user r =
     (let credentials = st_webauthn_credentials (repo_store r)
      in and_then (reject_duplicate_id (\<not> distinct (map wac_credential_id (concat (hm_values credentials))))
             ''ambiguous WebAuthn credential ID; repair externally'') (\<lambda>_.
           Inr (case hm_get credentials user of None \<Rightarrow> [] | Some cs \<Rightarrow> cs)))"

definition store_webauthn_credential ::
    "io \<Rightarrow> webauthn_credential \<Rightarrow> file_repository \<Rightarrow> unit result \<times> file_repository" where
  "store_webauthn_credential io cred = try_write io (\<lambda>s.
     let credentials = st_webauthn_credentials s
     in and_then (reject_duplicate_id
            (list_ex (\<lambda>c. wac_id c = wac_id cred \<or> wac_credential_id c = wac_credential_id cred)
              (concat (hm_values credentials)))
            (''WebAuthn credential ID conflicts for record '' @ wac_id cred)) (\<lambda>_.
          Inr (s\<lparr>st_webauthn_credentials := hm_insert (wac_user_id cred)
                   ((case hm_get credentials (wac_user_id cred) of None \<Rightarrow> [] | Some cs \<Rightarrow> cs) @ [cred]) credentials\<rparr>,
               ())))"

text \<open>The first credential of the list with the identifier takes the larger counter.\<close>

fun raise_counter :: "string \<Rightarrow> u64 \<Rightarrow> webauthn_credential list \<Rightarrow> webauthn_credential list" where
  "raise_counter i counter [] = []"
| "raise_counter i counter (c # cs) =
     (if wac_id c = i then c\<lparr>wac_counter := max (wac_counter c) counter\<rparr> # cs
      else c # raise_counter i counter cs)"

definition update_webauthn_credential_counter ::
    "io \<Rightarrow> string \<Rightarrow> string \<Rightarrow> u64 \<Rightarrow> file_repository \<Rightarrow> unit result \<times> file_repository" where
  "update_webauthn_credential_counter io user i counter = map_write io (\<lambda>s.
     s\<lparr>st_webauthn_credentials := hm_modify user (raise_counter i counter) (st_webauthn_credentials s)\<rparr>)"

definition delete_webauthn_credential ::
    "io \<Rightarrow> string \<Rightarrow> string \<Rightarrow> file_repository \<Rightarrow> unit result \<times> file_repository" where
  "delete_webauthn_credential io user i = map_write io (\<lambda>s.
     s\<lparr>st_webauthn_credentials := hm_modify user (filter (\<lambda>c. wac_id c \<noteq> i)) (st_webauthn_credentials s)\<rparr>)"

section \<open>Time-based one-time passwords\<close>

text \<open>The order of \<^verbatim>\<open>Option\<close>: \<^verbatim>\<open>None\<close> is below every \<^verbatim>\<open>Some\<close>.\<close>

fun opt_le :: "u64 option \<Rightarrow> u64 option \<Rightarrow> bool" where
  "opt_le None _ = True"
| "opt_le (Some a) None = False"
| "opt_le (Some a) (Some b) = (a \<le> b)"

definition opt_max :: "u64 option \<Rightarrow> u64 option \<Rightarrow> u64 option" where
  "opt_max a b = (if opt_le a b then b else a)"

definition replace_preserving_last_used_step :: "totp_credential \<Rightarrow> totp_credential \<Rightarrow> totp_credential" where
  "replace_preserving_last_used_step replacement stored =
     replacement\<lparr>totp_last_used_step := opt_max (totp_last_used_step stored) (totp_last_used_step replacement)\<rparr>"

definition store_totp_credential ::
    "io \<Rightarrow> totp_credential \<Rightarrow> file_repository \<Rightarrow> unit result \<times> file_repository" where
  "store_totp_credential io cred = try_write io (\<lambda>s.
     and_then (ensure_same_binding (map_option totp_user_id (hm_get (st_totp_credentials s) (totp_id cred)))
         (totp_user_id cred) (''TOTP credential ID '' @ totp_id cred @ '' belongs to another user'')) (\<lambda>_.
       Inr (s\<lparr>st_totp_credentials := hm_insert (totp_id cred)
                (case hm_get (st_totp_credentials s) (totp_id cred) of
                   Some stored \<Rightarrow> replace_preserving_last_used_step cred stored
                 | None \<Rightarrow> cred) (st_totp_credentials s)\<rparr>, ())))"

definition get_totp_credential :: "string \<Rightarrow> file_repository \<Rightarrow> totp_credential option result" where
  "get_totp_credential user r =
     Inr (map_get (\<lambda>s. find (\<lambda>c. totp_user_id c = user) (hm_values (st_totp_credentials s))) r)"

definition consume_totp_step ::
    "io \<Rightarrow> totp_credential \<Rightarrow> u64 \<Rightarrow> file_repository \<Rightarrow> bool result \<times> file_repository" where
  "consume_totp_step io cred step r =
     (let s = repo_store r
      in case hm_get (st_totp_credentials s) (totp_id cred) of
           None \<Rightarrow> (Inr False, r)
         | Some stored \<Rightarrow>
             if totp_user_id stored \<noteq> totp_user_id cred \<or> opt_le (Some step) (totp_last_used_step stored)
             then (Inr False, r)
             else commit io (s\<lparr>st_totp_credentials := hm_insert (totp_id cred)
                    (stored\<lparr>totp_last_used_step := Some step\<rparr>) (st_totp_credentials s)\<rparr>) True r)"

section \<open>Administrators\<close>

definition get_admin :: "string \<Rightarrow> string \<Rightarrow> file_repository \<Rightarrow> admin option result" where
  "get_admin tenant subject r =
     unique_match (filter (\<lambda>a. adm_tenant_id a = tenant \<and> adm_subject a = subject)
       (hm_values (st_admins (repo_store r)))) ''ambiguous admin identity''"

definition get_admin_by_id :: "string \<Rightarrow> file_repository \<Rightarrow> admin option result" where
  "get_admin_by_id i r = Inr (map_get (\<lambda>s. hm_get (st_admins s) i) r)"

text \<open>
  The incumbent is changed in place, under the key it is stored with; the model finds it together
  with its key.
\<close>

definition upsert_admin :: "io \<Rightarrow> admin \<Rightarrow> file_repository \<Rightarrow> unit result \<times> file_repository" where
  "upsert_admin io adm = try_write io (\<lambda>s.
     and_then (unique_match (filter (\<lambda>(k, a). adm_tenant_id a = adm_tenant_id adm \<and> adm_subject a = adm_subject adm)
         (st_admins s)) ''ambiguous admin identity'') (\<lambda>found.
       Inr (case found of
              Some (k, incumbent) \<Rightarrow>
                s\<lparr>st_admins := hm_insert k (incumbent\<lparr>adm_roles := adm_roles adm\<rparr>) (st_admins s)\<rparr>
            | None \<Rightarrow> s\<lparr>st_admins := hm_insert (adm_id adm) adm (st_admins s)\<rparr>, ())))"

definition get_admin_elevation :: "string \<Rightarrow> file_repository \<Rightarrow> admin_elevation option result" where
  "get_admin_elevation i r = Inr (map_get (\<lambda>s. hm_get (st_admin_elevations s) i) r)"

definition store_admin_elevation ::
    "io \<Rightarrow> admin_elevation \<Rightarrow> file_repository \<Rightarrow> unit result \<times> file_repository" where
  "store_admin_elevation io elevation = try_write io (\<lambda>s.
     and_then (reject_duplicate_id (hm_contains (st_admin_elevations s) (elv_id elevation))
         (''Admin elevation ID '' @ elv_id elevation @ '' already exists'')) (\<lambda>_.
       Inr (s\<lparr>st_admin_elevations := hm_insert (elv_id elevation) elevation (st_admin_elevations s)\<rparr>, ())))"

definition get_admin_approval :: "string \<Rightarrow> file_repository \<Rightarrow> admin_approval option result" where
  "get_admin_approval i r = Inr (map_get (\<lambda>s. hm_get (st_admin_approvals s) i) r)"

definition store_admin_approval ::
    "io \<Rightarrow> admin_approval \<Rightarrow> file_repository \<Rightarrow> unit result \<times> file_repository" where
  "store_admin_approval io approval = try_write io (\<lambda>s.
     and_then (reject_duplicate_id (hm_contains (st_admin_approvals s) (app_id approval))
         (''Admin approval ID '' @ app_id approval @ '' already exists'')) (\<lambda>_.
       Inr (s\<lparr>st_admin_approvals := hm_insert (app_id approval) approval (st_admin_approvals s)\<rparr>, ())))"

definition consume_admin_approval_if_unconsumed ::
    "io \<Rightarrow> string \<Rightarrow> file_repository \<Rightarrow> bool result \<times> file_repository" where
  "consume_admin_approval_if_unconsumed io i r =
     (let s = repo_store r
      in case opt_filter (\<lambda>a. \<not> app_consumed a) (hm_get (st_admin_approvals s) i) of
           None \<Rightarrow> (Inr False, r)
         | Some approval \<Rightarrow>
             commit io (s\<lparr>st_admin_approvals := hm_insert i (approval\<lparr>app_consumed := True\<rparr>)
               (st_admin_approvals s)\<rparr>) True r)"

section \<open>Security-event streams\<close>

definition upsert_ssf_stream :: "io \<Rightarrow> ssf_stream_record \<Rightarrow> file_repository \<Rightarrow> unit result \<times> file_repository" where
  "upsert_ssf_stream io stream = map_write io (\<lambda>s.
     s\<lparr>st_ssf_streams := hm_insert (ssf_stream_key (ssf_realm_id stream) (ssf_stream_id stream)) stream
         (st_ssf_streams s)\<rparr>)"

definition list_ssf_streams :: "string \<Rightarrow> file_repository \<Rightarrow> ssf_stream_record list result" where
  "list_ssf_streams realm r =
     Inr (filter (\<lambda>stream. ssf_realm_id stream = realm) (hm_values (st_ssf_streams (repo_store r))))"

definition get_ssf_stream :: "string \<Rightarrow> string \<Rightarrow> file_repository \<Rightarrow> ssf_stream_record option result" where
  "get_ssf_stream realm stream r = Inr (hm_get (st_ssf_streams (repo_store r)) (ssf_stream_key realm stream))"

definition delete_ssf_stream :: "io \<Rightarrow> string \<Rightarrow> string \<Rightarrow> file_repository \<Rightarrow> bool result \<times> file_repository" where
  "delete_ssf_stream io realm stream r =
     (let s = repo_store r; key = ssf_stream_key realm stream
      in if hm_contains (st_ssf_streams s) key
         then commit io (s\<lparr>st_ssf_streams := hm_remove key (st_ssf_streams s)\<rparr>) True r
         else (Inr False, r))"

text \<open>Expired entries leave the memory image even when the token is refused and nothing is saved.\<close>

definition record_ssf_set_jti ::
    "io \<Rightarrow> string \<Rightarrow> string \<Rightarrow> string \<Rightarrow> string \<Rightarrow> u64 \<Rightarrow> u64 \<Rightarrow> file_repository \<Rightarrow> bool result \<times> file_repository" where
  "record_ssf_set_jti io realm issuer stream jti expires_at now r =
     (let s = repo_store r;
          live = hm_retain (\<lambda>_ expiry. now < expiry) (st_ssf_set_replay s);
          key = ssf_set_replay_key realm issuer stream jti
      in if hm_contains live key then (Inr False, r\<lparr>repo_store := s\<lparr>st_ssf_set_replay := live\<rparr>\<rparr>)
         else commit io (s\<lparr>st_ssf_set_replay := hm_insert key (min expires_at (2 ^ 63 - 1)) live\<rparr>) True r)"

section \<open>Devices\<close>

definition register_device :: "io \<Rightarrow> device \<Rightarrow> file_repository \<Rightarrow> unit result \<times> file_repository" where
  "register_device io dev = try_write io (\<lambda>s.
     and_then (reject_duplicate_id (hm_contains (st_devices s) (dev_id dev))
         (''device record ID '' @ dev_id dev @ '' already exists'')) (\<lambda>_.
       Inr (s\<lparr>st_devices := hm_insert (dev_id dev) dev (st_devices s)\<rparr>, ())))"

definition get_device :: "string \<Rightarrow> file_repository \<Rightarrow> device option result" where
  "get_device i r = Inr (map_get (\<lambda>s. hm_get (st_devices s) i) r)"

definition get_user_devices :: "string \<Rightarrow> file_repository \<Rightarrow> device list result" where
  "get_user_devices user r =
     Inr (sort_key dev_registered_at (filter (\<lambda>d. dev_user_id d = user) (hm_values (st_devices (repo_store r)))))"

definition update_device_last_seen :: "io \<Rightarrow> device \<Rightarrow> file_repository \<Rightarrow> unit result \<times> file_repository" where
  "update_device_last_seen io dev = map_write io (\<lambda>s.
     s\<lparr>st_devices := hm_modify (dev_id dev) (\<lambda>stored.
         if dev_realm_id stored = dev_realm_id dev \<and> dev_user_id stored = dev_user_id dev
         then stored\<lparr>dev_last_seen_at := max (dev_last_seen_at stored) (dev_last_seen_at dev)\<rparr>
         else stored) (st_devices s)\<rparr>)"

section \<open>Status of verifiable credentials\<close>

definition store_vc_credential_status ::
    "io \<Rightarrow> vc_credential_status_record \<Rightarrow> file_repository \<Rightarrow> unit result \<times> file_repository" where
  "store_vc_credential_status io status = try_write io (\<lambda>s.
     if hm_contains (st_vc_credential_statuses s) (vcs_credential_id status)
     then Inl (Storage (''duplicate vc credential status '' @ vcs_credential_id status))
     else Inr (s\<lparr>st_vc_credential_statuses :=
            hm_insert (vcs_credential_id status) status (st_vc_credential_statuses s)\<rparr>, ()))"

definition get_vc_credential_status :: "string \<Rightarrow> file_repository \<Rightarrow> vc_credential_status_record option result" where
  "get_vc_credential_status i r = Inr (hm_get (st_vc_credential_statuses (repo_store r)) i)"

definition revoke_vc_credential ::
    "io \<Rightarrow> string \<Rightarrow> string \<Rightarrow> u64 \<Rightarrow> file_repository \<Rightarrow> unit result \<times> file_repository" where
  "revoke_vc_credential io i reason revoked_at = try_write io (\<lambda>s.
     case hm_get (st_vc_credential_statuses s) i of
       None \<Rightarrow> Inl (NotFound ''VC credential status'')
     | Some status \<Rightarrow> Inr (s\<lparr>st_vc_credential_statuses := hm_insert i
            (status\<lparr>vcs_revoked := True, vcs_revocation_reason := Some reason, vcs_revoked_at := Some revoked_at\<rparr>)
            (st_vc_credential_statuses s)\<rparr>, ()))"

section \<open>FedCM identities\<close>

definition store_fedcm_identity :: "io \<Rightarrow> fedcm_identity \<Rightarrow> file_repository \<Rightarrow> unit result \<times> file_repository" where
  "store_fedcm_identity io identity = try_write io (\<lambda>s.
     and_then (reject_duplicate_id (hm_contains (st_fedcm_identities s) (fed_id identity))
         (''fedcm identity record ID '' @ fed_id identity @ '' already exists'')) (\<lambda>_.
       Inr (s\<lparr>st_fedcm_identities := hm_insert (fed_id identity) identity (st_fedcm_identities s)\<rparr>, ())))"

definition get_fedcm_identities :: "string \<Rightarrow> string \<Rightarrow> file_repository \<Rightarrow> fedcm_identity list result" where
  "get_fedcm_identities realm account r =
     Inr (sort_key fed_id (filter (\<lambda>i. fed_realm_id i = realm \<and> fed_account_id i = account)
       (hm_values (st_fedcm_identities (repo_store r)))))"

definition delete_fedcm_identity :: "io \<Rightarrow> string \<Rightarrow> file_repository \<Rightarrow> unit result \<times> file_repository" where
  "delete_fedcm_identity io i = map_write io (\<lambda>s. s\<lparr>st_fedcm_identities := hm_remove i (st_fedcm_identities s)\<rparr>)"

section \<open>Steps of these tables\<close>

inductive credential_step :: "file_repository \<Rightarrow> file_repository \<Rightarrow> bool" where
  "credential_step r (snd (store_webauthn_credential io cred r))"
| "credential_step r (snd (update_webauthn_credential_counter io user i counter r))"
| "credential_step r (snd (delete_webauthn_credential io user i r))"
| "credential_step r (snd (store_totp_credential io totp r))"
| "credential_step r (snd (consume_totp_step io totp st r))"
| "credential_step r (snd (upsert_admin io adm r))"
| "credential_step r (snd (store_admin_elevation io elevation r))"
| "credential_step r (snd (store_admin_approval io approval r))"
| "credential_step r (snd (consume_admin_approval_if_unconsumed io i r))"
| "credential_step r (snd (upsert_ssf_stream io stream r))"
| "credential_step r (snd (delete_ssf_stream io realm sid r))"
| "credential_step r (snd (register_device io dev r))"
| "credential_step r (snd (update_device_last_seen io dev r))"
| "credential_step r (snd (store_vc_credential_status io status r))"
| "credential_step r (snd (revoke_vc_credential io i reason t r))"
| "credential_step r (snd (store_fedcm_identity io identity r))"
| "credential_step r (snd (delete_fedcm_identity io i r))"

subsection \<open>WebAuthn credentials\<close>

text \<open>Every credential is stored under its owner, and no two have a record or credential identifier in common.\<close>

definition tagged_unique :: "('v \<Rightarrow> 'i) \<Rightarrow> ('k \<rightharpoonup> 'v list) \<Rightarrow> bool" where
  "tagged_unique f m \<longleftrightarrow> (\<forall>k vs. m k = Some vs \<longrightarrow> distinct (map f vs)
     \<and> (\<forall>k' vs'. m k' = Some vs' \<and> k' \<noteq> k \<longrightarrow> f ` set vs \<inter> f ` set vs' = {}))"

lemma tagged_uniqueD:
  assumes "tagged_unique f m" "m k = Some vs"
  shows "distinct (map f vs)" "m k' = Some vs' \<Longrightarrow> k' \<noteq> k \<Longrightarrow> f ` set vs \<inter> f ` set vs' = {}"
  using assms unfolding tagged_unique_def by simp_all

lemma tagged_uniqueI:
  assumes "\<And>k vs. m k = Some vs \<Longrightarrow> distinct (map f vs)"
    and "\<And>k vs k' vs'. m k = Some vs \<Longrightarrow> m k' = Some vs' \<Longrightarrow> k' \<noteq> k \<Longrightarrow> f ` set vs \<inter> f ` set vs' = {}"
  shows "tagged_unique f m"
  unfolding tagged_unique_def
proof (intro allI impI conjI)
  show "distinct (map f vs)" if "m k = Some vs" for k vs using assms(1) [OF that] .
  show "f ` set vs \<inter> f ` set vs' = {}" if "m k = Some vs" "m k' = Some vs' \<and> k' \<noteq> k" for k vs k' vs'
    using assms(2) that by blast
qed

lemma tagged_unique_upd:
  assumes "m k = None"
  shows "tagged_unique f (m(k \<mapsto> vs)) \<longleftrightarrow>
    distinct (map f vs) \<and> tagged_unique f m \<and> (\<forall>k' vs'. m k' = Some vs' \<longrightarrow> f ` set vs \<inter> f ` set vs' = {})"
    (is "?lhs \<longleftrightarrow> ?rhs")
proof
  assume lhs: ?lhs
  have other: "(m(k \<mapsto> vs)) k' = Some vs'" "k' \<noteq> k" if "m k' = Some vs'" for k' vs'
    using that assms by auto
  have self: "(m(k \<mapsto> vs)) k = Some vs" by simp
  from lhs have "tagged_unique f m"
    by (intro tagged_uniqueI) (blast dest: other tagged_uniqueD [OF lhs])+
  then show ?rhs using tagged_uniqueD [OF lhs self] other by simp
next
  assume rhs: ?rhs
  show ?lhs
  proof (rule tagged_uniqueI)
    show "distinct (map f vs')" if "(m(k \<mapsto> vs)) k' = Some vs'" for k' vs'
      using that rhs tagged_uniqueD(1) [of f m k' vs'] by (simp split: if_splits)
    show "f ` set v1 \<inter> f ` set v2 = {}" if "(m(k \<mapsto> vs)) k1 = Some v1" "(m(k \<mapsto> vs)) k2 = Some v2" "k2 \<noteq> k1"
      for k1 v1 k2 v2
      using that rhs tagged_uniqueD(2) [of f m k1 v1 k2 v2] by (auto split: if_splits)
  qed
qed

lemma distinct_values_iff:
  assumes "hm_wf m"
  shows "distinct (map f (concat (hm_values m))) \<longleftrightarrow> tagged_unique f (map_of m)"
  using assms
proof (induction m)
  case Nil
  show ?case by (simp add: hm_values_def tagged_unique_def)
next
  case (Cons kv m)
  obtain k vs where kv: "kv = (k, vs)" by fastforce
  from Cons.prems have wf: "hm_wf m" and fresh: "map_of m k = None"
    by (auto simp: kv hm_wf_def map_of_eq_None_iff)
  have "f ` set (concat (hm_values m)) = (\<Union>vs'\<in>ran (map_of m). f ` set vs')"
    using hm_values_iff [OF wf] by (auto simp: ran_def image_iff; blast)
  then have split: "distinct (map f (concat (hm_values (kv # m)))) \<longleftrightarrow>
      distinct (map f vs) \<and> tagged_unique f (map_of m) \<and> (\<forall>k' vs'. map_of m k' = Some vs' \<longrightarrow> f ` set vs \<inter> f ` set vs' = {})"
    using Cons.IH [OF wf] by (auto simp: kv hm_values_def ran_def; blast)
  show ?case
    unfolding split using fresh tagged_unique_upd [where m = "map_of m" and k = k and f = f and vs = vs]
    by (simp add: kv fun_upd_def)
qed

definition webauthn_table_wf :: "(string, webauthn_credential list) hash_map \<Rightarrow> bool" where
  "webauthn_table_wf m \<longleftrightarrow> hm_wf m \<and> tagged_unique wac_credential_id (map_of m) \<and> tagged_unique wac_id (map_of m)
     \<and> (\<forall>user cs c. hm_get m user = Some cs \<and> c \<in> set cs \<longrightarrow> wac_user_id c = user)"

definition webauthn_wf :: "file_repository \<Rightarrow> bool" where
  "webauthn_wf r \<longleftrightarrow> webauthn_table_wf (st_webauthn_credentials (repo_store r))"

lemma tagged_unique_replace:
  assumes "tagged_unique f m" "distinct (map f vs)"
    and "\<And>k' vs'. m k' = Some vs' \<Longrightarrow> k' \<noteq> k \<Longrightarrow> f ` set vs \<inter> f ` set vs' = {}"
  shows "tagged_unique f (m(k \<mapsto> vs))"
proof (rule tagged_uniqueI)
  show "distinct (map f vs')" if "(m(k \<mapsto> vs)) k' = Some vs'" for k' vs'
    using that assms(2) tagged_uniqueD(1) [OF assms(1)] by (simp split: if_splits)
  show "f ` set v1 \<inter> f ` set v2 = {}" if "(m(k \<mapsto> vs)) k1 = Some v1" "(m(k \<mapsto> vs)) k2 = Some v2" "k2 \<noteq> k1"
    for k1 v1 k2 v2
  proof -
    note rows = that
    consider "k1 = k" "k2 \<noteq> k" | "k1 \<noteq> k" "k2 = k" | "k1 \<noteq> k" "k2 \<noteq> k" using rows(3) by blast
    then show ?thesis
    proof cases
      case 1
      with rows assms(3) [of k2 v2] show ?thesis by simp
    next
      case 2
      with rows assms(3) [of k1 v1] show ?thesis by (simp add: Int_commute)
    next
      case 3
      with rows tagged_uniqueD(2) [OF assms(1), of k1 v1 k2 v2] show ?thesis by simp
    qed
  qed
qed

lemma tagged_unique_shrink:
  assumes "tagged_unique f m" "\<And>vs. m k = Some vs \<Longrightarrow> distinct (map f (g vs)) \<and> f ` set (g vs) \<subseteq> f ` set vs"
  shows "tagged_unique f (m(k := map_option g (m k)))"
proof (cases "m k")
  case None
  with assms(1) show ?thesis by (simp add: fun_upd_idem)
next
  case (Some vs)
  have "tagged_unique f (m(k \<mapsto> g vs))"
  proof (rule tagged_unique_replace [OF assms(1)])
    show "distinct (map f (g vs))" using assms(2) [OF Some] by simp
    show "f ` set (g vs) \<inter> f ` set vs' = {}" if "m k' = Some vs'" "k' \<noteq> k" for k' vs'
      using assms(2) [OF Some] tagged_uniqueD(2) [OF assms(1) Some that] by blast
  qed
  with Some show ?thesis by simp
qed

lemma raise_counter_keeps:
  "map wac_id (raise_counter i n cs) = map wac_id cs"
  "map wac_credential_id (raise_counter i n cs) = map wac_credential_id cs"
  "map wac_user_id (raise_counter i n cs) = map wac_user_id cs"
  by (induction cs) auto

lemma image_raise_counter:
  "wac_id ` set (raise_counter i n cs) = wac_id ` set cs"
  "wac_credential_id ` set (raise_counter i n cs) = wac_credential_id ` set cs"
  "wac_user_id ` set (raise_counter i n cs) = wac_user_id ` set cs"
  using raise_counter_keeps [of i n cs] by (metis set_map)+

lemma tagged_unique_raise:
  assumes "tagged_unique f m" "\<And>cs. map f (raise_counter i n cs) = map f cs"
  shows "tagged_unique f (m(k := map_option (raise_counter i n) (m k)))"
proof (rule tagged_unique_shrink [OF assms(1)])
  show "distinct (map f (raise_counter i n vs)) \<and> f ` set (raise_counter i n vs) \<subseteq> f ` set vs"
    if "m k = Some vs" for vs
    using tagged_uniqueD(1) [OF assms(1) that] assms(2) [of vs] by (metis order.refl set_map)
qed

lemma tagged_unique_filter:
  assumes "tagged_unique f m"
  shows "tagged_unique f (m(k := map_option (filter p) (m k)))"
proof (rule tagged_unique_shrink [OF assms])
  show "distinct (map f (filter p vs)) \<and> f ` set (filter p vs) \<subseteq> f ` set vs" if "m k = Some vs" for vs
    using tagged_uniqueD(1) [OF assms that] by (auto simp: distinct_map_filter)
qed

lemma tagged_unique_append:
  assumes "tagged_unique f m" "\<And>u cs c. m u = Some cs \<Longrightarrow> c \<in> set cs \<Longrightarrow> f c \<noteq> f v"
  shows "tagged_unique f (m(k \<mapsto> (case m k of None \<Rightarrow> [] | Some cs \<Rightarrow> cs) @ [v]))"
proof (rule tagged_unique_replace [OF assms(1)])
  show "distinct (map f ((case m k of None \<Rightarrow> [] | Some cs \<Rightarrow> cs) @ [v]))"
    using tagged_uniqueD(1) [OF assms(1)] assms(2) by (fastforce split: option.splits)
  show "f ` set ((case m k of None \<Rightarrow> [] | Some cs \<Rightarrow> cs) @ [v]) \<inter> f ` set vs' = {}"
    if "m k' = Some vs'" "k' \<noteq> k" for k' vs'
  proof (cases "m k")
    case None
    with assms(2) [OF that(1)] show ?thesis by force
  next
    case (Some cs)
    from tagged_uniqueD(2) [OF assms(1) Some that] assms(2) [OF that(1)] Some show ?thesis by force
  qed
qed

lemma webauthn_wf_update:
  assumes "webauthn_wf r"
  shows "webauthn_wf (snd (update_webauthn_credential_counter io user i n r))"
proof -
  let ?m = "st_webauthn_credentials (repo_store r)"
  from assms have owner: "\<And>u cs. hm_get ?m u = Some cs \<Longrightarrow> wac_user_id ` set cs \<subseteq> {u}"
    by (auto simp: webauthn_wf_def webauthn_table_wf_def Let_def)
  have "wac_user_id c = user" if "hm_get ?m user = Some cs" "c \<in> set (raise_counter i n cs)" for cs c
    using owner [OF that(1)] that(2) image_raise_counter(3) [of i n cs] by (metis image_eqI singletonD subsetD)
  with assms show ?thesis
    by (auto simp: webauthn_wf_def webauthn_table_wf_def update_webauthn_credential_counter_def Let_def tagged_unique_raise
        raise_counter_keeps split: if_splits)
qed

lemma webauthn_wf_delete:
  assumes "webauthn_wf r"
  shows "webauthn_wf (snd (delete_webauthn_credential io user i r))"
  using assms
  by (auto simp: webauthn_wf_def webauthn_table_wf_def delete_webauthn_credential_def Let_def tagged_unique_filter split: if_splits)

lemma webauthn_wf_store:
  assumes "webauthn_wf r"
  shows "webauthn_wf (snd (store_webauthn_credential io cred r))"
proof (cases "list_ex (\<lambda>c. wac_id c = wac_id cred \<or> wac_credential_id c = wac_credential_id cred)
    (concat (hm_values (st_webauthn_credentials (repo_store r))))")
  case True
  with assms show ?thesis by (simp add: store_webauthn_credential_def try_write_def reject_duplicate_id_def Let_def)
next
  case False
  let ?m = "st_webauthn_credentials (repo_store r)"
  from assms have wf: "hm_wf ?m" "tagged_unique wac_credential_id (map_of ?m)" "tagged_unique wac_id (map_of ?m)"
    and owner: "\<And>u cs c. hm_get ?m u = Some cs \<Longrightarrow> c \<in> set cs \<Longrightarrow> wac_user_id c = u"
    by (auto simp: webauthn_wf_def webauthn_table_wf_def Let_def)
  from False have fresh: "wac_id c \<noteq> wac_id cred" "wac_credential_id c \<noteq> wac_credential_id cred"
    if "hm_get ?m u = Some cs" "c \<in> set cs" for u cs c
    using that hm_values_iff [OF wf(1)] by (fastforce simp: list_ex_iff)+
  have "tagged_unique wac_credential_id ((map_of ?m)(wac_user_id cred \<mapsto>
      (case hm_get ?m (wac_user_id cred) of None \<Rightarrow> [] | Some cs \<Rightarrow> cs) @ [cred]))"
    by (rule tagged_unique_append [OF wf(2)]) (rule fresh(2))
  moreover have "tagged_unique wac_id ((map_of ?m)(wac_user_id cred \<mapsto>
      (case hm_get ?m (wac_user_id cred) of None \<Rightarrow> [] | Some cs \<Rightarrow> cs) @ [cred]))"
    by (rule tagged_unique_append [OF wf(3)]) (rule fresh(1))
  ultimately show ?thesis
    using wf(1) False owner
    by (auto simp: webauthn_wf_def webauthn_table_wf_def store_webauthn_credential_def try_write_def reject_duplicate_id_def Let_def
        split: if_splits option.splits)
qed

subsection \<open>Changes of these tables\<close>

lemma opt_le_trans: "opt_le a b \<Longrightarrow> opt_le b c \<Longrightarrow> opt_le a c"
  by (cases a; cases b; cases c) auto

lemma opt_le_max: "opt_le a b \<Longrightarrow> opt_le a (opt_max b c)"
  by (auto simp: opt_max_def intro: opt_le_trans)

lemma opt_le_total: "\<not> opt_le b a \<Longrightarrow> opt_le a b"
  by (cases a; cases b) auto

lemma opt_le_refl [simp]: "opt_le a a"
  by (cases a) auto

text \<open>
  What an operation may do to the store: one table changes. Steps of one-time passwords only grow,
  admin approvals stay consumed and revoked verifiable credentials stay revoked.
\<close>

definition totp_le :: "totp_credential \<Rightarrow> totp_credential \<Rightarrow> bool" where
  "totp_le a b \<longleftrightarrow> totp_user_id b = totp_user_id a \<and> opt_le (totp_last_used_step a) (totp_last_used_step b)"

definition approval_le :: "admin_approval \<Rightarrow> admin_approval \<Rightarrow> bool" where
  "approval_le a b \<longleftrightarrow> b = a\<lparr>app_consumed := app_consumed b\<rparr> \<and> (app_consumed a \<longrightarrow> app_consumed b)"

definition vc_le :: "vc_credential_status_record \<Rightarrow> vc_credential_status_record \<Rightarrow> bool" where
  "vc_le a b \<longleftrightarrow> vcs_realm_id b = vcs_realm_id a \<and> (vcs_revoked a \<longrightarrow> vcs_revoked b)"

lemma credential_le_refl [simp]: "totp_le a a" "approval_le b b" "vc_le c c"
  by (simp_all add: totp_le_def approval_le_def vc_le_def)

inductive credential_change :: "store \<Rightarrow> store \<Rightarrow> bool" where
  stay: "credential_change s s"
| webauthn: "(webauthn_table_wf (st_webauthn_credentials s) \<Longrightarrow> webauthn_table_wf m) \<Longrightarrow>
    credential_change s (s\<lparr>st_webauthn_credentials := m\<rparr>)"
| totp: "advances totp_le (st_totp_credentials s) m \<Longrightarrow> credential_change s (s\<lparr>st_totp_credentials := m\<rparr>)"
| admins: "credential_change s (s\<lparr>st_admins := m\<rparr>)"
| elevations: "credential_change s (s\<lparr>st_admin_elevations := m\<rparr>)"
| approvals: "advances approval_le (st_admin_approvals s) m \<Longrightarrow>
    credential_change s (s\<lparr>st_admin_approvals := m\<rparr>)"
| streams: "credential_change s (s\<lparr>st_ssf_streams := m\<rparr>)"
| devices: "credential_change s (s\<lparr>st_devices := m\<rparr>)"
| vc: "advances vc_le (st_vc_credential_statuses s) m \<Longrightarrow> credential_change s (s\<lparr>st_vc_credential_statuses := m\<rparr>)"
| fedcm: "credential_change s (s\<lparr>st_fedcm_identities := m\<rparr>)"

lemma webauthn_op_change:
  "credential_change (repo_store r) (repo_store (snd (store_webauthn_credential io cred r)))"
  "credential_change (repo_store r) (repo_store (snd (update_webauthn_credential_counter io user i counter r)))"
  "credential_change (repo_store r) (repo_store (snd (delete_webauthn_credential io user i r)))"
proof -
  note changed = webauthn_wf_store [of r io cred] webauthn_wf_update [of r io user i counter]
    webauthn_wf_delete [of r io user i]
  show "credential_change (repo_store r) (repo_store (snd (update_webauthn_credential_counter io user i counter r)))"
    "credential_change (repo_store r) (repo_store (snd (delete_webauthn_credential io user i r)))"
    using changed(2,3)
    by (simp_all add: update_webauthn_credential_counter_def delete_webauthn_credential_def webauthn_wf_def webauthn)
  show "credential_change (repo_store r) (repo_store (snd (store_webauthn_credential io cred r)))"
    using changed(1)
    by (auto simp: store_webauthn_credential_def try_write_store webauthn_wf_def Let_def stay
        split: sum.splits prod.splits intro!: webauthn)
qed

lemma totp_op_change:
  "credential_change (repo_store r) (repo_store (snd (store_totp_credential io totp r)))"
  "credential_change (repo_store r) (repo_store (snd (consume_totp_step io totp st r)))"
proof -
  show "credential_change (repo_store r) (repo_store (snd (store_totp_credential io totp r)))"
    unfolding store_totp_credential_def
    by (rule try_write_relates)
      (auto simp: totp_le_def ensure_same_binding_def replace_preserving_last_used_step_def opt_le_max
        intro!: stay totp advances_insert split: option.splits if_splits)
  show "credential_change (repo_store r) (repo_store (snd (consume_totp_step io totp st r)))"
    by (auto simp: consume_totp_step_def Let_def totp_le_def opt_le_total intro!: stay totp advances_insert
        split: option.splits)
qed

lemma approval_op_change:
  "credential_change (repo_store r) (repo_store (snd (store_admin_approval io approval r)))"
  "credential_change (repo_store r) (repo_store (snd (consume_admin_approval_if_unconsumed io i r)))"
proof -
  show "credential_change (repo_store r) (repo_store (snd (store_admin_approval io approval r)))"
    unfolding store_admin_approval_def
    by (rule try_write_relates)
      (auto simp: reject_duplicate_id_def hm_contains_def intro!: stay approvals advances_insert split: if_splits)
  show "credential_change (repo_store r) (repo_store (snd (consume_admin_approval_if_unconsumed io i r)))"
    by (auto simp: consume_admin_approval_if_unconsumed_def Let_def approval_le_def opt_filter_def
        intro!: stay approvals advances_insert split: option.splits if_splits)
qed

lemma record_op_change:
  "credential_change (repo_store r) (repo_store (snd (upsert_admin io adm r)))"
  "credential_change (repo_store r) (repo_store (snd (store_admin_elevation io elevation r)))"
  "credential_change (repo_store r) (repo_store (snd (register_device io dev r)))"
  "credential_change (repo_store r) (repo_store (snd (store_vc_credential_status io status r)))"
  "credential_change (repo_store r) (repo_store (snd (revoke_vc_credential io i reason tm r)))"
  "credential_change (repo_store r) (repo_store (snd (store_fedcm_identity io identity r)))"
  unfolding upsert_admin_def store_admin_elevation_def register_device_def store_vc_credential_status_def
    revoke_vc_credential_def store_fedcm_identity_def
  by (rule try_write_relates; auto simp: vc_le_def hm_contains_def
      intro: stay admins elevations devices fedcm intro!: vc advances_insert split: option.splits if_splits)+

lemma table_op_change:
  "credential_change (repo_store r) (repo_store (snd (upsert_ssf_stream io stream r)))"
  "credential_change (repo_store r) (repo_store (snd (delete_ssf_stream io realm sid r)))"
  "credential_change (repo_store r) (repo_store (snd (update_device_last_seen io dev r)))"
  "credential_change (repo_store r) (repo_store (snd (delete_fedcm_identity io i r)))"
  by (simp_all add: upsert_ssf_stream_def delete_ssf_stream_def update_device_last_seen_def delete_fedcm_identity_def
      Let_def stay streams devices fedcm)

lemma credential_step_change: "credential_step r r' \<Longrightarrow> credential_change (repo_store r) (repo_store r')"
  by (induction rule: credential_step.induct)
    (simp_all only: webauthn_op_change totp_op_change approval_op_change record_op_change table_op_change)

subsection \<open>One-time passwords\<close>

definition totp_spent :: "string \<Rightarrow> u64 \<Rightarrow> file_repository \<Rightarrow> bool" where
  "totp_spent i st r \<longleftrightarrow> (\<exists>c. hm_get (st_totp_credentials (repo_store r)) i = Some c
     \<and> opt_le (Some st) (totp_last_used_step c))"

lemma credential_step_totp_spent:
  assumes "credential_step r r'" "totp_spent i st r"
  shows "totp_spent i st r'"
  using credential_step_change [OF assms(1)] assms(2)
  by cases (simp_all add: totp_spent_def advances_def totp_le_def, meson opt_le_trans)

lemma credential_steps_totp_spent:
  assumes "credential_step\<^sup>*\<^sup>* r r'" "totp_spent i st r"
  shows "totp_spent i st r'"
  using assms by (induction rule: rtranclp_induct) (auto dest: credential_step_totp_spent)

lemma consume_totp_spends:
  assumes "consume_totp_step io cred st r = (Inr True, r')"
  shows "totp_spent (totp_id cred) st r'"
  using assms
  by (auto simp: consume_totp_step_def Let_def totp_spent_def dest!: commit_Inr split: option.splits if_splits)

text \<open>
  C39. A time step of a one-time password is accepted once: after a step was consumed, that step and
  every earlier one are refused for the credential, and the refusal changes nothing, whatever the
  credential tables went through in between, including a replacement of the credential itself.
\<close>

theorem totp_step_single_use:
  assumes "consume_totp_step io cred st r = (Inr True, r')" and "credential_step\<^sup>*\<^sup>* r' r''"
    and "totp_id cred' = totp_id cred" and "st' \<le> st"
  shows "consume_totp_step io' cred' st' r'' = (Inr False, r'')"
proof -
  from credential_steps_totp_spent [OF assms(2) consume_totp_spends [OF assms(1)]]
  obtain c where "hm_get (st_totp_credentials (repo_store r'')) (totp_id cred) = Some c"
    "opt_le (Some st) (totp_last_used_step c)" by (auto simp: totp_spent_def)
  moreover from this(2) assms(4) have "opt_le (Some st') (totp_last_used_step c)"
    by (cases "totp_last_used_step c") auto
  ultimately show ?thesis using assms(3) by (simp add: consume_totp_step_def Let_def)
qed

definition example_totp :: totp_credential where
  "example_totp = \<lparr>totp_id = ''o1'', totp_user_id = ''alice'', totp_secret = ''k'', totp_algorithm = ''SHA1'',
     totp_digits = 6, totp_period = 30, totp_enabled = True, totp_last_used_step = Some 41, totp_created_at = 0\<rparr>"

definition example_totp_repo :: file_repository where
  "example_totp_repo = \<lparr>repo_store = empty_store\<lparr>st_totp_credentials := [(''o1'', example_totp)]\<rparr>,
     repo_disk = None, repo_dirty = False, repo_flush_mode = Immediate\<rparr>"

theorem totp_step_single_use_witness:
  "(let r' = snd (consume_totp_step None example_totp 42 example_totp_repo);
        r'' = snd (store_totp_credential None (example_totp\<lparr>totp_last_used_step := None\<rparr>) r')
    in consume_totp_step None example_totp 42 example_totp_repo = (Inr True, r')
       \<and> consume_totp_step None example_totp 42 r'' = (Inr False, r''))"
proof -
  let ?r' = "snd (consume_totp_step None example_totp 42 example_totp_repo)"
  have run: "consume_totp_step None example_totp 42 example_totp_repo = (Inr True, ?r')"
    by (simp add: consume_totp_step_def example_totp_repo_def example_totp_def Let_def commit_def save_def
        flush_store_def write_store_content_def)
  have "credential_step\<^sup>*\<^sup>* ?r' (snd (store_totp_credential None (example_totp\<lparr>totp_last_used_step := None\<rparr>) ?r'))"
    by (rule r_into_rtranclp) (rule credential_step.intros)
  from totp_step_single_use [OF run this refl order.refl] run show ?thesis by (simp add: Let_def)
qed

subsection \<open>Security-event tokens\<close>

inductive ssf_step :: "u64 \<Rightarrow> file_repository \<Rightarrow> file_repository \<Rightarrow> bool" for deadline where
  "credential_step r r' \<Longrightarrow> ssf_step deadline r r'"
| "now < deadline \<Longrightarrow> ssf_step deadline r (snd (record_ssf_set_jti io realm issuer sid jti expires_at now r))"

definition set_recorded :: "string \<Rightarrow> u64 \<Rightarrow> file_repository \<Rightarrow> bool" where
  "set_recorded key deadline r \<longleftrightarrow> hm_wf (st_ssf_set_replay (repo_store r))
     \<and> (\<exists>expiry. hm_get (st_ssf_set_replay (repo_store r)) key = Some expiry \<and> deadline \<le> expiry)"

lemma credential_step_replay:
  assumes "credential_step r r'"
  shows "st_ssf_set_replay (repo_store r') = st_ssf_set_replay (repo_store r)"
  using credential_step_change [OF assms] by cases simp_all

lemma ssf_step_recorded:
  assumes "ssf_step deadline r r'" "set_recorded key deadline r"
  shows "set_recorded key deadline r'"
  using assms(1)
proof cases
  case 1
  with assms(2) show ?thesis by (simp add: set_recorded_def credential_step_replay)
next
  case (2 now io realm issuer sid jti expires_at)
  with assms(2) show ?thesis
    by (auto simp: set_recorded_def record_ssf_set_jti_def Let_def hm_contains_def)
qed

lemma ssf_steps_recorded:
  assumes "(ssf_step deadline)\<^sup>*\<^sup>* r r'" "set_recorded key deadline r"
  shows "set_recorded key deadline r'"
  using assms by (induction rule: rtranclp_induct) (auto dest: ssf_step_recorded)

text \<open>
  A security-event token is accepted once while it lives: after the token of a stream was
  recorded, presenting it again before its expiry is refused, whatever other tokens were recorded
  and whatever these tables went through in between.
\<close>

theorem ssf_set_accepted_once:
  assumes "hm_wf (st_ssf_set_replay (repo_store r))"
    and "record_ssf_set_jti io realm issuer sid jti expires_at now r = (Inr True, r')"
    and "(ssf_step (min expires_at (2 ^ 63 - 1)))\<^sup>*\<^sup>* r' r''" and "now' < min expires_at (2 ^ 63 - 1)"
  shows "fst (record_ssf_set_jti io' realm issuer sid jti expires_at' now' r'') = Inr False"
proof -
  have "set_recorded (ssf_set_replay_key realm issuer sid jti) (min expires_at (2 ^ 63 - 1)) r'"
    using assms(1,2)
    by (auto simp: set_recorded_def record_ssf_set_jti_def Let_def dest!: commit_Inr split: if_splits)
  from ssf_steps_recorded [OF assms(3) this] obtain expiry where
    wf: "hm_wf (st_ssf_set_replay (repo_store r''))" and
    row: "hm_get (st_ssf_set_replay (repo_store r'')) (ssf_set_replay_key realm issuer sid jti) = Some expiry" and
    le: "min expires_at (2 ^ 63 - 1) \<le> expiry"
    by (auto simp: set_recorded_def)
  from assms(4) le have "now' < expiry" by (rule less_le_trans)
  with wf row show ?thesis by (auto simp: record_ssf_set_jti_def Let_def hm_contains_def)
qed

definition example_set_repo :: file_repository where
  "example_set_repo = \<lparr>repo_store = empty_store, repo_disk = None, repo_dirty = False, repo_flush_mode = Immediate\<rparr>"

theorem ssf_set_accepted_once_witness:
  "(let r' = snd (record_ssf_set_jti None ''corp'' ''https://iss'' ''s1'' ''j1'' 100 10 example_set_repo)
    in hm_wf (st_ssf_set_replay (repo_store example_set_repo))
       \<and> record_ssf_set_jti None ''corp'' ''https://iss'' ''s1'' ''j1'' 100 10 example_set_repo = (Inr True, r')
       \<and> fst (record_ssf_set_jti None ''corp'' ''https://iss'' ''s1'' ''j2'' 100 20 r') = Inr True
       \<and> fst (record_ssf_set_jti None ''corp'' ''https://iss'' ''s1'' ''j1'' 300 99 r') = Inr False)"
proof -
  let ?r' = "snd (record_ssf_set_jti None ''corp'' ''https://iss'' ''s1'' ''j1'' 100 10 example_set_repo)"
  have wf: "hm_wf (st_ssf_set_replay (repo_store example_set_repo))"
    by (simp add: example_set_repo_def empty_store_def)
  have run: "record_ssf_set_jti None ''corp'' ''https://iss'' ''s1'' ''j1'' 100 10 example_set_repo = (Inr True, ?r')"
    by (simp add: record_ssf_set_jti_def example_set_repo_def empty_store_def Let_def hm_contains_def
        hm_retain_def commit_def save_def flush_store_def write_store_content_def)
  have deadline: "99 < min (100::u64) (2 ^ 63 - 1)" by simp
  have other: "fst (record_ssf_set_jti None ''corp'' ''https://iss'' ''s1'' ''j2'' 100 20 ?r') = Inr True"
    by (simp add: record_ssf_set_jti_def example_set_repo_def empty_store_def Let_def hm_contains_def
        hm_retain_def commit_def save_def flush_store_def write_store_content_def ssf_set_replay_key_def)
  from ssf_set_accepted_once [OF wf run rtranclp.rtrancl_refl deadline] wf run other show ?thesis
    by (simp add: Let_def)
qed

subsection \<open>Uniqueness of WebAuthn credentials\<close>

lemma credential_step_webauthn_wf:
  assumes "credential_step r r'" "webauthn_wf r"
  shows "webauthn_wf r'"
  using credential_step_change [OF assms(1)] assms(2) by cases (simp_all add: webauthn_wf_def)

text \<open>
  A WebAuthn credential identifies one user: whatever sequence of operations the credential
  tables go through, no two stored credentials share a credential identifier or a record identifier,
  and reading the credentials of a user never fails and returns only credentials of that user.
\<close>

theorem webauthn_credentials_unique:
  assumes "webauthn_wf r" and "credential_step\<^sup>*\<^sup>* r r'"
  shows "distinct (map wac_credential_id (concat (hm_values (st_webauthn_credentials (repo_store r')))))
    \<and> distinct (map wac_id (concat (hm_values (st_webauthn_credentials (repo_store r')))))
    \<and> (\<exists>cs. get_webauthn_credentials user r' = Inr cs \<and> (\<forall>c. c \<in> set cs \<longrightarrow> wac_user_id c = user))"
proof -
  have "webauthn_wf r'"
    using assms(2,1) by (induction rule: rtranclp_induct) (auto dest: credential_step_webauthn_wf)
  then show ?thesis
    by (cases "hm_get (st_webauthn_credentials (repo_store r')) user")
      (auto simp: webauthn_wf_def webauthn_table_wf_def Let_def distinct_values_iff get_webauthn_credentials_def reject_duplicate_id_def)
qed

definition example_key :: "string \<Rightarrow> string \<Rightarrow> octet list \<Rightarrow> webauthn_credential" where
  "example_key i user cred = \<lparr>wac_id = i, wac_user_id = user, wac_credential_id = cred, wac_public_key = [],
     wac_counter = 0, wac_aaguid = [], wac_device_name = None, wac_created_at = 0\<rparr>"

theorem webauthn_credentials_unique_witness:
  "(let r = example_set_repo;
        r1 = snd (store_webauthn_credential None (example_key ''w1'' ''alice'' [1]) r);
        r2 = snd (store_webauthn_credential None (example_key ''w2'' ''bob'' [1]) r1)
    in webauthn_wf r
       \<and> fst (store_webauthn_credential None (example_key ''w2'' ''bob'' [1]) r1) =
           Inl (Conflict ''WebAuthn credential ID conflicts for record w2'')
       \<and> get_webauthn_credentials ''alice'' r2 = Inr [example_key ''w1'' ''alice'' [1]]
       \<and> distinct (map wac_id (concat (hm_values (st_webauthn_credentials (repo_store r2))))))"
proof -
  let ?r1 = "snd (store_webauthn_credential None (example_key ''w1'' ''alice'' [1]) example_set_repo)"
  let ?r2 = "snd (store_webauthn_credential None (example_key ''w2'' ''bob'' [1]) ?r1)"
  have wf: "webauthn_wf example_set_repo"
    by (simp add: webauthn_wf_def webauthn_table_wf_def example_set_repo_def empty_store_def tagged_unique_def)
  have s1: "credential_step example_set_repo ?r1" and s2: "credential_step ?r1 ?r2"
    by (rule credential_step.intros)+
  have steps: "credential_step\<^sup>*\<^sup>* example_set_repo ?r2"
    by (rule converse_rtranclp_into_rtranclp [OF s1 r_into_rtranclp [of credential_step, OF s2]])
  have "fst (store_webauthn_credential None (example_key ''w2'' ''bob'' [1]) ?r1) =
      Inl (Conflict ''WebAuthn credential ID conflicts for record w2'')"
    "get_webauthn_credentials ''alice'' ?r2 = Inr [example_key ''w1'' ''alice'' [1]]"
    by (simp_all add: store_webauthn_credential_def get_webauthn_credentials_def example_set_repo_def example_key_def
        empty_store_def Let_def try_write_def reject_duplicate_id_def hm_values_def commit_def save_def
        flush_store_def write_store_content_def)
  with webauthn_credentials_unique [OF wf steps, of "''alice''"] wf show ?thesis by (simp add: Let_def)
qed

subsection \<open>Revocation of verifiable credentials\<close>

definition vc_revoked :: "string \<Rightarrow> file_repository \<Rightarrow> bool" where
  "vc_revoked i r \<longleftrightarrow> (\<exists>status. hm_get (st_vc_credential_statuses (repo_store r)) i = Some status \<and> vcs_revoked status)"

lemma credential_step_vc_revoked:
  assumes "credential_step r r'" "vc_revoked i r"
  shows "vc_revoked i r'"
  using credential_step_change [OF assms(1)] assms(2)
  by cases (simp_all add: vc_revoked_def advances_def vc_le_def, blast)

lemma revoke_vc_revokes:
  assumes "fst (revoke_vc_credential io i reason t r) = Inr ()"
  shows "vc_revoked i (snd (revoke_vc_credential io i reason t r))"
  using assms
  by (auto simp: revoke_vc_credential_def vc_revoked_def try_write_def split: option.splits)

end
