(* ===== verification/Qid_Push.thy ===== *)
theory Qid_Push
  imports Qid_File_Store
begin

text \<open>
  Push approval: the state transitions of \<^verbatim>\<open>qid-storage/src/push.rs\<close> that the file and the SQL
  store share. An authenticator is pending until its key is proved, then enrolled, then perhaps
  revoked; a login challenge collects attempts, at most one decision and at most one redemption.
\<close>

section \<open>Validation\<close>

definition push_conflict :: qid_error where
  "push_conflict = Conflict ''push record unavailable or ID already used''"

definition push_bad :: qid_error where
  "push_bad = BadRequest ''invalid initial push record''"

definition push_corrupt :: qid_error where
  "push_corrupt = Internal ''corrupt push storage record''"

definition nonempty :: "string \<Rightarrow> bool" where
  "nonempty s \<longleftrightarrow> trim s \<noteq> []"

definition verifier :: "string \<Rightarrow> bool" where
  "verifier s \<longleftrightarrow> length s = 64 \<and> list_all is_lower_hex s"

definition valid_push_device_metadata :: "string \<Rightarrow> bool" where
  "valid_push_device_metadata s \<longleftrightarrow>
     s \<noteq> [] \<and> char_count s \<le> 64 \<and> trim s = s \<and> \<not> has_char control_chars s"

fun key_valid :: "push_public_jwk \<Rightarrow> bool" where
  "key_valid (EC crv x y) = list_all nonempty [crv, x, y]"
| "key_valid (OKP crv x) = list_all nonempty [crv, x]"
| "key_valid (RSA n e) = list_all nonempty [n, e]"

definition authenticator_fields_valid :: "push_authenticator \<Rightarrow> bool" where
  "authenticator_fields_valid a \<longleftrightarrow>
     list_all nonempty [pa_id a, pa_realm_id a, pa_user_id a, pa_destination a]
     \<and> valid_push_device_metadata (pa_device_name a) \<and> valid_push_device_metadata (pa_device_platform a)
     \<and> key_valid (pa_public_jwk a) \<and> pa_created_at a \<noteq> 0 \<and> fits_i64 (pa_created_at a)"

definition registration_fields_valid :: "push_registration_challenge \<Rightarrow> bool" where
  "registration_fields_valid c \<longleftrightarrow>
     authenticator_fields_valid (prc_authenticator c) \<and> pa_revoked_at (prc_authenticator c) = None
     \<and> verifier (prc_nonce_verifier c) \<and> pa_created_at (prc_authenticator c) < prc_expires_at c
     \<and> fits_i64 (prc_expires_at c) \<and> prc_max_attempts c \<noteq> 0"

definition login_fields_valid :: "push_login_challenge \<Rightarrow> bool" where
  "login_fields_valid c \<longleftrightarrow>
     list_all nonempty [plc_id c, plc_realm_id c, plc_user_id c, plc_authenticator_id c]
     \<and> verifier (plc_nonce_verifier c) \<and> verifier (plc_browser_binding_verifier c)
     \<and> plc_created_at c \<noteq> 0 \<and> fits_i64 (plc_created_at c) \<and> plc_created_at c < plc_expires_at c
     \<and> plc_expires_at c - plc_created_at c \<le> 600 \<and> length (plc_resend_admitted_at c) \<le> 600
     \<and> list_all (\<lambda>tm. plc_created_at c \<le> tm \<and> tm < plc_expires_at c \<and> fits_i64 tm) (plc_resend_admitted_at c)
     \<and> sorted_wrt (<) (plc_resend_admitted_at c)
     \<and> none_or (plc_decided_at c) (\<lambda>tm. plc_resend_admitted_at c = [] \<or> last (plc_resend_admitted_at c) \<le> tm)
     \<and> fits_i64 (plc_expires_at c) \<and> plc_max_attempts c \<noteq> 0"

definition validate_registration :: "push_registration_challenge \<Rightarrow> unit result" where
  "validate_registration c =
     (if \<not> registration_fields_valid c \<or> prc_attempt_count c \<noteq> 0 then Inl push_bad else Inr ())"

definition validate_login :: "push_login_challenge \<Rightarrow> unit result" where
  "validate_login c =
     (if \<not> login_fields_valid c \<or> plc_attempt_count c \<noteq> 0 \<or> plc_resend_admitted_at c \<noteq> []
         \<or> plc_decision c \<noteq> None \<or> plc_decided_at c \<noteq> None \<or> plc_consumed_at c \<noteq> None
      then Inl push_bad else Inr ())"

definition validate_authenticator_record :: "push_authenticator \<Rightarrow> unit result" where
  "validate_authenticator_record a =
     (if \<not> authenticator_fields_valid a \<or> (case pa_revoked_at a of None \<Rightarrow> False | Some tm \<Rightarrow> tm < pa_created_at a)
      then Inl push_corrupt else Inr ())"

definition validate_registration_record :: "push_registration_challenge \<Rightarrow> unit result" where
  "validate_registration_record c =
     (if \<not> registration_fields_valid c \<or> prc_max_attempts c < prc_attempt_count c then Inl push_corrupt else Inr ())"

definition login_outcome_invalid :: "push_login_challenge \<Rightarrow> bool" where
  "login_outcome_invalid c =
     (case (plc_decision c, plc_decided_at c, plc_consumed_at c) of
        (None, None, None) \<Rightarrow> False
      | (Some _, Some decided_at, consumed_at) \<Rightarrow>
          decided_at < plc_created_at c \<or> plc_expires_at c \<le> decided_at \<or> plc_attempt_count c = 0
          \<or> (case consumed_at of None \<Rightarrow> False
             | Some tm \<Rightarrow> plc_decision c \<noteq> Some PushApprove \<or> tm < decided_at \<or> plc_expires_at c \<le> tm)
      | _ \<Rightarrow> True)"

definition validate_login_record :: "push_login_challenge \<Rightarrow> unit result" where
  "validate_login_record c =
     (if \<not> login_fields_valid c \<or> plc_max_attempts c < plc_attempt_count c \<or> login_outcome_invalid c
      then Inl push_corrupt else Inr ())"

section \<open>Transitions\<close>

definition push_current :: "push_authenticator \<Rightarrow> push_login_challenge \<Rightarrow> bool" where
  "push_current a c \<longleftrightarrow> pa_id a = plc_authenticator_id c \<and> pa_realm_id a = plc_realm_id c
     \<and> pa_user_id a = plc_user_id c \<and> pa_created_at a \<le> plc_created_at c \<and> pa_revoked_at a = None"

definition push_live :: "u64 \<Rightarrow> u64 \<Rightarrow> u64 \<Rightarrow> bool" where
  "push_live created expires now \<longleftrightarrow> created \<le> now \<and> now < expires"

definition authenticator_record :: "push_authenticator_record \<Rightarrow> string \<Rightarrow> push_authenticator result" where
  "authenticator_record row i =
     and_then (case row of Pending c \<Rightarrow> validate_registration_record c | Enrolled a \<Rightarrow> validate_authenticator_record a) (\<lambda>_.
       let a = record_authenticator row in if pa_id a \<noteq> i then Inl push_corrupt else Inr a)"

definition enrolled :: "push_authenticator_record \<Rightarrow> string \<Rightarrow> push_authenticator option result" where
  "enrolled row i =
     and_then (authenticator_record row i) (\<lambda>_. Inr (case row of Enrolled a \<Rightarrow> Some a | Pending _ \<Rightarrow> None))"

text \<open>
  A transition on a row: the new row when the attempt is accepted, nothing otherwise. The
  wrap-around of the attempt counter is that of the machine; an accepted attempt is below the
  maximum, so it never wraps.
\<close>

definition registration_attempt ::
    "push_registration_challenge \<Rightarrow> bool \<Rightarrow> u64 \<Rightarrow> push_authenticator_record \<Rightarrow> push_authenticator_record option" where
  "registration_attempt expected verified now row =
     (case row of
        Enrolled _ \<Rightarrow> None
      | Pending c \<Rightarrow>
          if prc_authenticator c \<noteq> prc_authenticator expected \<or> prc_nonce_verifier c \<noteq> prc_nonce_verifier expected
             \<or> prc_expires_at c \<noteq> prc_expires_at expected \<or> prc_max_attempts c \<noteq> prc_max_attempts expected
             \<or> \<not> push_live (pa_created_at (prc_authenticator c)) (prc_expires_at c) now
             \<or> prc_max_attempts c \<le> prc_attempt_count c
          then None
          else Some (if verified then Enrolled ((prc_authenticator c)\<lparr>pa_created_at := now\<rparr>)
                     else Pending (c\<lparr>prc_attempt_count := prc_attempt_count c + 1\<rparr>)))"

definition same_login :: "push_login_challenge \<Rightarrow> push_login_challenge \<Rightarrow> bool" where
  "same_login c expected \<longleftrightarrow>
     c\<lparr>plc_attempt_count := plc_attempt_count expected, plc_decision := plc_decision expected,
       plc_decided_at := plc_decided_at expected, plc_consumed_at := plc_consumed_at expected\<rparr> = expected"

definition login_attempt ::
    "push_login_challenge \<Rightarrow> push_decision option \<Rightarrow> u64 \<Rightarrow> push_login_challenge \<Rightarrow> push_login_challenge option" where
  "login_attempt expected decision now c =
     (if \<not> same_login c expected \<or> \<not> push_live (plc_created_at c) (plc_expires_at c) now
         \<or> plc_decision c \<noteq> None \<or> plc_consumed_at c \<noteq> None \<or> plc_max_attempts c \<le> plc_attempt_count c
      then None
      else let c' = c\<lparr>plc_attempt_count := plc_attempt_count c + 1\<rparr>
           in Some (case decision of None \<Rightarrow> c'
                    | Some d \<Rightarrow> c'\<lparr>plc_decision := Some d, plc_decided_at := Some now\<rparr>))"

definition redeem ::
    "push_login_challenge \<Rightarrow> string \<Rightarrow> u64 \<Rightarrow> push_login_challenge \<Rightarrow> push_login_challenge option" where
  "redeem expected binding_verifier now c =
     (if \<not> verifier binding_verifier \<or> \<not> same_login c expected
         \<or> \<not> push_live (plc_created_at c) (plc_expires_at c) now \<or> plc_decision c \<noteq> Some PushApprove
         \<or> plc_consumed_at c \<noteq> None \<or> none_or (plc_decided_at c) (\<lambda>tm. now < tm)
         \<or> \<not> constant_time_eq (plc_browser_binding_verifier c) binding_verifier
      then None else Some (c\<lparr>plc_consumed_at := Some now\<rparr>))"

definition max_push_window_seconds :: u64 where
  "max_push_window_seconds = 86400"

fun login_purpose_str :: "push_purpose \<Rightarrow> string" where
  "login_purpose_str PasswordLogin = ''password_login''"

definition quota_window_start :: "u64 \<Rightarrow> u64 \<Rightarrow> u64 \<Rightarrow> u32 \<Rightarrow> u64 \<Rightarrow> u64 result" where
  "quota_window_start created_at expires_at admitted_at max_issuances window_seconds =
     (if max_issuances = 0 \<or> \<not> (1 \<le> window_seconds \<and> window_seconds \<le> max_push_window_seconds)
         \<or> \<not> push_live created_at expires_at admitted_at
         \<or> \<not> fits_i64 admitted_at \<or> \<not> fits_i64 created_at \<or> \<not> fits_i64 expires_at
      then Inl (BadRequest ''invalid push issuance budget or timestamp'')
      else Inr (sat_sub admitted_at (window_seconds - 1)))"

definition cleanup_cutoff :: "u64 \<Rightarrow> u32 \<Rightarrow> u64 result" where
  "cleanup_cutoff now limit =
     (if \<not> (1 \<le> limit \<and> limit \<le> 1000) \<or> \<not> fits_i64 now
      then Inl (BadRequest ''invalid push cleanup bound'')
      else Inr (sat_sub now max_push_window_seconds))"

definition validate_login_issued :: "push_login_challenge \<Rightarrow> u64 \<Rightarrow> unit result" where
  "validate_login_issued c issued =
     (if issued < plc_created_at c \<or> plc_expires_at c \<le> issued
         \<or> (case plc_resend_admitted_at c of [] \<Rightarrow> False | tm # _ \<Rightarrow> tm \<le> issued)
      then Inl push_corrupt else Inr ())"

definition send_count :: "push_login_challenge \<Rightarrow> u64 \<Rightarrow> u64 \<Rightarrow> nat result" where
  "send_count c issued start =
     and_then (validate_login_record c) (\<lambda>_. and_then (validate_login_issued c issued) (\<lambda>_.
       Inr ((if start \<le> issued then 1 else 0) + length (filter (\<lambda>tm. start \<le> tm) (plc_resend_admitted_at c)))))"

definition resend ::
    "push_login_challenge \<Rightarrow> string \<Rightarrow> string \<Rightarrow> u64 \<Rightarrow> u64 \<Rightarrow> u64 \<Rightarrow> push_login_challenge
      \<Rightarrow> push_login_challenge option" where
  "resend expected binding_verifier nonce_verifier issued cooldown now c =
     (if cooldown = 0 \<or> \<not> verifier binding_verifier
         \<or> \<not> constant_time_eq (plc_browser_binding_verifier c) binding_verifier
         \<or> \<not> verifier nonce_verifier \<or> nonce_verifier = plc_nonce_verifier c \<or> \<not> same_login c expected
         \<or> \<not> push_live (plc_created_at c) (plc_expires_at c) now \<or> plc_decision c \<noteq> None
         \<or> plc_consumed_at c \<noteq> None \<or> plc_max_attempts c \<le> plc_attempt_count c
         \<or> sat_sub now (if plc_resend_admitted_at c = [] then issued else last (plc_resend_admitted_at c)) < cooldown
      then None
      else Some (c\<lparr>plc_nonce_verifier := nonce_verifier,
                   plc_resend_admitted_at := plc_resend_admitted_at c @ [now]\<rparr>))"

lemma sorted_last_bound: "sorted xs \<Longrightarrow> z \<in> set xs \<Longrightarrow> z \<le> last (xs :: ('a::linorder) list)"
  by (induction xs) (auto split: if_splits)

section \<open>Transitions keep rows valid\<close>

lemma fits_i64_mono: "a \<le> b \<Longrightarrow> fits_i64 b \<Longrightarrow> fits_i64 a"
  by (auto simp: fits_i64_def word_le_nat_alt word_less_nat_alt)

lemma fits_i64_less: "a < b \<Longrightarrow> fits_i64 b \<Longrightarrow> fits_i64 a"
  by (rule fits_i64_mono) auto

lemma validate_registration_initial:
  "validate_registration c = Inr () \<Longrightarrow> validate_registration_record c = Inr ()"
  by (auto simp: validate_registration_def validate_registration_record_def split: if_splits)

lemma validate_login_initial:
  "validate_login c = Inr () \<Longrightarrow> validate_login_record c = Inr ()"
  by (auto simp: validate_login_def validate_login_record_def login_outcome_invalid_def split: if_splits)

lemma word_Suc_le: "a < b \<Longrightarrow> a + 1 \<le> (b :: 'a::len word)"
  by (simp add: inc_le)

lemma word_Suc_nonzero: "a < b \<Longrightarrow> a + 1 \<noteq> (0 :: 'a::len word)"
  by (metis eq_neg_iff_add_eq_0 word_order.extremum_strict)

lemma registration_attempt_valid:
  assumes "authenticator_record row i = Inr a" "registration_attempt expected verified now row = Some row'"
  shows "\<exists>a'. authenticator_record row' i = Inr a'"
proof -
  from assms(2) obtain c where row: "row = Pending c" by (cases row) (auto simp: registration_attempt_def)
  from assms row have c: "registration_fields_valid c" "prc_attempt_count c < prc_max_attempts c"
    "pa_id (prc_authenticator c) = i" "pa_created_at (prc_authenticator c) \<le> now" "now < prc_expires_at c"
    and row': "row' = (if verified then Enrolled ((prc_authenticator c)\<lparr>pa_created_at := now\<rparr>)
                     else Pending (c\<lparr>prc_attempt_count := prc_attempt_count c + 1\<rparr>))"
    by (auto simp: authenticator_record_def registration_attempt_def validate_registration_record_def push_live_def
        not_le Let_def split: if_splits)
  have "now \<noteq> 0"
    using c(1,4) by (auto simp: registration_fields_valid_def authenticator_fields_valid_def)
  moreover have "fits_i64 now"
    using c(1,5) fits_i64_less by (auto simp: registration_fields_valid_def)
  moreover have "\<not> prc_max_attempts c < prc_attempt_count c + 1"
    using word_Suc_le [OF c(2)] by simp
  ultimately show ?thesis
    using c(1,3) unfolding row' authenticator_record_def
    by (auto simp: registration_fields_valid_def validate_registration_record_def
        authenticator_fields_valid_def validate_authenticator_record_def Let_def)
qed

lemma redeem_valid:
  assumes "validate_login_record c = Inr ()" "redeem expected binding now c = Some c'"
  shows "validate_login_record c' = Inr ()"
  using assms
  by (cases "plc_decided_at c")
    (auto simp: validate_login_record_def redeem_def login_fields_valid_def login_outcome_invalid_def push_live_def
      split: if_splits option.splits)

text \<open>
  Decision times follow the resends, so a decision is refused as corrupt only when the clock is
  behind the last resend.
\<close>

lemma login_attempt_valid:
  assumes "validate_login_record c = Inr ()" "login_attempt expected decision now c = Some c'"
    and "plc_resend_admitted_at c = [] \<or> last (plc_resend_admitted_at c) \<le> now"
  shows "validate_login_record c' = Inr ()"
proof -
  from assms(1,2) have c: "login_fields_valid c" "plc_decision c = None" "plc_decided_at c = None" "plc_consumed_at c = None"
    "plc_attempt_count c < plc_max_attempts c" "plc_created_at c \<le> now" "now < plc_expires_at c"
    and c': "c' = (case decision of None \<Rightarrow> c\<lparr>plc_attempt_count := plc_attempt_count c + 1\<rparr>
        | Some d \<Rightarrow> c\<lparr>plc_attempt_count := plc_attempt_count c + 1, plc_decision := Some d, plc_decided_at := Some now\<rparr>)"
    by (auto simp: validate_login_record_def login_attempt_def login_outcome_invalid_def push_live_def Let_def
        split: if_splits option.splits)
  have "plc_attempt_count c + 1 \<le> plc_max_attempts c" by (rule word_Suc_le [OF c(5)])
  moreover from this have "plc_attempt_count c + 1 \<noteq> 0"
    using word_Suc_nonzero [OF c(5)] by simp
  ultimately show ?thesis
    using c assms(3)
    by (auto simp: c' validate_login_record_def login_fields_valid_def login_outcome_invalid_def not_less
        split: option.splits)
qed

lemma increasing_length:
  assumes "sorted_wrt (<) xs" "\<And>x. x \<in> set xs \<Longrightarrow> lo < x \<and> x < (hi :: u64)" "lo < hi"
  shows "length xs < unat (hi - lo)"
proof -
  have "distinct xs" using assms(1) by (metis distinct_conv_nth linorder_neqE_nat order_less_irrefl sorted_wrt_iff_nth_less)
  then have "length xs = card (unat ` set xs)"
    by (simp add: card_image distinct_card inj_on_def word_unat_eq_iff)
  also have "unat ` set xs \<subseteq> {unat lo <..< unat hi}"
    using assms(2) by (auto simp: word_less_nat_alt)
  then have "card (unat ` set xs) \<le> card {unat lo <..< unat hi}" by (intro card_mono) auto
  also have "\<dots> < unat (hi - lo)"
    using assms(3) by (simp add: unat_sub_if' word_less_nat_alt)
  finally show ?thesis .
qed

text \<open>
  The bound of 600 resends is never what stops a resend: resends are at least a second apart in a
  lifetime of at most 600 seconds.
\<close>

lemma resend_valid:
  assumes "validate_login_record c = Inr ()" "validate_login_issued c issued = Inr ()"
    and "resend expected binding nonce issued cooldown now c = Some c'"
  shows "validate_login_record c' = Inr ()" "validate_login_issued c' issued = Inr ()"
proof -
  let ?ats = "plc_resend_admitted_at c"
  from assms(1,3) have c: "login_fields_valid c" "plc_decision c = None" "plc_decided_at c = None" "plc_consumed_at c = None"
    "plc_attempt_count c \<le> plc_max_attempts c" "plc_created_at c \<le> now" "now < plc_expires_at c" "verifier nonce"
    and gap: "\<not> sat_sub now (if ?ats = [] then issued else last ?ats) < cooldown" "cooldown \<noteq> 0"
    and c': "c' = c\<lparr>plc_nonce_verifier := nonce, plc_resend_admitted_at := ?ats @ [now]\<rparr>"
    by (auto simp: validate_login_record_def resend_def login_outcome_invalid_def push_live_def split: if_splits option.splits)
  from assms(2) have issued: "plc_created_at c \<le> issued" "issued < plc_expires_at c" "?ats \<noteq> [] \<longrightarrow> issued < hd ?ats"
    by (auto simp: validate_login_issued_def not_le split: if_splits list.splits)
  have after: "(if ?ats = [] then issued else last ?ats) < now"
  proof (rule ccontr)
    assume "\<not> ?thesis"
    then have "sat_sub now (if ?ats = [] then issued else last ?ats) = 0" by (auto simp: sat_sub_def not_less)
    with gap show False by (simp add: word_gt_0)
  qed
  have ats: "sorted_wrt (<) ?ats" "\<And>x. x \<in> set ?ats \<Longrightarrow> plc_created_at c \<le> x \<and> x < plc_expires_at c \<and> fits_i64 x"
    using c(1) by (auto simp: login_fields_valid_def list_all_iff)
  have below: "x < now" if "x \<in> set ?ats" for x
  proof -
    from that have "x \<le> last ?ats"
      using ats(1) by (metis append_butlast_last_id in_set_conv_decomp_first last_in_set sorted_last_bound
          strict_sorted_imp_sorted list.distinct(1) append_is_Nil_conv)
    with after that show ?thesis by (auto split: if_splits)
  qed
  have sorted': "sorted_wrt (<) (?ats @ [now])" using ats(1) below by (auto simp: sorted_wrt_append)
  have first: "issued < x" if "x \<in> set (?ats @ [now])" for x
  proof (cases ?ats)
    case Nil
    with that after show ?thesis by simp
  next
    case (Cons y ys)
    with issued(3) have "issued < y" by simp
    moreover from that sorted' Cons have "y \<le> x" by auto
    ultimately show ?thesis by simp
  qed
  have len: "length (?ats @ [now]) < unat (plc_expires_at c - issued)"
    using sorted' first ats(2) c(7) issued(2) by (intro increasing_length) auto
  have "unat (plc_expires_at c - issued) \<le> unat (plc_expires_at c - plc_created_at c)"
    using issued by (simp add: unat_sub_if' word_less_nat_alt word_le_nat_alt)
  also have "\<dots> \<le> 600" using c(1) by (simp add: login_fields_valid_def word_le_nat_alt)
  finally have short: "length (?ats @ [now]) \<le> 600" using len by simp
  have "fits_i64 now" using c(1,7) fits_i64_less by (auto simp: login_fields_valid_def)
  with short sorted' c show "validate_login_record c' = Inr ()"
    by (auto simp: c' validate_login_record_def login_fields_valid_def login_outcome_invalid_def not_less)
  show "validate_login_issued c' issued = Inr ()"
    using issued first by (cases ?ats) (auto simp: c' validate_login_issued_def not_le not_less)
qed

end
