(* ===== verification/Qid_Push_Store.thy ===== *)
theory Qid_Push_Store
  imports Qid_Push
begin

text \<open>
  The push tables of the file store, \<^verbatim>\<open>qid-storage/src/file/push.rs\<close>: every operation of
  \<^verbatim>\<open>PushRepository\<close>, with quota admission, the roll-back of a failed write and expiry cleanup. The
  instant that \<^verbatim>\<open>AdmissionClock\<close> samples under the lock is the argument \<open>now\<close>.
\<close>

section \<open>Issue times\<close>

definition registration_issued :: "push_store \<Rightarrow> string \<Rightarrow> push_authenticator_record \<Rightarrow> u64 result" where
  "registration_issued p i row =
     and_then (ok_or push_corrupt (hm_get (ps_registration_issued_at p) i)) (\<lambda>issued.
       if (case row of
             Pending c \<Rightarrow> pa_created_at (prc_authenticator c) \<le> issued \<and> issued < prc_expires_at c
           | Enrolled a \<Rightarrow> issued \<noteq> 0 \<and> issued \<le> pa_created_at a)
       then Inr issued else Inl push_corrupt)"

definition login_issued :: "push_store \<Rightarrow> string \<Rightarrow> push_login_challenge \<Rightarrow> u64 result" where
  "login_issued p i c =
     and_then (ok_or push_corrupt (hm_get (ps_login_issued_at p) i)) (\<lambda>issued.
       and_then (validate_login_issued c issued) (\<lambda>_. Inr issued))"

section \<open>Selection of the oldest records\<close>

text \<open>
  \<^verbatim>\<open>BinaryHeap\<close> is a priority queue: its elements in ascending order, so \<^verbatim>\<open>peek\<close> and \<^verbatim>\<open>pop\<close> take the
  last one and \<^verbatim>\<open>into_sorted_vec\<close> is the list itself.
\<close>

fun select_loop :: "nat \<Rightarrow> (u64 \<times> string) list \<Rightarrow> (u64 \<times> string) list \<Rightarrow> (u64 \<times> string) list" where
  "select_loop limit selected [] = selected"
| "select_loop limit selected (key # keys) =
     select_loop limit
       (if length selected < limit then insort key selected
        else if selected \<noteq> [] \<and> key < last selected then insort key (butlast selected)
        else selected) keys"

definition select_oldest :: "(u64 \<times> string) list \<Rightarrow> nat \<Rightarrow> string list" where
  "select_oldest candidates limit = map snd (select_loop limit [] candidates)"

section \<open>Atomic changes\<close>

text \<open>
  The change is written to disk before it is reported, in either flush mode; a write that fails puts
  the push tables back.
\<close>

definition mutate_push_value ::
    "io \<Rightarrow> (store \<Rightarrow> (store \<times> bool \<times> 'a) result) \<Rightarrow> file_repository \<Rightarrow> 'a result \<times> file_repository" where
  "mutate_push_value io f r =
     (let before = st_push (repo_store r)
      in case f (repo_store r) of
           Inl e \<Rightarrow> (Inl e, r)
         | Inr (s, changed, v) \<Rightarrow>
             let r' = r\<lparr>repo_store := s\<rparr>
             in if \<not> changed then (Inr v, r')
                else (case write_store_content io s r' of
                        (Inl e, r'') \<Rightarrow> (Inl e, r''\<lparr>repo_store := s\<lparr>st_push := before\<rparr>\<rparr>)
                      | (Inr _, r'') \<Rightarrow> (Inr v, r'')))"

definition mutate_push ::
    "io \<Rightarrow> (store \<Rightarrow> (store \<times> bool) result) \<Rightarrow> file_repository \<Rightarrow> bool result \<times> file_repository" where
  "mutate_push io f = mutate_push_value io (\<lambda>s. and_then (f s) (\<lambda>(s', changed). Inr (s', changed, changed)))"

definition put_authenticator :: "string \<Rightarrow> push_authenticator_record \<Rightarrow> store \<Rightarrow> store" where
  "put_authenticator i row s =
     s\<lparr>st_push := (st_push s)\<lparr>ps_authenticators := hm_insert i row (ps_authenticators (st_push s))\<rparr>\<rparr>"

definition put_login :: "string \<Rightarrow> push_login_challenge \<Rightarrow> store \<Rightarrow> store" where
  "put_login i row s = s\<lparr>st_push := (st_push s)\<lparr>ps_logins := hm_insert i row (ps_logins (st_push s))\<rparr>\<rparr>"

section \<open>Registration\<close>

definition get_push_registration ::
    "string \<Rightarrow> string \<Rightarrow> string \<Rightarrow> file_repository \<Rightarrow> push_registration_challenge option result" where
  "get_push_registration realm user i r =
     (case hm_get (ps_authenticators (st_push (repo_store r))) i of
        None \<Rightarrow> Inr None
      | Some row \<Rightarrow> and_then (authenticator_record row i) (\<lambda>a.
          if pa_realm_id a \<noteq> realm \<or> pa_user_id a \<noteq> user then Inr None
          else Inr (case row of Pending c \<Rightarrow> Some c | Enrolled _ \<Rightarrow> None)))"

definition attempt_push_registration ::
    "io \<Rightarrow> push_registration_challenge \<Rightarrow> bool \<Rightarrow> u64 \<Rightarrow> file_repository \<Rightarrow> bool result \<times> file_repository" where
  "attempt_push_registration io expected verified now = mutate_push io (\<lambda>s.
     let a = prc_authenticator expected; p = st_push s
     in if none_or (hm_get (st_users s) (pa_user_id a)) (\<lambda>u. usr_realm_id u \<noteq> pa_realm_id a) then Inr (s, False)
        else and_then (validate_registration_record expected) (\<lambda>_.
          case hm_get (ps_authenticators p) (pa_id a) of
            None \<Rightarrow> Inr (s, False)
          | Some c \<Rightarrow>
              and_then (authenticator_record c (pa_id a)) (\<lambda>_.
              and_then (registration_issued p (pa_id a) c) (\<lambda>issued.
                if now < issued then Inr (s, False)
                else case registration_attempt expected verified now c of
                       None \<Rightarrow> Inr (s, False)
                     | Some c' \<Rightarrow> and_then (authenticator_record c' (pa_id a)) (\<lambda>_.
                         Inr (put_authenticator (pa_id a) c' s, True))))))"

definition get_push_authenticator ::
    "string \<Rightarrow> string \<Rightarrow> string \<Rightarrow> file_repository \<Rightarrow> push_authenticator option result" where
  "get_push_authenticator realm user i r =
     (case hm_get (ps_authenticators (st_push (repo_store r))) i of
        None \<Rightarrow> Inr None
      | Some row \<Rightarrow> and_then (enrolled row i) (\<lambda>found.
          case found of
            None \<Rightarrow> Inr None
          | Some a \<Rightarrow> if pa_realm_id a \<noteq> realm \<or> pa_user_id a \<noteq> user then Inr None else Inr (Some a)))"

definition list_push_authenticators :: "string \<Rightarrow> string \<Rightarrow> file_repository \<Rightarrow> push_authenticator list result" where
  "list_push_authenticators realm user r =
     and_then (try_map (\<lambda>(i, row). enrolled row i) (ps_authenticators (st_push (repo_store r)))) (\<lambda>rows.
       Inr (sort_key pa_id (filter (\<lambda>a. pa_realm_id a = realm \<and> pa_user_id a = user)
         (List.map_filter id rows))))"

definition revoke_push_authenticator ::
    "io \<Rightarrow> string \<Rightarrow> string \<Rightarrow> string \<Rightarrow> u64 \<Rightarrow> file_repository \<Rightarrow> bool result \<times> file_repository" where
  "revoke_push_authenticator io realm user i now = mutate_push io (\<lambda>s.
     case hm_get (ps_authenticators (st_push s)) i of
       None \<Rightarrow> Inr (s, False)
     | Some row \<Rightarrow> and_then (authenticator_record row i) (\<lambda>_.
         case row of
           Pending _ \<Rightarrow> Inr (s, False)
         | Enrolled a \<Rightarrow>
             if pa_realm_id a \<noteq> realm \<or> pa_user_id a \<noteq> user \<or> pa_revoked_at a \<noteq> None \<or> now < pa_created_at a
             then Inr (s, False)
             else let a' = a\<lparr>pa_revoked_at := Some now\<rparr>
                  in and_then (validate_authenticator_record a') (\<lambda>_.
                       Inr (put_authenticator i (Enrolled a') s, True))))"

section \<open>Logins\<close>

definition get_push_login ::
    "string \<Rightarrow> string \<Rightarrow> string \<Rightarrow> file_repository \<Rightarrow> push_login_challenge option result" where
  "get_push_login realm user i r =
     (let p = st_push (repo_store r)
      in case hm_get (ps_logins p) i of
           None \<Rightarrow> Inr None
         | Some c \<Rightarrow> and_then (validate_login_record c) (\<lambda>_.
             if plc_id c \<noteq> i then Inl push_corrupt
             else and_then (login_issued p i c) (\<lambda>_.
               if plc_realm_id c \<noteq> realm \<or> plc_user_id c \<noteq> user then Inr None else Inr (Some c))))"

text \<open>
  The guard that a decision, a redemption and a resend share: the authenticator of the challenge is
  enrolled and current.
\<close>

definition with_current ::
    "push_store \<Rightarrow> push_login_challenge \<Rightarrow> 'a result \<Rightarrow> 'a result \<Rightarrow> 'a result" where
  "with_current p expected refused go =
     (case hm_get (ps_authenticators p) (plc_authenticator_id expected) of
        None \<Rightarrow> refused
      | Some row \<Rightarrow> and_then (enrolled row (plc_authenticator_id expected)) (\<lambda>found.
          case found of
            None \<Rightarrow> refused
          | Some a \<Rightarrow> if push_current a expected then go else refused))"

definition change_login ::
    "(push_login_challenge \<Rightarrow> push_login_challenge option) \<Rightarrow> push_login_challenge \<Rightarrow> store \<Rightarrow> (store \<times> bool) result" where
  "change_login transition expected s =
     (let p = st_push s
      in case hm_get (ps_logins p) (plc_id expected) of
           None \<Rightarrow> Inr (s, False)
         | Some c \<Rightarrow>
             and_then (login_issued p (plc_id expected) c) (\<lambda>_.
             and_then (validate_login_record c) (\<lambda>_.
               if plc_id c \<noteq> plc_id expected then Inl push_corrupt
               else case transition c of
                      None \<Rightarrow> Inr (s, False)
                    | Some c' \<Rightarrow> and_then (validate_login_record c') (\<lambda>_.
                        Inr (put_login (plc_id expected) c' s, True)))))"

definition attempt_push_login ::
    "io \<Rightarrow> push_login_challenge \<Rightarrow> push_decision option \<Rightarrow> u64 \<Rightarrow> file_repository \<Rightarrow> bool result \<times> file_repository" where
  "attempt_push_login io expected decision now = mutate_push io (\<lambda>s.
     and_then (validate_login_record expected) (\<lambda>_.
       with_current (st_push s) expected (Inr (s, False)) (change_login (login_attempt expected decision now) expected s)))"

definition redeem_push_login ::
    "io \<Rightarrow> push_login_challenge \<Rightarrow> string \<Rightarrow> u64 \<Rightarrow> file_repository \<Rightarrow> bool result \<times> file_repository" where
  "redeem_push_login io expected binding now = mutate_push io (\<lambda>s.
     and_then (validate_login_record expected) (\<lambda>_.
       if \<not> verifier binding then Inr (s, False)
       else with_current (st_push s) expected (Inr (s, False)) (change_login (redeem expected binding now) expected s)))"

section \<open>Quota admission\<close>

definition registration_count :: "push_store \<Rightarrow> push_authenticator \<Rightarrow> u64 \<Rightarrow> nat result" where
  "registration_count p a start =
     try_sum (\<lambda>(i, row). and_then (authenticator_record row i) (\<lambda>stored.
       if pa_realm_id stored = pa_realm_id a \<and> pa_user_id stored = pa_user_id a
       then and_then (registration_issued p i row) (\<lambda>issued. Inr (if start \<le> issued then 1 else 0))
       else Inr 0)) (ps_authenticators p)"

definition try_issue_push_registration ::
    "io \<Rightarrow> u64 \<Rightarrow> push_registration_challenge \<Rightarrow> u32 \<Rightarrow> u64 \<Rightarrow> file_repository \<Rightarrow> bool result \<times> file_repository" where
  "try_issue_push_registration io now c max_issuances window_seconds r =
     (case validate_registration c of
        Inl e \<Rightarrow> (Inl e, r)
      | Inr _ \<Rightarrow> mutate_push io (\<lambda>s.
          let a = prc_authenticator c; p = st_push s
          in and_then (quota_window_start (pa_created_at a) (prc_expires_at c) now max_issuances window_seconds) (\<lambda>start.
               if none_or (hm_get (st_users s) (pa_user_id a)) (\<lambda>u. usr_realm_id u \<noteq> pa_realm_id a)
               then Inl push_conflict
               else if hm_contains (ps_authenticators p) (pa_id a) then Inl push_conflict
               else and_then (registration_count p a start) (\<lambda>count.
                 if unat max_issuances \<le> count then Inr (s, False)
                 else Inr (s\<lparr>st_push := p\<lparr>ps_authenticators := hm_insert (pa_id a) (Pending c) (ps_authenticators p),
                        ps_registration_issued_at := hm_insert (pa_id a) now (ps_registration_issued_at p)\<rparr>\<rparr>, True)))) r)"

text \<open>The sends of the purpose's logins of a user since \<open>start\<close>, over all stored rows.\<close>

definition login_sends :: "push_store \<Rightarrow> push_login_challenge \<Rightarrow> u64 \<Rightarrow> nat result" where
  "login_sends p c start =
     try_sum (\<lambda>(i, row). and_then (validate_login_record row) (\<lambda>_.
       if plc_id row \<noteq> i then Inl push_corrupt
       else if plc_realm_id row = plc_realm_id c \<and> plc_user_id row = plc_user_id c
               \<and> login_purpose_str (plc_purpose row) = login_purpose_str (plc_purpose c)
       then and_then (login_issued p i row) (\<lambda>issued. send_count row issued start)
       else Inr 0)) (ps_logins p)"

definition try_issue_push_login ::
    "io \<Rightarrow> u64 \<Rightarrow> push_login_challenge \<Rightarrow> u32 \<Rightarrow> u64 \<Rightarrow> file_repository \<Rightarrow> bool result \<times> file_repository" where
  "try_issue_push_login io now c max_issuances window_seconds r =
     (case validate_login c of
        Inl e \<Rightarrow> (Inl e, r)
      | Inr _ \<Rightarrow> mutate_push io (\<lambda>s.
          let p = st_push s
          in and_then (quota_window_start (plc_created_at c) (plc_expires_at c) now max_issuances window_seconds) (\<lambda>start.
               if hm_contains (ps_logins p) (plc_id c) then Inl push_conflict
               else with_current p c (Inl push_conflict)
                 (and_then (login_sends p c start) (\<lambda>count.
                    if unat max_issuances \<le> count then Inr (s, False)
                    else Inr (s\<lparr>st_push := p\<lparr>ps_login_issued_at := hm_insert (plc_id c) now (ps_login_issued_at p),
                           ps_logins := hm_insert (plc_id c) c (ps_logins p)\<rparr>\<rparr>, True))))) r)"

definition try_resend_push_login ::
    "io \<Rightarrow> u64 \<Rightarrow> push_login_challenge \<Rightarrow> string \<Rightarrow> string \<Rightarrow> u32 \<Rightarrow> u64 \<Rightarrow> u64 \<Rightarrow> file_repository
      \<Rightarrow> push_login_challenge option result \<times> file_repository" where
  "try_resend_push_login io now expected binding nonce max_issuances window_seconds cooldown r =
     (case validate_login_record expected of
        Inl e \<Rightarrow> (Inl e, r)
      | Inr _ \<Rightarrow> mutate_push_value io (\<lambda>s.
          let p = st_push s
          in if now < plc_created_at expected \<or> plc_expires_at expected \<le> now then Inr (s, False, None)
             else and_then (quota_window_start (plc_created_at expected) (plc_expires_at expected) now
                              max_issuances window_seconds) (\<lambda>start.
               with_current p expected (Inr (s, False, None))
                 (and_then (login_sends p expected start) (\<lambda>count.
                    if unat max_issuances \<le> count then Inr (s, False, None)
                    else case hm_get (ps_logins p) (plc_id expected) of
                           None \<Rightarrow> Inr (s, False, None)
                         | Some c \<Rightarrow> and_then (login_issued p (plc_id expected) c) (\<lambda>issued.
                             case resend expected binding nonce issued cooldown now c of
                               None \<Rightarrow> Inr (s, False, None)
                             | Some c' \<Rightarrow> and_then (validate_login_record c') (\<lambda>_.
                                 Inr (put_login (plc_id expected) c' s, True, Some c'))))))) r)"

section \<open>Expiry cleanup\<close>

text \<open>
  Every row is validated before anything is removed. After that every row has its issue time, so
  the lookups below, which panic on a missing entry in the source, always find one.
\<close>

definition validate_push_rows :: "push_store \<Rightarrow> unit result" where
  "validate_push_rows p =
     and_then (try_each (\<lambda>(i, row). and_then (authenticator_record row i) (\<lambda>_.
         and_then (registration_issued p i row) (\<lambda>_. Inr ()))) (ps_authenticators p)) (\<lambda>_.
       try_each (\<lambda>(i, c). and_then (validate_login_record c) (\<lambda>_.
         if plc_id c \<noteq> i then Inl push_corrupt else and_then (login_issued p i c) (\<lambda>_. Inr ()))) (ps_logins p))"

definition expired_registrations :: "u64 \<Rightarrow> u64 \<Rightarrow> push_store \<Rightarrow> (u64 \<times> string) list" where
  "expired_registrations now cutoff p = List.map_filter (\<lambda>(i, row).
     case (row, hm_get (ps_registration_issued_at p) i) of
       (Pending c, Some issued) \<Rightarrow> if prc_expires_at c \<le> now \<and> issued < cutoff then Some (issued, i) else None
     | _ \<Rightarrow> None) (ps_authenticators p)"

definition expired_logins :: "u64 \<Rightarrow> push_store \<Rightarrow> (u64 \<times> string) list" where
  "expired_logins cutoff p = List.map_filter (\<lambda>(i, c).
     case hm_get (ps_login_issued_at p) i of
       Some issued \<Rightarrow> if plc_expires_at c < cutoff then Some (issued, i) else None
     | None \<Rightarrow> None) (ps_logins p)"

definition drop_registration :: "string \<Rightarrow> push_store \<Rightarrow> push_store" where
  "drop_registration i p = p\<lparr>ps_authenticators := hm_remove i (ps_authenticators p),
     ps_registration_issued_at := hm_remove i (ps_registration_issued_at p)\<rparr>"

definition drop_login :: "string \<Rightarrow> push_store \<Rightarrow> push_store" where
  "drop_login i p = p\<lparr>ps_logins := hm_remove i (ps_logins p), ps_login_issued_at := hm_remove i (ps_login_issued_at p)\<rparr>"

text \<open>Putting back the rows that were removed from \<open>before\<close>.\<close>

definition restore_registration :: "push_store \<Rightarrow> string \<Rightarrow> push_store \<Rightarrow> push_store" where
  "restore_registration before i p =
     (case (hm_get (ps_authenticators before) i, hm_get (ps_registration_issued_at before) i) of
        (Some row, Some issued) \<Rightarrow>
          p\<lparr>ps_registration_issued_at := hm_insert i issued (ps_registration_issued_at p),
            ps_authenticators := hm_insert i row (ps_authenticators p)\<rparr>
      | _ \<Rightarrow> p)"

definition restore_login :: "push_store \<Rightarrow> string \<Rightarrow> push_store \<Rightarrow> push_store" where
  "restore_login before i p =
     (case (hm_get (ps_logins before) i, hm_get (ps_login_issued_at before) i) of
        (Some row, Some issued) \<Rightarrow>
          p\<lparr>ps_login_issued_at := hm_insert i issued (ps_login_issued_at p),
            ps_logins := hm_insert i row (ps_logins p)\<rparr>
      | _ \<Rightarrow> p)"

definition cleanup_selection :: "u64 \<Rightarrow> u64 \<Rightarrow> nat \<Rightarrow> push_store \<Rightarrow> string list \<times> string list" where
  "cleanup_selection now cutoff limit p =
     (let regs = select_oldest (expired_registrations now cutoff p) limit;
          remaining = limit - length regs
      in (regs, if remaining = 0 then [] else select_oldest (expired_logins cutoff p) remaining))"

definition cleanup_expired_push_records ::
    "io \<Rightarrow> u64 \<Rightarrow> u32 \<Rightarrow> file_repository \<Rightarrow> nat result \<times> file_repository" where
  "cleanup_expired_push_records io now limit r =
     (case cleanup_cutoff now limit of
        Inl e \<Rightarrow> (Inl e, r)
      | Inr cutoff \<Rightarrow>
          let s = repo_store r; p = st_push s
          in case validate_push_rows p of
               Inl e \<Rightarrow> (Inl e, r)
             | Inr _ \<Rightarrow>
                 let (regs, logins) = cleanup_selection now cutoff (unat limit) p;
                     p' = fold drop_login logins (fold drop_registration regs p);
                     s' = s\<lparr>st_push := p'\<rparr>
                 in if length regs + length logins = 0 then (Inr 0, r)
                    else case write_store_content io s' (r\<lparr>repo_store := s'\<rparr>) of
                           (Inl e, r') \<Rightarrow>
                             (Inl e, r'\<lparr>repo_store := s'\<lparr>st_push :=
                                fold (restore_login p) logins (fold (restore_registration p) regs p')\<rparr>\<rparr>)
                         | (Inr _, r') \<Rightarrow> (Inr (length regs + length logins), r'))"

section \<open>The selection is the sorted prefix\<close>

lemma take_insort_take:
  "sorted xs \<Longrightarrow> take n (insort x (take n xs)) = take n (insort x (xs :: ('a::linorder) list))"
proof (induction xs arbitrary: n)
  case (Cons y ys)
  show ?case
  proof (cases n)
    case (Suc m)
    with Cons show ?thesis by (cases m) auto
  qed simp
qed simp

lemma insort_last_small:
  assumes "sorted xs" "xs \<noteq> []" "x < last xs"
  shows "insort x (butlast xs) = take (length xs) (insort (x :: 'a::linorder) xs)"
  using assms
proof (induction xs)
  case (Cons y ys)
  show ?case
  proof (cases "ys = []")
    case True
    with Cons.prems show ?thesis by (simp add: less_imp_le)
  next
    case False
    with Cons show ?thesis by (auto simp: take_Cons' butlast_conv_take)
  qed
qed simp

lemma insort_replicate: "insort x (replicate n x) = replicate (Suc n) (x :: 'a::linorder)"
  by (cases n) auto

lemma take_replicate_Suc: "take n (replicate (Suc n) x) = replicate n x"
  by (simp only: take_replicate) simp

lemma insort_last_large:
  assumes "sorted xs" "xs = [] \<or> \<not> x < last xs"
  shows "take (length xs) (insort (x :: 'a::linorder) xs) = xs"
  using assms
proof (induction xs)
  case (Cons y ys)
  show ?case
  proof (cases "ys = []")
    case True
    with Cons.prems show ?thesis by auto
  next
    case False
    with Cons.prems have "ys \<noteq> []" "\<not> x < last ys" "sorted ys" "y \<le> last ys" by (auto intro: last_in_set)
    show ?thesis
    proof (cases "x \<le> y")
      case True
      have "z = x" if "z \<in> set (y # ys)" for z
      proof -
        from that Cons.prems(1) have "y \<le> z" by auto
        moreover from that \<open>y \<le> last ys\<close> sorted_last_bound [OF \<open>sorted ys\<close>] have "z \<le> last ys" by auto
        ultimately show ?thesis using True \<open>\<not> x < last ys\<close> by (meson leI order.trans order_antisym)
      qed
      then have "y # ys = replicate (length (y # ys)) x" by (intro replicate_eqI) auto
      then show ?thesis by (metis insort_replicate length_replicate take_replicate_Suc)
    next
      case False
      with Cons.IH \<open>\<not> x < last ys\<close> \<open>sorted ys\<close> show ?thesis by simp
    qed
  qed
qed simp

lemma select_step:
  assumes "sorted sel" "length sel \<le> limit" "0 < limit"
  shows "(if length sel < limit then insort key sel
      else if sel \<noteq> [] \<and> key < last sel then insort key (butlast sel) else sel) = take limit (insort key sel)"
  using assms insort_last_small [of sel key] insort_last_large [of sel key] by (auto simp: length_insort)

lemma take_fold_insort:
  "sorted xs \<Longrightarrow> take n (fold insort ks (take n xs)) = take n (fold insort ks (xs :: ('a::linorder) list))"
proof (induction ks arbitrary: xs)
  case (Cons k ks)
  have s: "sorted (insort k (take n xs))" "sorted (insort k xs)"
    using Cons.prems by (simp_all add: sorted_insort sorted_wrt_take)
  have "take n (fold insort ks (insort k (take n xs))) = take n (fold insort ks (take n (insort k (take n xs))))"
    using Cons.IH [OF s(1)] by simp
  also have "\<dots> = take n (fold insort ks (take n (insort k xs)))"
    using take_insort_take [OF Cons.prems] by simp
  also have "\<dots> = take n (fold insort ks (insort k xs))" using Cons.IH [OF s(2)] .
  finally show ?case by simp
qed simp

lemma select_loop_sorted_prefix:
  assumes "sorted sel" "length sel \<le> limit" "0 < limit"
  shows "select_loop limit sel keys = take limit (fold insort keys sel)"
  using assms
proof (induction keys arbitrary: sel)
  case (Cons key keys)
  let ?sel = "take limit (insort key sel)"
  have sorted: "sorted (insort key sel)" using Cons.prems(1) by (simp add: sorted_insort)
  have "select_loop limit sel (key # keys) = take limit (fold insort keys ?sel)"
    using Cons.IH [of ?sel] Cons.prems sorted select_step [OF Cons.prems, of key] by (simp add: sorted_wrt_take)
  also have "\<dots> = take limit (fold insort keys (insort key sel))"
    by (rule take_fold_insort [OF sorted])
  finally show ?case by simp
qed simp

lemma fold_insort_sort: "fold insort keys [] = sort (keys :: ('a::linorder) list)"
  by (simp add: sort_conv_fold)

lemma select_oldest_prefix:
  "0 < limit \<Longrightarrow> select_oldest candidates limit = map snd (take limit (sort candidates))"
  using select_loop_sorted_prefix [of "[]" limit candidates] by (simp add: select_oldest_def fold_insort_sort)

lemma select_oldest_subset:
  assumes "i \<in> set (select_oldest candidates limit)" "0 < limit"
  shows "\<exists>issued. (issued, i) \<in> set candidates"
  using assms by (force simp: select_oldest_prefix dest: in_set_takeD)

text \<open>
  Selecting the oldest records with a heap of bounded size equals sorting all candidates by age
  and identifier and taking the first ones, whatever the order in which the table yields them.
\<close>

theorem select_oldest_sorted_prefix:
  assumes "0 < limit"
  shows "select_oldest candidates limit = map snd (take limit (sort candidates))"
  using assms by (rule select_oldest_prefix)

theorem select_oldest_sorted_prefix_witness:
  "0 < (2::nat) \<and> select_oldest [(3, ''c''), (1, ''b''), (1, ''a''), (2, ''d'')] 2 = [''a'', ''b'']"
  using select_oldest_sorted_prefix [of 2 "[(3, ''c''), (1, ''b''), (1, ''a''), (2, ''d'')]"] by simp

end
