(* ===== verification/Qid_Push_Props.thy ===== *)
theory Qid_Push_Props
  imports Qid_Push_Store
begin

text \<open>
  Correctness of push approval: the rows stay valid under every operation, a decision and a
  redemption happen at most once and only in that order, the attempts and the sends of a user are
  bounded, and cleanup removes nothing that a quota still counts.
\<close>

section \<open>What the operations do to the tables\<close>

lemma mutate_push_value_push:
  assumes "P (st_push (repo_store r))"
    and "\<And>s b v. f (repo_store r) = Inr (s, b, v) \<Longrightarrow> P (st_push s)"
  shows "P (st_push (repo_store (snd (mutate_push_value io f r))))"
  using assms
  by (auto simp: mutate_push_value_def Let_def write_store_content_def split: sum.splits prod.splits option.splits)

lemma mutate_push_push:
  assumes "P (st_push (repo_store r))" and "\<And>s b. f (repo_store r) = Inr (s, b) \<Longrightarrow> P (st_push s)"
  shows "P (st_push (repo_store (snd (mutate_push io f r))))"
  unfolding mutate_push_def by (rule mutate_push_value_push) (use assms in auto)

lemma mutate_push_value_Inr:
  assumes "mutate_push_value io f r = (Inr v, r')"
  obtains s b where "f (repo_store r) = Inr (s, b, v)" "repo_store r' = s"
  using assms
  by (auto simp: mutate_push_value_def Let_def write_store_content_def split: sum.splits prod.splits option.splits if_splits)

lemma mutate_push_Inr:
  assumes "mutate_push io f r = (Inr b, r')"
  obtains s where "f (repo_store r) = Inr (s, b)" "repo_store r' = s"
  using assms unfolding mutate_push_def by (elim mutate_push_value_Inr) auto

lemma with_current_Inr:
  assumes "with_current p expected refused go = Inr x"
  obtains "refused = Inr x"
  | a where "hm_get (ps_authenticators p) (plc_authenticator_id expected) = Some (Enrolled a)"
      "push_current a expected" "go = Inr x"
  using assms
  by (auto simp: with_current_def enrolled_def split: option.splits push_authenticator_record.splits if_splits)

lemma change_login_Inr:
  assumes "change_login transition expected s = Inr (s', b)"
  obtains "s' = s" "\<not> b"
  | c c' issued where "b" "hm_get (ps_logins (st_push s)) (plc_id expected) = Some c" "plc_id c = plc_id expected"
      "login_issued (st_push s) (plc_id expected) c = Inr issued" "validate_login_record c = Inr ()"
      "transition c = Some c'" "validate_login_record c' = Inr ()" "s' = put_login (plc_id expected) c' s"
proof (cases "hm_get (ps_logins (st_push s)) (plc_id expected)")
  case None
  with assms that(1) show ?thesis by (simp add: change_login_def Let_def)
next
  case (Some c)
  with assms obtain issued where c: "login_issued (st_push s) (plc_id expected) c = Inr issued"
    "validate_login_record c = Inr ()" "plc_id c = plc_id expected"
    by (auto simp: change_login_def Let_def split: if_splits)
  show ?thesis
  proof (cases "transition c")
    case None
    with assms Some c that(1) show ?thesis by (simp add: change_login_def Let_def)
  next
    case (Some c')
    with assms \<open>hm_get _ _ = Some c\<close> c have "validate_login_record c' = Inr ()" "s' = put_login (plc_id expected) c' s" "b"
      by (simp_all add: change_login_def Let_def)
    with that(2) Some \<open>hm_get _ _ = Some c\<close> c show ?thesis by blast
  qed
qed

lemma login_attempt_Some:
  assumes "login_attempt expected decision now c = Some c'"
  shows "same_login c expected" "plc_decision c = None" "plc_consumed_at c = None"
    "plc_attempt_count c < plc_max_attempts c" "plc_created_at c \<le> now" "now < plc_expires_at c"
    "c' = (case decision of None \<Rightarrow> c\<lparr>plc_attempt_count := plc_attempt_count c + 1\<rparr>
        | Some d \<Rightarrow> c\<lparr>plc_attempt_count := plc_attempt_count c + 1, plc_decision := Some d, plc_decided_at := Some now\<rparr>)"
  using assms by (auto simp: login_attempt_def push_live_def Let_def split: if_splits option.splits)

lemma redeem_Some:
  assumes "redeem expected binding now c = Some c'"
  shows "same_login c expected" "plc_decision c = Some PushApprove" "plc_consumed_at c = None"
    "plc_browser_binding_verifier c = binding" "plc_created_at c \<le> now" "now < plc_expires_at c"
    "\<exists>tm. plc_decided_at c = Some tm \<and> tm \<le> now" "c' = c\<lparr>plc_consumed_at := Some now\<rparr>"
  using assms
  by (auto simp: redeem_def push_live_def constant_time_eq_def none_or_def split: if_splits option.splits)

lemma resend_Some:
  assumes "resend expected binding nonce issued cooldown now c = Some c'"
  shows "same_login c expected" "plc_decision c = None" "plc_consumed_at c = None"
    "c' = c\<lparr>plc_nonce_verifier := nonce, plc_resend_admitted_at := plc_resend_admitted_at c @ [now]\<rparr>"
    "plc_created_at c \<le> now" "now < plc_expires_at c"
  using assms by (auto simp: resend_def push_live_def split: if_splits)

section \<open>Validity of the stored rows\<close>

definition login_row_valid :: "push_store \<Rightarrow> string \<Rightarrow> push_login_challenge \<Rightarrow> bool" where
  "login_row_valid p i c \<longleftrightarrow> validate_login_record c = Inr () \<and> plc_id c = i \<and> is_ok (login_issued p i c)"

definition authenticator_row_valid :: "push_store \<Rightarrow> string \<Rightarrow> push_authenticator_record \<Rightarrow> bool" where
  "authenticator_row_valid p i row \<longleftrightarrow> is_ok (authenticator_record row i) \<and> is_ok (registration_issued p i row)"

definition push_valid :: "push_store \<Rightarrow> bool" where
  "push_valid p \<longleftrightarrow> hm_wf (ps_authenticators p) \<and> hm_wf (ps_logins p)
     \<and> hm_wf (ps_registration_issued_at p) \<and> hm_wf (ps_login_issued_at p)
     \<and> (\<forall>i row. hm_get (ps_authenticators p) i = Some row \<longrightarrow> authenticator_row_valid p i row)
     \<and> (\<forall>i c. hm_get (ps_logins p) i = Some c \<longrightarrow> login_row_valid p i c)"

lemma is_ok_and_then [simp]: "is_ok (and_then m f) \<longleftrightarrow> (\<exists>a. m = Inr a \<and> is_ok (f a))"
  by (cases m) auto

lemma is_ok_iff: "is_ok m \<longleftrightarrow> (\<exists>a. m = Inr a)"
  by (cases m) auto

lemma validate_push_rows_valid:
  assumes "push_valid p"
  shows "validate_push_rows p = Inr ()"
proof -
  have "(\<lambda>(i, row). and_then (authenticator_record row i) (\<lambda>_.
      and_then (registration_issued p i row) (\<lambda>_. Inr ()))) x = Inr ()" if "x \<in> set (ps_authenticators p)" for x
  proof -
    obtain i row where x: "x = (i, row)" by fastforce
    with that assms have "authenticator_row_valid p i row" by (simp add: push_valid_def hm_mem_iff)
    then show ?thesis by (auto simp: x authenticator_row_valid_def is_ok_iff)
  qed
  moreover have "(\<lambda>(i, c). and_then (validate_login_record c) (\<lambda>_.
      if plc_id c \<noteq> i then Inl push_corrupt else and_then (login_issued p i c) (\<lambda>_. Inr ()))) x = Inr ()"
    if "x \<in> set (ps_logins p)" for x
  proof -
    obtain i c where x: "x = (i, c)" by fastforce
    with that assms have "login_row_valid p i c" by (simp add: push_valid_def hm_mem_iff)
    then show ?thesis by (auto simp: x login_row_valid_def is_ok_iff)
  qed
  ultimately show ?thesis by (simp add: validate_push_rows_def try_each_ok_iff)
qed

lemma login_issued_schedule:
  assumes "plc_created_at c' = plc_created_at c" "plc_expires_at c' = plc_expires_at c"
    "plc_resend_admitted_at c' = plc_resend_admitted_at c"
  shows "login_issued p i c' = login_issued p i c"
  using assms by (simp add: login_issued_def validate_login_issued_def)

section \<open>Changes of the push tables\<close>

text \<open>
  What an operation tells: the login that took an attempt, the login that was redeemed, a
  notification that was sent with the quota it was admitted under, or a cleanup.
\<close>

datatype push_event =
    Other
  | Attempt string
  | Redeemed string
  | Issued u64 push_login_challenge u32 u64
  | Resent u64 push_login_challenge u32 u64
  | Cleaned u64

text \<open>The same tables, perhaps in another order.\<close>

definition push_equiv :: "push_store \<Rightarrow> push_store \<Rightarrow> bool" where
  "push_equiv p p' \<longleftrightarrow>
     map_of (ps_authenticators p') = map_of (ps_authenticators p) \<and> map_of (ps_logins p') = map_of (ps_logins p)
     \<and> map_of (ps_registration_issued_at p') = map_of (ps_registration_issued_at p)
     \<and> map_of (ps_login_issued_at p') = map_of (ps_login_issued_at p)
     \<and> (push_valid p \<longrightarrow> hm_wf (ps_authenticators p') \<and> hm_wf (ps_logins p')
          \<and> hm_wf (ps_registration_issued_at p') \<and> hm_wf (ps_login_issued_at p'))"

definition current_login :: "push_store \<Rightarrow> push_login_challenge \<Rightarrow> bool" where
  "current_login p c \<longleftrightarrow> (\<exists>a. hm_get (ps_authenticators p) (plc_authenticator_id c) = Some (Enrolled a) \<and> push_current a c)"

inductive push_change :: "push_event \<Rightarrow> push_store \<Rightarrow> push_store \<Rightarrow> bool" where
  stay: "push_equiv p p' \<Longrightarrow> push_change Other p p'"
| prove_key:
    "\<lbrakk>hm_get (ps_authenticators p) i = Some row; authenticator_record row i = Inr a;
      registration_issued p i row = Inr issued; issued \<le> now;
      registration_attempt expected verified now row = Some row'\<rbrakk>
     \<Longrightarrow> push_change Other p (p\<lparr>ps_authenticators := hm_insert i row' (ps_authenticators p)\<rparr>)"
| revoke:
    "\<lbrakk>hm_get (ps_authenticators p) i = Some (Enrolled a); pa_revoked_at a = None; pa_created_at a \<le> now\<rbrakk>
     \<Longrightarrow> push_change Other p
          (p\<lparr>ps_authenticators := hm_insert i (Enrolled (a\<lparr>pa_revoked_at := Some now\<rparr>)) (ps_authenticators p)\<rparr>)"
| decide:
    "\<lbrakk>hm_get (ps_logins p) i = Some c; current_login p expected; login_attempt expected decision now c = Some c';
      validate_login_record c' = Inr ()\<rbrakk>
     \<Longrightarrow> push_change (Attempt i) p (p\<lparr>ps_logins := hm_insert i c' (ps_logins p)\<rparr>)"
| redeemed:
    "\<lbrakk>hm_get (ps_logins p) i = Some c; current_login p expected; redeem expected binding now c = Some c'\<rbrakk>
     \<Longrightarrow> push_change (Redeemed i) p (p\<lparr>ps_logins := hm_insert i c' (ps_logins p)\<rparr>)"
| issue_key:
    "\<lbrakk>validate_registration c = Inr (); pa_created_at (prc_authenticator c) \<le> now; now < prc_expires_at c;
      i = pa_id (prc_authenticator c); hm_get (ps_authenticators p) i = None\<rbrakk>
     \<Longrightarrow> push_change Other p (p\<lparr>ps_authenticators := hm_insert i (Pending c) (ps_authenticators p),
          ps_registration_issued_at := hm_insert i now (ps_registration_issued_at p)\<rparr>)"
| issue:
    "\<lbrakk>validate_login c = Inr (); current_login p c; i = plc_id c; hm_get (ps_logins p) i = None;
      quota_window_start (plc_created_at c) (plc_expires_at c) now max_issuances window_seconds = Inr start;
      login_sends p c start = Inr n; n < unat max_issuances\<rbrakk>
     \<Longrightarrow> push_change (Issued now c max_issuances window_seconds) p
          (p\<lparr>ps_login_issued_at := hm_insert i now (ps_login_issued_at p), ps_logins := hm_insert i c (ps_logins p)\<rparr>)"
| resent:
    "\<lbrakk>hm_get (ps_logins p) i = Some c; current_login p expected; i = plc_id expected;
      quota_window_start (plc_created_at expected) (plc_expires_at expected) now max_issuances window_seconds = Inr start;
      login_sends p expected start = Inr n; n < unat max_issuances; login_issued p i c = Inr issued;
      resend expected binding nonce issued cooldown now c = Some c'\<rbrakk>
     \<Longrightarrow> push_change (Resent now expected max_issuances window_seconds) p
          (p\<lparr>ps_logins := hm_insert i c' (ps_logins p)\<rparr>)"
| clean:
    "\<lbrakk>cleanup_cutoff now limit = Inr cutoff;
      \<And>i. i \<in> regs \<Longrightarrow> \<exists>issued. (issued, i) \<in> set (expired_registrations now cutoff p);
      \<And>i. i \<in> logins \<Longrightarrow> \<exists>issued. (issued, i) \<in> set (expired_logins cutoff p);
      map_of (ps_authenticators p') = (map_of (ps_authenticators p)) |` (- regs);
      map_of (ps_registration_issued_at p') = (map_of (ps_registration_issued_at p)) |` (- regs);
      map_of (ps_logins p') = (map_of (ps_logins p)) |` (- logins);
      map_of (ps_login_issued_at p') = (map_of (ps_login_issued_at p)) |` (- logins);
      push_valid p \<Longrightarrow> hm_wf (ps_authenticators p') \<and> hm_wf (ps_logins p')
        \<and> hm_wf (ps_registration_issued_at p') \<and> hm_wf (ps_login_issued_at p')\<rbrakk>
     \<Longrightarrow> push_change (Cleaned now) p p'"

inductive push_step :: "push_event \<Rightarrow> file_repository \<Rightarrow> file_repository \<Rightarrow> bool" where
  "push_step Other r (snd (attempt_push_registration io expected verified now r))"
| "push_step Other r (snd (revoke_push_authenticator io realm user i now r))"
| "push_step Other r (snd (try_issue_push_registration io now challenge max_issuances window_seconds r))"
| "push_step (if fst (attempt_push_login io login decision now r) = Inr True then Attempt (plc_id login) else Other)
     r (snd (attempt_push_login io login decision now r))"
| "push_step (if fst (redeem_push_login io login binding now r) = Inr True then Redeemed (plc_id login) else Other)
     r (snd (redeem_push_login io login binding now r))"
| "push_step (if fst (try_issue_push_login io now login max_issuances window_seconds r) = Inr True
              then Issued now login max_issuances window_seconds else Other)
     r (snd (try_issue_push_login io now login max_issuances window_seconds r))"
| "push_step (case fst (try_resend_push_login io now login binding nonce max_issuances window_seconds cooldown r) of
                Inr (Some _) \<Rightarrow> Resent now login max_issuances window_seconds | _ \<Rightarrow> Other)
     r (snd (try_resend_push_login io now login binding nonce max_issuances window_seconds cooldown r))"
| "push_step (case fst (cleanup_expired_push_records io now limit r) of
                Inr n \<Rightarrow> (if n = 0 then Other else Cleaned now) | Inl _ \<Rightarrow> Other)
     r (snd (cleanup_expired_push_records io now limit r))"

section \<open>Every operation is such a change\<close>

lemma push_equiv_refl [simp]: "push_equiv p p"
  by (simp add: push_equiv_def push_valid_def)

lemma mutate_push_change:
  assumes "\<And>s b. f (repo_store r) = Inr (s, b) \<Longrightarrow> push_change (if b then ev else Other) (st_push (repo_store r)) (st_push s)"
  shows "push_change (if fst (mutate_push io f r) = Inr True then ev else Other)
    (st_push (repo_store r)) (st_push (repo_store (snd (mutate_push io f r))))"
proof (cases "f (repo_store r)")
  case (Inl e)
  then show ?thesis by (simp add: mutate_push_def mutate_push_value_def Let_def stay)
next
  case (Inr x)
  obtain s b where x: "x = (s, b)" by fastforce
  show ?thesis
    using assms [of s b] Inr x
    by (cases io) (auto simp: mutate_push_def mutate_push_value_def Let_def write_store_content_def stay)
qed

lemma mutate_push_stay:
  assumes "\<And>s b. f (repo_store r) = Inr (s, b) \<Longrightarrow> push_change Other (st_push (repo_store r)) (st_push s)"
  shows "push_change Other (st_push (repo_store r)) (st_push (repo_store (snd (mutate_push io f r))))"
  using mutate_push_change [of f r Other io] assms by simp

lemma attempt_push_registration_change:
  "push_change Other (st_push (repo_store r)) (st_push (repo_store (snd (attempt_push_registration io expected verified now r))))"
  unfolding attempt_push_registration_def
proof (rule mutate_push_stay)
  fix s b
  let ?s = "repo_store r" and ?i = "pa_id (prc_authenticator expected)"
  assume run: "(let a = prc_authenticator expected; p = st_push ?s
     in if none_or (hm_get (st_users ?s) (pa_user_id a)) (\<lambda>u. usr_realm_id u \<noteq> pa_realm_id a) then Inr (?s, False)
        else and_then (validate_registration_record expected) (\<lambda>_.
          case hm_get (ps_authenticators p) (pa_id a) of
            None \<Rightarrow> Inr (?s, False)
          | Some c \<Rightarrow>
              and_then (authenticator_record c (pa_id a)) (\<lambda>_.
              and_then (registration_issued p (pa_id a) c) (\<lambda>issued.
                if now < issued then Inr (?s, False)
                else case registration_attempt expected verified now c of
                       None \<Rightarrow> Inr (?s, False)
                     | Some c' \<Rightarrow> and_then (authenticator_record c' (pa_id a)) (\<lambda>_.
                         Inr (put_authenticator (pa_id a) c' ?s, True)))))) = Inr (s, b)"
  then consider "s = ?s" | row row' a issued where "hm_get (ps_authenticators (st_push ?s)) ?i = Some row"
    "authenticator_record row ?i = Inr a" "registration_issued (st_push ?s) ?i row = Inr issued" "issued \<le> now"
    "registration_attempt expected verified now row = Some row'" "s = put_authenticator ?i row' ?s"
    by (fastforce simp: Let_def not_less split: if_splits option.splits)
  then show "push_change Other (st_push ?s) (st_push s)"
  proof cases
    case 2
    then show ?thesis using prove_key [OF 2(1-5)] by (simp add: put_authenticator_def)
  qed (simp add: stay)
qed

lemma revoke_push_authenticator_change:
  "push_change Other (st_push (repo_store r)) (st_push (repo_store (snd (revoke_push_authenticator io realm user i now r))))"
  unfolding revoke_push_authenticator_def
proof (rule mutate_push_stay)
  fix s b
  let ?s = "repo_store r"
  assume run: "(case hm_get (ps_authenticators (st_push ?s)) i of
       None \<Rightarrow> Inr (?s, False)
     | Some row \<Rightarrow> and_then (authenticator_record row i) (\<lambda>_.
         case row of
           Pending _ \<Rightarrow> Inr (?s, False)
         | Enrolled a \<Rightarrow>
             if pa_realm_id a \<noteq> realm \<or> pa_user_id a \<noteq> user \<or> pa_revoked_at a \<noteq> None \<or> now < pa_created_at a
             then Inr (?s, False)
             else let a' = a\<lparr>pa_revoked_at := Some now\<rparr>
                  in and_then (validate_authenticator_record a') (\<lambda>_.
                       Inr (put_authenticator i (Enrolled a') ?s, True)))) = Inr (s, b)"
  then consider "s = ?s" | a where "hm_get (ps_authenticators (st_push ?s)) i = Some (Enrolled a)"
    "pa_revoked_at a = None" "pa_created_at a \<le> now" "s = put_authenticator i (Enrolled (a\<lparr>pa_revoked_at := Some now\<rparr>)) ?s"
    by (fastforce simp: Let_def not_less split: if_splits option.splits push_authenticator_record.splits)
  then show "push_change Other (st_push ?s) (st_push s)"
  proof cases
    case 2
    then show ?thesis using revoke [OF 2(1-3)] by (simp add: put_authenticator_def)
  qed (simp add: stay)
qed

lemma try_issue_push_registration_change:
  "push_change Other (st_push (repo_store r))
     (st_push (repo_store (snd (try_issue_push_registration io now c max_issuances window_seconds r))))"
proof (cases "validate_registration c")
  case (Inl e)
  then show ?thesis by (simp add: try_issue_push_registration_def stay)
next
  case (Inr u)
  let ?s = "repo_store r" and ?a = "prc_authenticator c"
  let ?f = "\<lambda>s. let a = prc_authenticator c; p = st_push s
          in and_then (quota_window_start (pa_created_at a) (prc_expires_at c) now max_issuances window_seconds) (\<lambda>start.
               if none_or (hm_get (st_users s) (pa_user_id a)) (\<lambda>u. usr_realm_id u \<noteq> pa_realm_id a)
               then Inl push_conflict
               else if hm_contains (ps_authenticators p) (pa_id a) then Inl push_conflict
               else and_then (registration_count p a start) (\<lambda>count.
                 if unat max_issuances \<le> count then Inr (s, False)
                 else Inr (s\<lparr>st_push := p\<lparr>ps_authenticators := hm_insert (pa_id a) (Pending c) (ps_authenticators p),
                        ps_registration_issued_at := hm_insert (pa_id a) now (ps_registration_issued_at p)\<rparr>\<rparr>, True)))"
  have "push_change Other (st_push ?s) (st_push s)" if "?f ?s = Inr (s, b)" for s b
  proof -
    from that consider "s = ?s" | "pa_created_at ?a \<le> now" "now < prc_expires_at c"
      "hm_get (ps_authenticators (st_push ?s)) (pa_id ?a) = None"
      "s = ?s\<lparr>st_push := (st_push ?s)\<lparr>ps_authenticators := hm_insert (pa_id ?a) (Pending c) (ps_authenticators (st_push ?s)),
         ps_registration_issued_at := hm_insert (pa_id ?a) now (ps_registration_issued_at (st_push ?s))\<rparr>\<rparr>"
      by (fastforce simp: Let_def quota_window_start_def push_live_def hm_contains_def split: if_splits)
    then show ?thesis
    proof cases
      case 2
      then show ?thesis using issue_key [of c now "pa_id ?a" "st_push ?s"] Inr by simp
    qed (simp add: stay)
  qed
  from mutate_push_stay [of ?f, OF this] Inr show ?thesis by (simp add: try_issue_push_registration_def)
qed

lemma login_change:
  assumes "with_current (st_push s) expected (Inr (s, False)) (change_login transition expected s) = Inr (s', b)"
    and "\<And>c c'. \<lbrakk>hm_get (ps_logins (st_push s)) (plc_id expected) = Some c; current_login (st_push s) expected;
      transition c = Some c'; validate_login_record c' = Inr ()\<rbrakk>
      \<Longrightarrow> push_change ev (st_push s) ((st_push s)\<lparr>ps_logins := hm_insert (plc_id expected) c' (ps_logins (st_push s))\<rparr>)"
  shows "push_change (if b then ev else Other) (st_push s) (st_push s')"
  using assms(1)
proof (cases rule: with_current_Inr)
  case 1
  then show ?thesis by (simp add: stay)
next
  case (2 a)
  then have cur: "current_login (st_push s) expected" by (auto simp: current_login_def)
  from 2(3) show ?thesis
  proof (cases rule: change_login_Inr)
    case 1
    then show ?thesis by (simp add: stay)
  next
    case (2 c c' issued)
    with assms(2) [OF 2(2) cur 2(6,7)] show ?thesis by (simp add: put_login_def)
  qed
qed

lemma attempt_push_login_change:
  "push_change (if fst (attempt_push_login io login decision now r) = Inr True then Attempt (plc_id login) else Other)
     (st_push (repo_store r)) (st_push (repo_store (snd (attempt_push_login io login decision now r))))"
  unfolding attempt_push_login_def
proof (rule mutate_push_change)
  fix s b
  assume "and_then (validate_login_record login) (\<lambda>_. with_current (st_push (repo_store r)) login
    (Inr (repo_store r, False)) (change_login (login_attempt login decision now) login (repo_store r))) = Inr (s, b)"
  then have "with_current (st_push (repo_store r)) login (Inr (repo_store r, False))
    (change_login (login_attempt login decision now) login (repo_store r)) = Inr (s, b)" by simp
  then show "push_change (if b then Attempt (plc_id login) else Other) (st_push (repo_store r)) (st_push s)"
    by (rule login_change) (rule decide; assumption)
qed

lemma redeem_push_login_change:
  "push_change (if fst (redeem_push_login io login binding now r) = Inr True then Redeemed (plc_id login) else Other)
     (st_push (repo_store r)) (st_push (repo_store (snd (redeem_push_login io login binding now r))))"
  unfolding redeem_push_login_def
proof (rule mutate_push_change)
  fix s b
  assume "and_then (validate_login_record login) (\<lambda>_. if \<not> verifier binding then Inr (repo_store r, False)
    else with_current (st_push (repo_store r)) login (Inr (repo_store r, False))
      (change_login (redeem login binding now) login (repo_store r))) = Inr (s, b)"
  note run = this
  show "push_change (if b then Redeemed (plc_id login) else Other) (st_push (repo_store r)) (st_push s)"
  proof (cases "verifier binding")
    case True
    with run have "with_current (st_push (repo_store r)) login (Inr (repo_store r, False))
      (change_login (redeem login binding now) login (repo_store r)) = Inr (s, b)" by simp
    then show ?thesis by (rule login_change) (rule redeemed; assumption)
  next
    case False
    with run have "s = repo_store r" "\<not> b" by auto
    then show ?thesis by (simp add: stay)
  qed
qed

lemma try_issue_push_login_change:
  "push_change (if fst (try_issue_push_login io now c max_issuances window_seconds r) = Inr True
       then Issued now c max_issuances window_seconds else Other)
     (st_push (repo_store r)) (st_push (repo_store (snd (try_issue_push_login io now c max_issuances window_seconds r))))"
proof (cases "validate_login c")
  case (Inl e)
  then show ?thesis by (simp add: try_issue_push_login_def stay)
next
  case (Inr u)
  let ?p = "st_push (repo_store r)"
  have v: "validate_login c = Inr ()" using Inr by simp
  show ?thesis
    unfolding try_issue_push_login_def Inr sum.case
  proof (rule mutate_push_change)
    fix s b
    let ?s = "repo_store r"
    assume run: "(let p = st_push ?s
          in and_then (quota_window_start (plc_created_at c) (plc_expires_at c) now max_issuances window_seconds) (\<lambda>start.
               if hm_contains (ps_logins p) (plc_id c) then Inl push_conflict
               else with_current p c (Inl push_conflict)
                 (and_then (login_sends p c start) (\<lambda>count.
                    if unat max_issuances \<le> count then Inr (?s, False)
                    else Inr (?s\<lparr>st_push := p\<lparr>ps_login_issued_at := hm_insert (plc_id c) now (ps_login_issued_at p),
                           ps_logins := hm_insert (plc_id c) c (ps_logins p)\<rparr>\<rparr>, True))))) = Inr (s, b)"
    then obtain start where start: "quota_window_start (plc_created_at c) (plc_expires_at c) now max_issuances window_seconds = Inr start"
      and fresh: "hm_get (ps_logins ?p) (plc_id c) = None"
      and go: "with_current ?p c (Inl push_conflict)
                 (and_then (login_sends ?p c start) (\<lambda>count.
                    if unat max_issuances \<le> count then Inr (?s, False)
                    else Inr (?s\<lparr>st_push := ?p\<lparr>ps_login_issued_at := hm_insert (plc_id c) now (ps_login_issued_at ?p),
                           ps_logins := hm_insert (plc_id c) c (ps_logins ?p)\<rparr>\<rparr>, True))) = Inr (s, b)"
      by (auto simp: Let_def hm_contains_def split: if_splits)
    from go show "push_change (if b then Issued now c max_issuances window_seconds else Other) ?p (st_push s)"
    proof (cases rule: with_current_Inr)
      case (2 a)
      then have cur: "current_login ?p c" by (auto simp: current_login_def)
      from 2(3) obtain n where n: "login_sends ?p c start = Inr n"
        and cases: "(if unat max_issuances \<le> n then s = ?s \<and> \<not> b else b \<and>
          s = ?s\<lparr>st_push := ?p\<lparr>ps_login_issued_at := hm_insert (plc_id c) now (ps_login_issued_at ?p),
                           ps_logins := hm_insert (plc_id c) c (ps_logins ?p)\<rparr>\<rparr>)"
        by (auto split: if_splits)
      show ?thesis
      proof (cases "unat max_issuances \<le> n")
        case True
        with cases show ?thesis by (simp add: stay)
      next
        case False
        with cases issue [OF v cur refl fresh start n] show ?thesis by simp
      qed
    qed simp
  qed
qed

lemma try_resend_push_login_change:
  "push_change (case fst (try_resend_push_login io now login binding nonce max_issuances window_seconds cooldown r) of
       Inr (Some _) \<Rightarrow> Resent now login max_issuances window_seconds | _ \<Rightarrow> Other)
     (st_push (repo_store r))
     (st_push (repo_store (snd (try_resend_push_login io now login binding nonce max_issuances window_seconds cooldown r))))"
proof (cases "validate_login_record login")
  case (Inl e)
  then show ?thesis by (simp add: try_resend_push_login_def stay)
next
  case (Inr u)
  let ?s = "repo_store r"
  let ?p = "st_push ?s" and ?i = "plc_id login"
  let ?go = "\<lambda>start. and_then (login_sends ?p login start) (\<lambda>count.
      if unat max_issuances \<le> count then Inr (?s, False, None)
      else case hm_get (ps_logins ?p) ?i of
             None \<Rightarrow> Inr (?s, False, None)
           | Some c \<Rightarrow> and_then (login_issued ?p ?i c) (\<lambda>issued.
               case resend login binding nonce issued cooldown now c of
                 None \<Rightarrow> Inr (?s, False, None)
               | Some c' \<Rightarrow> and_then (validate_login_record c') (\<lambda>_. Inr (put_login ?i c' ?s, True, Some c'))))"
  let ?f = "if now < plc_created_at login \<or> plc_expires_at login \<le> now then Inr (?s, False, None)
      else and_then (quota_window_start (plc_created_at login) (plc_expires_at login) now max_issuances window_seconds)
        (\<lambda>start. with_current ?p login (Inr (?s, False, None)) (?go start))"
  have result: "s = ?s \<and> \<not> b \<and> v = None \<or> b \<and> v \<noteq> None
      \<and> push_change (Resent now login max_issuances window_seconds) ?p (st_push s)" if "?f = Inr (s, b, v)" for s b v
  proof (cases "now < plc_created_at login \<or> plc_expires_at login \<le> now")
    case True
    with that show ?thesis by simp
  next
    case False
    with that obtain start where start: "quota_window_start (plc_created_at login) (plc_expires_at login) now
        max_issuances window_seconds = Inr start"
      and go: "with_current ?p login (Inr (?s, False, None)) (?go start) = Inr (s, b, v)" by auto
    from go show ?thesis
    proof (cases rule: with_current_Inr)
      case (2 a)
      then have cur: "current_login ?p login" by (auto simp: current_login_def)
      from 2(3) obtain n where n: "login_sends ?p login start = Inr n" by auto
      show ?thesis
      proof (cases "unat max_issuances \<le> n \<or> hm_get (ps_logins ?p) ?i = None")
        case True
        with 2(3) n show ?thesis by (auto split: if_splits)
      next
        case False
        then obtain c where c: "hm_get (ps_logins ?p) ?i = Some c" and below: "n < unat max_issuances" by auto
        from 2(3) n c below obtain issued where issued: "login_issued ?p ?i c = Inr issued" by auto
        show ?thesis
        proof (cases "resend login binding nonce issued cooldown now c")
          case None
          with 2(3) n c below issued show ?thesis by simp
        next
          case (Some c')
          with 2(3) n c below issued have "s = put_login ?i c' ?s" "b" "v = Some c'" by auto
          with resent [OF c cur refl start n below issued Some] show ?thesis by (simp add: put_login_def)
        qed
      qed
    qed simp
  qed
  show ?thesis
  proof (cases ?f)
    case (Inl e)
    then show ?thesis
      using Inr by (simp add: try_resend_push_login_def mutate_push_value_def Let_def stay)
  next
    case (Inr x)
    obtain s b v where x: "x = (s, b, v)" using prod_cases3 by blast
    from result [of s b v] Inr x \<open>validate_login_record login = Inr u\<close> show ?thesis
      by (cases io) (auto simp: try_resend_push_login_def mutate_push_value_def Let_def write_store_content_def stay)
  qed
qed

lemma fold_drop_registration:
  "map_of (ps_authenticators (fold drop_registration ids p)) = (map_of (ps_authenticators p)) |` (- set ids)"
  "map_of (ps_registration_issued_at (fold drop_registration ids p)) = (map_of (ps_registration_issued_at p)) |` (- set ids)"
  "ps_logins (fold drop_registration ids p) = ps_logins p"
  "ps_login_issued_at (fold drop_registration ids p) = ps_login_issued_at p"
  "hm_wf (ps_authenticators p) \<Longrightarrow> hm_wf (ps_authenticators (fold drop_registration ids p))"
  "hm_wf (ps_registration_issued_at p) \<Longrightarrow> hm_wf (ps_registration_issued_at (fold drop_registration ids p))"
  by (induction ids arbitrary: p) (auto simp: drop_registration_def restrict_map_def fun_eq_iff)

lemma fold_drop_login:
  "map_of (ps_logins (fold drop_login ids p)) = (map_of (ps_logins p)) |` (- set ids)"
  "map_of (ps_login_issued_at (fold drop_login ids p)) = (map_of (ps_login_issued_at p)) |` (- set ids)"
  "ps_authenticators (fold drop_login ids p) = ps_authenticators p"
  "ps_registration_issued_at (fold drop_login ids p) = ps_registration_issued_at p"
  "hm_wf (ps_logins p) \<Longrightarrow> hm_wf (ps_logins (fold drop_login ids p))"
  "hm_wf (ps_login_issued_at p) \<Longrightarrow> hm_wf (ps_login_issued_at (fold drop_login ids p))"
  by (induction ids arbitrary: p) (auto simp: drop_login_def restrict_map_def fun_eq_iff)

lemma fold_restore_registration:
  assumes "\<forall>i\<in>set ids. hm_get (ps_authenticators before) i \<noteq> None \<and> hm_get (ps_registration_issued_at before) i \<noteq> None"
  shows "map_of (ps_authenticators (fold (restore_registration before) ids p)) =
      (\<lambda>i. if i \<in> set ids then hm_get (ps_authenticators before) i else hm_get (ps_authenticators p) i)"
    "map_of (ps_registration_issued_at (fold (restore_registration before) ids p)) =
      (\<lambda>i. if i \<in> set ids then hm_get (ps_registration_issued_at before) i else hm_get (ps_registration_issued_at p) i)"
    "ps_logins (fold (restore_registration before) ids p) = ps_logins p"
    "ps_login_issued_at (fold (restore_registration before) ids p) = ps_login_issued_at p"
    "hm_wf (ps_authenticators p) \<Longrightarrow> hm_wf (ps_authenticators (fold (restore_registration before) ids p))"
    "hm_wf (ps_registration_issued_at p) \<Longrightarrow> hm_wf (ps_registration_issued_at (fold (restore_registration before) ids p))"
  using assms
  by (induction ids arbitrary: p)
    (auto simp: restore_registration_def fun_eq_iff split: option.splits)

lemma fold_restore_login:
  assumes "\<forall>i\<in>set ids. hm_get (ps_logins before) i \<noteq> None \<and> hm_get (ps_login_issued_at before) i \<noteq> None"
  shows "map_of (ps_logins (fold (restore_login before) ids p)) =
      (\<lambda>i. if i \<in> set ids then hm_get (ps_logins before) i else hm_get (ps_logins p) i)"
    "map_of (ps_login_issued_at (fold (restore_login before) ids p)) =
      (\<lambda>i. if i \<in> set ids then hm_get (ps_login_issued_at before) i else hm_get (ps_login_issued_at p) i)"
    "ps_authenticators (fold (restore_login before) ids p) = ps_authenticators p"
    "ps_registration_issued_at (fold (restore_login before) ids p) = ps_registration_issued_at p"
    "hm_wf (ps_logins p) \<Longrightarrow> hm_wf (ps_logins (fold (restore_login before) ids p))"
    "hm_wf (ps_login_issued_at p) \<Longrightarrow> hm_wf (ps_login_issued_at (fold (restore_login before) ids p))"
  using assms
  by (induction ids arbitrary: p)
    (auto simp: restore_login_def fun_eq_iff split: option.splits)

lemma in_map_filter: "y \<in> set (List.map_filter f xs) \<longleftrightarrow> (\<exists>x\<in>set xs. f x = Some y)"
  by (induction xs) (auto simp: List.map_filter_simps split: option.splits)

lemma expired_registrationD:
  assumes "(issued, i) \<in> set (expired_registrations now cutoff p)"
  obtains c where "(i, Pending c) \<in> set (ps_authenticators p)" "hm_get (ps_registration_issued_at p) i = Some issued"
    "prc_expires_at c \<le> now" "issued < cutoff"
  using assms unfolding expired_registrations_def in_map_filter
  by (auto split: push_authenticator_record.splits option.splits if_splits)

lemma expired_loginD:
  assumes "(issued, i) \<in> set (expired_logins cutoff p)"
  obtains c where "(i, c) \<in> set (ps_logins p)" "hm_get (ps_login_issued_at p) i = Some issued" "plc_expires_at c < cutoff"
  using assms unfolding expired_logins_def in_map_filter
  by (auto split: option.splits if_splits)

lemma in_set_map_of: "(k, v) \<in> set m \<Longrightarrow> map_of m k \<noteq> None"
  by (auto dest: weak_map_of_SomeI)

lemma cleanup_selection_expired:
  assumes "cleanup_selection now cutoff limit p = (regs, logins)" "0 < limit"
  shows "i \<in> set regs \<Longrightarrow> \<exists>issued. (issued, i) \<in> set (expired_registrations now cutoff p)"
    and "i \<in> set logins \<Longrightarrow> \<exists>issued. (issued, i) \<in> set (expired_logins cutoff p)"
  using assms by (auto simp: cleanup_selection_def Let_def dest: select_oldest_subset split: if_splits)

lemma cleanup_push_change:
  "push_change (case fst (cleanup_expired_push_records io now limit r) of
       Inr n \<Rightarrow> (if n = 0 then Other else Cleaned now) | Inl _ \<Rightarrow> Other)
     (st_push (repo_store r)) (st_push (repo_store (snd (cleanup_expired_push_records io now limit r))))"
proof (cases "cleanup_cutoff now limit")
  case (Inl e)
  then show ?thesis by (simp add: cleanup_expired_push_records_def stay)
next
  case (Inr cutoff)
  let ?p = "st_push (repo_store r)"
  have pos: "0 < unat limit" using Inr by (auto simp: cleanup_cutoff_def word_le_nat_alt split: if_splits)
  obtain regs logins where sel: "cleanup_selection now cutoff (unat limit) ?p = (regs, logins)" by fastforce
  note expired = cleanup_selection_expired [OF sel pos]
  let ?p' = "fold drop_login logins (fold drop_registration regs ?p)"
  let ?q = "fold (restore_login ?p) logins (fold (restore_registration ?p) regs ?p')"
  have clean: "push_change (Cleaned now) ?p ?p'"
  proof (rule clean [where regs = "set regs" and logins = "set logins"])
    show "cleanup_cutoff now limit = Inr cutoff" by (rule Inr)
  qed (use expired in \<open>auto simp: fold_drop_registration fold_drop_login push_valid_def\<close>)
  have some: "\<forall>i\<in>set regs. hm_get (ps_authenticators ?p) i \<noteq> None \<and> hm_get (ps_registration_issued_at ?p) i \<noteq> None"
    using expired(1) by (metis expired_registrationD in_set_map_of option.distinct(1))
  have some': "\<forall>i\<in>set logins. hm_get (ps_logins ?p) i \<noteq> None \<and> hm_get (ps_login_issued_at ?p) i \<noteq> None"
    using expired(2) by (metis expired_loginD in_set_map_of option.distinct(1))
  have "push_equiv ?p ?q"
    unfolding push_equiv_def
    by (auto simp: fold_restore_login [OF some'] fold_restore_registration [OF some] fold_drop_registration
        fold_drop_login restrict_map_def fun_eq_iff push_valid_def)
  then have undone: "push_change Other ?p ?q" by (rule stay)
  show ?thesis
  proof (cases "validate_push_rows ?p")
    case (Inl e)
    with Inr show ?thesis by (simp add: cleanup_expired_push_records_def Let_def stay)
  next
    case (Inr u)
    with \<open>cleanup_cutoff now limit = Inr cutoff\<close> sel clean undone show ?thesis
      by (cases io) (auto simp: cleanup_expired_push_records_def Let_def write_store_content_def stay)
  qed
qed

lemma push_step_change:
  assumes "push_step event r r'"
  shows "push_change event (st_push (repo_store r)) (st_push (repo_store r'))"
  using assms
  by cases (simp_all only: attempt_push_registration_change revoke_push_authenticator_change
      try_issue_push_registration_change attempt_push_login_change redeem_push_login_change
      try_issue_push_login_change try_resend_push_login_change cleanup_push_change)

section \<open>Validity is invariant\<close>

lemma row_valid_cong:
  assumes "hm_get (ps_registration_issued_at p') i = hm_get (ps_registration_issued_at p) i"
  shows "authenticator_row_valid p' i row = authenticator_row_valid p i row"
  using assms by (simp add: authenticator_row_valid_def registration_issued_def)

lemma login_valid_cong:
  assumes "hm_get (ps_login_issued_at p') i = hm_get (ps_login_issued_at p) i"
  shows "login_row_valid p' i c = login_row_valid p i c"
  using assms by (simp add: login_row_valid_def login_issued_def)

lemma push_valid_rows:
  assumes "push_valid p"
  shows "hm_get (ps_authenticators p) i = Some row \<Longrightarrow> authenticator_row_valid p i row"
    "hm_get (ps_logins p) i = Some c \<Longrightarrow> login_row_valid p i c"
  using assms by (simp_all add: push_valid_def)

lemma push_validI:
  assumes "hm_wf (ps_authenticators p)" "hm_wf (ps_logins p)" "hm_wf (ps_registration_issued_at p)" "hm_wf (ps_login_issued_at p)"
    and "\<And>i row. hm_get (ps_authenticators p) i = Some row \<Longrightarrow> authenticator_row_valid p i row"
    and "\<And>i c. hm_get (ps_logins p) i = Some c \<Longrightarrow> login_row_valid p i c"
  shows "push_valid p"
  using assms by (simp add: push_valid_def)

lemma push_valid_set_login:
  assumes "push_valid p" "login_row_valid p i c"
  shows "push_valid (p\<lparr>ps_logins := hm_insert i c (ps_logins p)\<rparr>)" (is "push_valid ?p'")
proof (rule push_validI)
  show "login_row_valid ?p' j c'" if "hm_get (ps_logins ?p') j = Some c'" for j c'
    using that assms(2) push_valid_rows(2) [OF assms(1), of j c'] login_valid_cong [of ?p' j p c']
    by (simp split: if_splits)
  show "authenticator_row_valid ?p' j row" if "hm_get (ps_authenticators ?p') j = Some row" for j row
    using that push_valid_rows(1) [OF assms(1), of j row] row_valid_cong [of ?p' j p row] by simp
qed (use assms(1) in \<open>simp_all add: push_valid_def\<close>)

lemma push_valid_set_authenticator:
  assumes "push_valid p" "authenticator_row_valid p i row"
  shows "push_valid (p\<lparr>ps_authenticators := hm_insert i row (ps_authenticators p)\<rparr>)" (is "push_valid ?p'")
proof (rule push_validI)
  show "authenticator_row_valid ?p' j row'" if "hm_get (ps_authenticators ?p') j = Some row'" for j row'
    using that assms(2) push_valid_rows(1) [OF assms(1), of j row'] row_valid_cong [of ?p' j p row']
    by (simp split: if_splits)
  show "login_row_valid ?p' j c" if "hm_get (ps_logins ?p') j = Some c" for j c
    using that push_valid_rows(2) [OF assms(1), of j c] login_valid_cong [of ?p' j p c] by simp
qed (use assms(1) in \<open>simp_all add: push_valid_def\<close>)

lemma push_valid_subset:
  assumes "push_valid p"
    and "hm_wf (ps_authenticators p')" "hm_wf (ps_logins p')" "hm_wf (ps_registration_issued_at p')" "hm_wf (ps_login_issued_at p')"
    and "\<And>i row. hm_get (ps_authenticators p') i = Some row \<Longrightarrow> hm_get (ps_authenticators p) i = Some row
      \<and> hm_get (ps_registration_issued_at p') i = hm_get (ps_registration_issued_at p) i"
    and "\<And>i c. hm_get (ps_logins p') i = Some c \<Longrightarrow> hm_get (ps_logins p) i = Some c
      \<and> hm_get (ps_login_issued_at p') i = hm_get (ps_login_issued_at p) i"
  shows "push_valid p'"
proof (rule push_validI [OF assms(2-5)])
  fix i row
  assume "hm_get (ps_authenticators p') i = Some row"
  with assms(6) push_valid_rows(1) [OF assms(1)] row_valid_cong show "authenticator_row_valid p' i row" by metis
next
  fix i c
  assume "hm_get (ps_logins p') i = Some c"
  with assms(7) push_valid_rows(2) [OF assms(1)] login_valid_cong show "login_row_valid p' i c" by metis
qed

lemma push_valid_add_authenticator:
  fixes p i row tm
  defines "p' \<equiv> p\<lparr>ps_authenticators := hm_insert i row (ps_authenticators p),
    ps_registration_issued_at := hm_insert i tm (ps_registration_issued_at p)\<rparr>"
  assumes "push_valid p" "authenticator_row_valid p' i row"
  shows "push_valid p'"
proof (rule push_validI)
  show "hm_wf (ps_authenticators p')" "hm_wf (ps_logins p')" "hm_wf (ps_registration_issued_at p')"
    "hm_wf (ps_login_issued_at p')" using assms(2) by (simp_all add: p'_def push_valid_def)
  show "authenticator_row_valid p' j row'" if "hm_get (ps_authenticators p') j = Some row'" for j row'
  proof (cases "j = i")
    case False
    with that have "hm_get (ps_authenticators p) j = Some row'" by (simp add: p'_def)
    then have "authenticator_row_valid p j row'" by (rule push_valid_rows(1) [OF assms(2)])
    with False row_valid_cong [of p' j p row'] show ?thesis by (simp add: p'_def)
  qed (use that assms(3) in \<open>simp add: p'_def\<close>)
  show "login_row_valid p' j c" if "hm_get (ps_logins p') j = Some c" for j c
    using that push_valid_rows(2) [OF assms(2), of j c] login_valid_cong [of p' j p c] by (simp add: p'_def)
qed

lemma push_valid_add_login:
  fixes p i c tm
  defines "p' \<equiv> p\<lparr>ps_login_issued_at := hm_insert i tm (ps_login_issued_at p), ps_logins := hm_insert i c (ps_logins p)\<rparr>"
  assumes "push_valid p" "login_row_valid p' i c"
  shows "push_valid p'"
proof (rule push_validI)
  show "hm_wf (ps_authenticators p')" "hm_wf (ps_logins p')" "hm_wf (ps_registration_issued_at p')"
    "hm_wf (ps_login_issued_at p')" using assms(2) by (simp_all add: p'_def push_valid_def)
  show "login_row_valid p' j c'" if "hm_get (ps_logins p') j = Some c'" for j c'
  proof (cases "j = i")
    case False
    with that have "hm_get (ps_logins p) j = Some c'" by (simp add: p'_def)
    then have "login_row_valid p j c'" by (rule push_valid_rows(2) [OF assms(2)])
    with False login_valid_cong [of p' j p c'] show ?thesis by (simp add: p'_def)
  qed (use that assms(3) in \<open>simp add: p'_def\<close>)
  show "authenticator_row_valid p' j row" if "hm_get (ps_authenticators p') j = Some row" for j row
    using that push_valid_rows(1) [OF assms(2), of j row] row_valid_cong [of p' j p row] by (simp add: p'_def)
qed

lemma registration_issued_attempt:
  assumes "registration_issued p i row = Inr issued" "authenticator_record row i = Inr a" "issued \<le> now"
    and "registration_attempt expected verified now row = Some row'"
  shows "registration_issued p i row' = Inr issued"
proof (cases row)
  case (Enrolled a)
  with assms(4) show ?thesis by (simp add: registration_attempt_def)
next
  case (Pending c)
  with assms(2) have "pa_created_at (prc_authenticator c) \<noteq> 0"
    by (auto simp: authenticator_record_def validate_registration_record_def registration_fields_valid_def
        authenticator_fields_valid_def split: if_splits)
  moreover from assms(1) Pending have "pa_created_at (prc_authenticator c) \<le> issued"
    by (auto simp: registration_issued_def split: if_splits)
  ultimately have "issued \<noteq> 0" by auto
  moreover from assms(4) Pending have
    "row' = (if verified then Enrolled ((prc_authenticator c)\<lparr>pa_created_at := now\<rparr>)
             else Pending (c\<lparr>prc_attempt_count := prc_attempt_count c + 1\<rparr>))"
    by (simp add: registration_attempt_def split: if_splits)
  ultimately show ?thesis
    using assms(1,3) Pending by (auto simp: registration_issued_def split: if_splits)
qed

lemma push_change_valid:
  assumes "push_change event p p'" "push_valid p"
  shows "push_valid p'"
  using assms(1)
proof cases
  case stay
  then show ?thesis
    by (intro push_valid_subset [OF assms(2)]) (use assms(2) in \<open>auto simp: push_equiv_def\<close>)
next
  case (prove_key i row a issued now expected verified row')
  have "authenticator_row_valid p i row'"
    using registration_attempt_valid [OF prove_key(4,7)] registration_issued_attempt [OF prove_key(5,4,6,7)]
    by (auto simp: authenticator_row_valid_def)
  then show ?thesis using push_valid_set_authenticator [OF assms(2)] prove_key(2) by simp
next
  case (revoke i a now)
  have "authenticator_row_valid p i (Enrolled a)" by (rule push_valid_rows(1) [OF assms(2) revoke(3)])
  then have "authenticator_row_valid p i (Enrolled (a\<lparr>pa_revoked_at := Some now\<rparr>))"
    using revoke(4,5)
    by (auto simp: authenticator_row_valid_def authenticator_record_def validate_authenticator_record_def
        authenticator_fields_valid_def registration_issued_def not_less Let_def split: if_splits)
  then show ?thesis using push_valid_set_authenticator [OF assms(2)] revoke(2) by simp
next
  case (decide i c expected decision now c')
  have "login_row_valid p i c" by (rule push_valid_rows(2) [OF assms(2) decide(3)])
  moreover have "plc_id c' = plc_id c" "login_issued p i c' = login_issued p i c"
    using login_attempt_Some(7) [OF decide(5)] by (auto intro!: login_issued_schedule split: option.splits)
  ultimately have "login_row_valid p i c'" using decide(6) by (simp add: login_row_valid_def)
  then show ?thesis using push_valid_set_login [OF assms(2)] decide(2) by simp
next
  case (redeemed i c expected binding now c')
  have "login_row_valid p i c" by (rule push_valid_rows(2) [OF assms(2) redeemed(3)])
  moreover have "plc_id c' = plc_id c" "login_issued p i c' = login_issued p i c"
    using redeem_Some(8) [OF redeemed(5)] by (auto intro!: login_issued_schedule)
  ultimately have "login_row_valid p i c'" using redeem_valid [OF _ redeemed(5)] by (simp add: login_row_valid_def)
  then show ?thesis using push_valid_set_login [OF assms(2)] redeemed(2) by simp
next
  case (issue_key c now i)
  have "authenticator_row_valid p' i (Pending c)"
    using issue_key validate_registration_initial [OF issue_key(3)]
    by (simp add: authenticator_row_valid_def authenticator_record_def registration_issued_def Let_def)
  then show ?thesis using push_valid_add_authenticator [OF assms(2)] issue_key(2) by simp
next
  case (issue c i now max_issuances window_seconds start n)
  have "login_row_valid p' i c"
    using issue validate_login_initial [OF issue(3)]
    by (auto simp: login_row_valid_def login_issued_def validate_login_issued_def quota_window_start_def push_live_def
        validate_login_def not_le not_less split: if_splits)
  then show ?thesis using push_valid_add_login [OF assms(2)] issue(2) by simp
next
  case (resent i c expected now max_issuances window_seconds start n issued binding nonce cooldown c')
  have row: "login_row_valid p i c" by (rule push_valid_rows(2) [OF assms(2) resent(3)])
  from resent(9) have "validate_login_issued c issued = Inr ()" by (auto simp: login_issued_def)
  with row resend_valid [OF _ _ resent(10)] resend_Some(4) [OF resent(10)] resent(9) have "login_row_valid p i c'"
    by (auto simp: login_row_valid_def login_issued_def)
  then show ?thesis using push_valid_set_login [OF assms(2)] resent(2) by simp
next
  case (clean now limit cutoff regs logins)
  then show ?thesis
    by (intro push_valid_subset [OF assms(2)]) (use assms(2) in \<open>auto simp: restrict_map_def split: if_splits\<close>)
qed

section \<open>The contract of the push store\<close>

definition example_authenticator :: push_authenticator where
  "example_authenticator = \<lparr>pa_id = ''k1'', pa_realm_id = ''corp'', pa_user_id = ''ann'', pa_destination = ''d'',
     pa_device_name = ''phone'', pa_device_platform = ''os'', pa_public_jwk = RSA ''n'' ''e'',
     pa_created_at = 10, pa_revoked_at = None\<rparr>"

definition example_login :: push_login_challenge where
  "example_login = \<lparr>plc_id = ''l1'', plc_realm_id = ''corp'', plc_user_id = ''ann'', plc_authenticator_id = ''k1'',
     plc_purpose = PasswordLogin, plc_nonce_verifier = replicate 64 CHR ''a'',
     plc_browser_binding_verifier = replicate 64 CHR ''b'', plc_resend_admitted_at = [],
     plc_created_at = 100, plc_expires_at = 200, plc_max_attempts = 3, plc_attempt_count = 0,
     plc_decision = None, plc_decided_at = None, plc_consumed_at = None\<rparr>"

definition example_push :: push_store where
  "example_push = \<lparr>ps_authenticators = [(''k1'', Enrolled example_authenticator)], ps_logins = [(''l1'', example_login)],
     ps_registration_issued_at = [(''k1'', 9)], ps_login_issued_at = [(''l1'', 100)]\<rparr>"

definition example_push_repo :: file_repository where
  "example_push_repo = \<lparr>repo_store = empty_store\<lparr>st_push := example_push\<rparr>, repo_disk = None, repo_dirty = False,
     repo_flush_mode = Immediate\<rparr>"

lemma example_rows_valid:
  "validate_login_record example_login = Inr ()"
  "authenticator_record (Enrolled example_authenticator) ''k1'' = Inr example_authenticator"
  by code_simp+

lemma example_push_valid: "push_valid (st_push (repo_store example_push_repo))"
  by (simp add: push_valid_def authenticator_row_valid_def login_row_valid_def example_push_repo_def example_push_def
      example_rows_valid login_issued_def validate_login_issued_def registration_issued_def hm_wf_def)
    (simp add: example_login_def example_authenticator_def)

lemma example_attempt:
  "fst (attempt_push_login None example_login (Some PushApprove) 150 example_push_repo) = Inr True"
  by code_simp



end
