(* ===== verification/Qid_Push_Limits.thy ===== *)
theory Qid_Push_Limits
  imports Qid_Push_Props
begin

text \<open>
  What the transitions of push approval add up to over a run: at most one redemption per login and
  only of an approved one, a bounded number of attempts, and a bounded number of notifications per
  user in every window of time.
\<close>

lemma unat_Suc_less: "a < b \<Longrightarrow> unat (a + 1) = Suc (unat (a :: 'a::len word))"
  by (metis word_Suc_nonzero add.commute unatSuc)

lemma word_le_Suc: "a < b \<Longrightarrow> a \<le> (a + 1 :: 'a::len word)"
  by (simp add: word_le_nat_alt unat_Suc_less)

lemma length_filter_mono:
  "(\<And>x. P x \<Longrightarrow> Q x) \<Longrightarrow> length (filter P xs) \<le> length (filter Q xs)"
  by (induction xs) (auto intro: le_SucI)

section \<open>A login only moves forward\<close>

definition login_le :: "push_login_challenge \<Rightarrow> push_login_challenge \<Rightarrow> bool" where
  "login_le c c' \<longleftrightarrow>
     plc_id c' = plc_id c \<and> plc_realm_id c' = plc_realm_id c \<and> plc_user_id c' = plc_user_id c
     \<and> plc_authenticator_id c' = plc_authenticator_id c \<and> plc_purpose c' = plc_purpose c
     \<and> plc_browser_binding_verifier c' = plc_browser_binding_verifier c
     \<and> plc_created_at c' = plc_created_at c \<and> plc_expires_at c' = plc_expires_at c
     \<and> plc_max_attempts c' = plc_max_attempts c \<and> plc_attempt_count c \<le> plc_attempt_count c'
     \<and> (plc_decision c \<noteq> None \<longrightarrow> plc_decision c' = plc_decision c \<and> plc_decided_at c' = plc_decided_at c
          \<and> plc_attempt_count c' = plc_attempt_count c \<and> plc_nonce_verifier c' = plc_nonce_verifier c)
     \<and> (plc_consumed_at c \<noteq> None \<longrightarrow> c' = c)"

lemma login_le_refl [simp]: "login_le c c"
  by (simp add: login_le_def)

lemma login_attempt_le:
  assumes "login_attempt expected decision now c = Some c'"
  shows "login_le c c'"
proof -
  note c = login_attempt_Some [OF assms]
  have "plc_attempt_count c \<le> plc_attempt_count c + 1" using word_le_Suc [OF c(4)] .
  with c(2,3,7) show ?thesis by (cases decision) (simp_all add: login_le_def)
qed

lemma redeem_le: "redeem expected binding now c = Some c' \<Longrightarrow> login_le c c'"
  using redeem_Some [of expected binding now c c'] by (simp add: login_le_def)

lemma resend_le: "resend expected binding nonce issued cooldown now c = Some c' \<Longrightarrow> login_le c c'"
  using resend_Some [of expected binding nonce issued cooldown now c c'] by (simp add: login_le_def)

lemma push_change_login_le:
  assumes "push_change event p p'" "hm_get (ps_logins p) i = Some c"
  shows "hm_get (ps_logins p') i = None \<or> (\<exists>c'. hm_get (ps_logins p') i = Some c' \<and> login_le c c')"
  using assms
  by cases (auto simp: push_equiv_def restrict_map_def login_attempt_le redeem_le resend_le)

section \<open>Attempts\<close>

text \<open>A run of the store in which \<open>i\<close> is not issued anew, with the number of attempts it took.\<close>

inductive attempt_run :: "string \<Rightarrow> nat \<Rightarrow> file_repository \<Rightarrow> file_repository \<Rightarrow> bool" for i where
  none: "attempt_run i 0 r r"
| step: "\<lbrakk>attempt_run i n r r'; push_step event r' r'';
    \<And>now c limit window. event = Issued now c limit window \<Longrightarrow> plc_id c \<noteq> i\<rbrakk>
   \<Longrightarrow> attempt_run i (if event = Attempt i then Suc n else n) r r''"

definition attempts_accounted :: "push_login_challenge \<Rightarrow> nat \<Rightarrow> push_login_challenge option \<Rightarrow> bool" where
  "attempts_accounted c n row \<longleftrightarrow> unat (plc_attempt_count c) + n \<le> unat (plc_max_attempts c)
     \<and> (case row of None \<Rightarrow> True | Some c' \<Rightarrow> plc_max_attempts c' = plc_max_attempts c
           \<and> unat (plc_attempt_count c') = unat (plc_attempt_count c) + n)"

lemma login_attempt_counts:
  assumes "login_attempt expected decision now c = Some c'"
  shows "unat (plc_attempt_count c') = Suc (unat (plc_attempt_count c))"
    "unat (plc_attempt_count c) < unat (plc_max_attempts c)" "plc_max_attempts c' = plc_max_attempts c"
  using login_attempt_Some(4,7) [OF assms] unat_Suc_less [of "plc_attempt_count c" "plc_max_attempts c"]
  by (simp_all add: word_less_nat_alt split: option.splits)

lemma push_change_attempts:
  assumes "push_change event p p'" "attempts_accounted c n (hm_get (ps_logins p) i)"
    and fresh: "\<And>now c limit window. event = Issued now c limit window \<Longrightarrow> plc_id c \<noteq> i"
  shows "attempts_accounted c (if event = Attempt i then Suc n else n) (hm_get (ps_logins p') i)"
  using assms(1)
proof cases
  case (decide j d expected decision now d')
  show ?thesis
  proof (cases "j = i")
    case True
    with assms(2) decide(3) have "plc_max_attempts d = plc_max_attempts c"
      "unat (plc_attempt_count d) = unat (plc_attempt_count c) + n"
      by (simp_all add: attempts_accounted_def)
    with login_attempt_counts [OF decide(5)] decide(1,2) True show ?thesis
      by (simp add: attempts_accounted_def)
  qed (use assms(2) decide(1,2) in simp)
next
  case (redeemed j d expected binding now d')
  with assms(2) redeem_Some(8) [OF redeemed(5)] show ?thesis
    by (cases "i = j") (simp_all add: attempts_accounted_def)
next
  case (resent j d expected now limit window start k issued binding nonce cooldown d')
  with assms(2) resend_Some(4) [OF resent(10)] show ?thesis
    by (cases "i = j") (simp_all add: attempts_accounted_def)
next
  case (issue d j now limit window start k)
  with assms(2) fresh show ?thesis by simp
next
  case (clean now limit cutoff regs logins)
  with assms(2) show ?thesis
    by (cases "i \<in> logins") (simp_all add: attempts_accounted_def)
qed (use assms(2) in \<open>simp_all add: push_equiv_def\<close>)

lemma attempt_run_accounted:
  assumes "attempt_run i n r r'" "hm_get (ps_logins (st_push (repo_store r))) i = Some c"
    "plc_attempt_count c \<le> plc_max_attempts c"
  shows "attempts_accounted c n (hm_get (ps_logins (st_push (repo_store r'))) i)"
  using assms
proof (induction rule: attempt_run.induct)
  case (none r)
  then show ?case by (simp add: attempts_accounted_def word_le_nat_alt)
next
  case (step n r r' event r'')
  show ?case
    by (rule push_change_attempts [OF push_step_change [OF step(2)] step.IH [OF step.prems] step(3)])
qed

text \<open>
  C20. A push login never takes more attempts than it was issued with: from any state of the store,
  whatever operations run, the attempts accepted for a login are at most its remaining ones. The
  32-bit counter never wraps.
\<close>

theorem push_attempts_bounded:
  assumes "attempt_run i n r r'" "push_valid (st_push (repo_store r))"
    and "hm_get (ps_logins (st_push (repo_store r))) i = Some c"
  shows "n \<le> unat (plc_max_attempts c) - unat (plc_attempt_count c)"
proof -
  from assms(2,3) have "login_row_valid (st_push (repo_store r)) i c" by (simp add: push_valid_def)
  then have "plc_attempt_count c \<le> plc_max_attempts c"
    by (auto simp: login_row_valid_def validate_login_record_def split: if_splits)
  from attempt_run_accounted [OF assms(1,3) this] show ?thesis unfolding attempts_accounted_def by linarith
qed

lemma example_attempt_run:
  "attempt_run ''l1'' 1 example_push_repo
     (snd (attempt_push_login None example_login (Some PushApprove) 150 example_push_repo))"
  using attempt_run.step [OF attempt_run.none
      push_step.intros(4) [of None example_login "Some PushApprove" 150 example_push_repo], of "''l1''"] example_attempt
  by (simp add: example_login_def)

theorem push_attempts_bounded_witness:
  "(let r' = snd (attempt_push_login None example_login (Some PushApprove) 150 example_push_repo)
    in attempt_run ''l1'' 1 example_push_repo r' \<and> (1::nat) \<le> unat (3::u32) - unat (0::u32))"
  using push_attempts_bounded [OF example_attempt_run example_push_valid, of example_login] example_attempt_run
  by (simp add: Let_def example_push_repo_def example_push_def example_login_def)

section \<open>Notifications\<close>

text \<open>
  The quota of notifications is per realm, user and purpose. A stored login accounts for its issue
  and for every resend; the expired logins that a cleanup drops are older than any quota window.
\<close>

definition quota_key :: "push_login_challenge \<Rightarrow> string \<times> string \<times> push_purpose" where
  "quota_key c = (plc_realm_id c, plc_user_id c, plc_purpose c)"

definition row_sends :: "u64 \<Rightarrow> u64 \<Rightarrow> push_login_challenge \<Rightarrow> nat" where
  "row_sends start issued c =
     (if start \<le> issued then 1 else 0) + length (filter (\<lambda>tm. start \<le> tm) (plc_resend_admitted_at c))"

definition entry_sends ::
    "string \<times> string \<times> push_purpose \<Rightarrow> u64 \<Rightarrow> push_login_challenge option \<Rightarrow> u64 option \<Rightarrow> nat" where
  "entry_sends k start row issued =
     (case (row, issued) of
        (Some c, Some tm) \<Rightarrow> if quota_key c = k then row_sends start tm c else 0
      | _ \<Rightarrow> 0)"

definition stored_sends :: "push_store \<Rightarrow> string \<times> string \<times> push_purpose \<Rightarrow> u64 \<Rightarrow> nat" where
  "stored_sends p k start =
     (\<Sum>i\<in>dom (map_of (ps_logins p)). entry_sends k start (hm_get (ps_logins p) i) (hm_get (ps_login_issued_at p) i))"

lemma sum_list_hm:
  assumes "hm_wf m"
  shows "sum_list (map f m) = (\<Sum>i\<in>dom (map_of m). f (i, the (map_of m i)))"
proof -
  from assms have "distinct m" by (auto simp: hm_wf_def distinct_map)
  then have "sum_list (map f m) = sum f (set m)" by (rule sum_list_distinct_conv_sum_set)
  also have "set m = (\<lambda>i. (i, the (map_of m i))) ` dom (map_of m)"
  proof (intro equalityI subsetI)
    fix x assume "x \<in> set m"
    with assms have "map_of m (fst x) = Some (snd x)" by (simp add: hm_mem_iff [symmetric])
    then show "x \<in> (\<lambda>i. (i, the (map_of m i))) ` dom (map_of m)" by (intro image_eqI [of _ _ "fst x"]) auto
  qed (auto dest: map_of_SomeD)
  also have "sum f \<dots> = (\<Sum>i\<in>dom (map_of m). f (i, the (map_of m i)))"
    by (subst sum.reindex) (auto simp: inj_on_def)
  finally show ?thesis .
qed

lemma login_sends_stored:
  assumes "push_valid p" "login_sends p c start = Inr n"
  shows "n = stored_sends p (quota_key c) start"
proof -
  let ?f = "\<lambda>(i, row). and_then (validate_login_record row) (\<lambda>_.
       if plc_id row \<noteq> i then Inl push_corrupt
       else if plc_realm_id row = plc_realm_id c \<and> plc_user_id row = plc_user_id c
               \<and> login_purpose_str (plc_purpose row) = login_purpose_str (plc_purpose c)
       then and_then (login_issued p i row) (\<lambda>issued. send_count row issued start)
       else Inr 0)"
  have "n = sum_list (map (\<lambda>x. projr (?f x)) (ps_logins p))"
    using assms(2) by (simp add: login_sends_def try_sum_Inr_iff)
  also have "\<dots> = (\<Sum>i\<in>dom (map_of (ps_logins p)). projr (?f (i, the (hm_get (ps_logins p) i))))"
    using assms(1) by (intro sum_list_hm) (simp add: push_valid_def)
  also have "\<dots> = stored_sends p (quota_key c) start"
    unfolding stored_sends_def
  proof (rule sum.cong)
    fix i assume "i \<in> dom (map_of (ps_logins p))"
    then obtain row where row: "hm_get (ps_logins p) i = Some row" by blast
    with assms(1) have "login_row_valid p i row" by (simp add: push_valid_def)
    then obtain issued where v: "validate_login_record row = Inr ()" "plc_id row = i" "login_issued p i row = Inr issued"
      by (auto simp: login_row_valid_def is_ok_iff)
    then have "hm_get (ps_login_issued_at p) i = Some issued" "validate_login_issued row issued = Inr ()"
      by (auto simp: login_issued_def and_then_Inr_iff)
    with v row show "projr (?f (i, the (hm_get (ps_logins p) i))) =
        entry_sends (quota_key c) start (hm_get (ps_logins p) i) (hm_get (ps_login_issued_at p) i)"
      by (cases "plc_purpose row"; cases "plc_purpose c")
        (simp add: entry_sends_def quota_key_def row_sends_def send_count_def)
  qed simp
  finally show ?thesis .
qed

text \<open>The sends an event adds to the quota of \<open>k\<close> since \<open>start\<close>.\<close>

fun event_sends :: "string \<times> string \<times> push_purpose \<Rightarrow> u64 \<Rightarrow> push_event \<Rightarrow> nat" where
  "event_sends k start (Issued now c limit window) = (if quota_key c = k \<and> start \<le> now then 1 else 0)"
| "event_sends k start (Resent now c limit window) = (if quota_key c = k \<and> start \<le> now then 1 else 0)"
| "event_sends k start _ = 0"

lemma stored_sends_update:
  assumes "hm_get (ps_logins p) i = Some c"
    and "entry_sends k start (Some c') (hm_get (ps_login_issued_at p) i) =
         entry_sends k start (Some c) (hm_get (ps_login_issued_at p) i) + n"
  shows "stored_sends (p\<lparr>ps_logins := hm_insert i c' (ps_logins p)\<rparr>) k start = stored_sends p k start + n"
proof -
  let ?D = "dom (map_of (ps_logins p))"
  let ?f = "\<lambda>j. entry_sends k start (hm_get (ps_logins p) j) (hm_get (ps_login_issued_at p) j)"
  let ?g = "\<lambda>j. entry_sends k start (hm_get (hm_insert i c' (ps_logins p)) j) (hm_get (ps_login_issued_at p) j)"
  have D: "finite ?D" "i \<in> ?D" using assms(1) by (auto simp: finite_dom_map_of)
  have "sum ?g ?D = ?g i + sum ?g (?D - {i})" using D by (rule sum.remove)
  also have "sum ?g (?D - {i}) = sum ?f (?D - {i})" by (rule sum.cong) auto
  also have "?g i = ?f i + n" using assms by simp
  also have "?f i + n + sum ?f (?D - {i}) = sum ?f ?D + n" using sum.remove [OF D, of ?f] by simp
  finally show ?thesis using D(2) by (simp add: stored_sends_def insert_absorb)
qed

lemma stored_sends_insert:
  assumes "hm_get (ps_logins p) i = None"
  shows "stored_sends (p\<lparr>ps_login_issued_at := hm_insert i now (ps_login_issued_at p),
      ps_logins := hm_insert i c (ps_logins p)\<rparr>) k start =
    stored_sends p k start + (if quota_key c = k then row_sends start now c else 0)"
proof -
  let ?D = "dom (map_of (ps_logins p))"
  let ?g = "\<lambda>j. entry_sends k start (hm_get (hm_insert i c (ps_logins p)) j)
    (hm_get (hm_insert i now (ps_login_issued_at p)) j)"
  have "i \<notin> ?D" using assms by auto
  then have "sum ?g (insert i ?D) = ?g i + sum ?g ?D" by (simp add: finite_dom_map_of)
  also have "sum ?g ?D = stored_sends p k start"
    unfolding stored_sends_def by (rule sum.cong) (use assms in auto)
  finally show ?thesis by (simp add: stored_sends_def entry_sends_def)
qed

lemma expired_row_sends:
  assumes "login_row_valid p i c" "hm_get (ps_login_issued_at p) i = Some issued" "plc_expires_at c \<le> start"
  shows "row_sends start issued c = 0"
proof -
  from assms(1,2) have "validate_login_issued c issued = Inr ()" "validate_login_record c = Inr ()"
    by (auto simp: login_row_valid_def is_ok_iff login_issued_def)
  then have "issued < plc_expires_at c" "list_all (\<lambda>tm. tm < plc_expires_at c) (plc_resend_admitted_at c)"
    by (auto simp: validate_login_issued_def validate_login_record_def login_fields_valid_def list_all_iff
        split: if_splits)
  with assms(3) have "issued < start" "\<forall>tm\<in>set (plc_resend_admitted_at c). tm < start"
    by (auto simp: list_all_iff intro: less_le_trans)
  then show ?thesis by (auto simp: row_sends_def not_le [symmetric] filter_empty_conv)
qed

lemma stored_sends_clean:
  assumes "push_valid p"
    and "map_of (ps_logins p') = (map_of (ps_logins p)) |` (- gone)"
    and "map_of (ps_login_issued_at p') = (map_of (ps_login_issued_at p)) |` (- gone)"
    and "\<And>i c. i \<in> gone \<Longrightarrow> hm_get (ps_logins p) i = Some c \<Longrightarrow> plc_expires_at c \<le> start"
  shows "stored_sends p' k start = stored_sends p k start"
  unfolding stored_sends_def
proof (rule sum.mono_neutral_cong_left)
  show "\<forall>i\<in>dom (map_of (ps_logins p)) - dom (map_of (ps_logins p')).
      entry_sends k start (hm_get (ps_logins p) i) (hm_get (ps_login_issued_at p) i) = 0"
  proof
    fix i assume i: "i \<in> dom (map_of (ps_logins p)) - dom (map_of (ps_logins p'))"
    then obtain c where c: "hm_get (ps_logins p) i = Some c" by blast
    from i assms(2) have "i \<in> gone" by (auto simp: restrict_map_def split: if_splits)
    with assms(4) c have "plc_expires_at c \<le> start" by blast
    moreover have "login_row_valid p i c" using assms(1) c by (simp add: push_valid_def)
    ultimately show "entry_sends k start (hm_get (ps_logins p) i) (hm_get (ps_login_issued_at p) i) = 0"
      using expired_row_sends [of p i c] by (auto simp: entry_sends_def c split: option.splits)
  qed
qed (auto simp: assms(2,3) finite_dom_map_of restrict_map_def split: if_splits)

lemma stored_sends_equiv:
  "push_equiv p p' \<Longrightarrow> stored_sends p' k start = stored_sends p k start"
  by (simp add: stored_sends_def push_equiv_def)

lemma same_login_quota: "same_login c d \<Longrightarrow> quota_key c = quota_key d"
  by (auto simp: same_login_def quota_key_def dest!: arg_cong [where f = quota_key])

lemma push_change_sends:
  assumes "push_change event p p'" "push_valid p"
    and recent: "\<And>now. event = Cleaned now \<Longrightarrow> unat now < unat start + unat max_push_window_seconds"
  shows "stored_sends p' k start = stored_sends p k start + event_sends k start event"
  using assms(1)
proof cases
  case stay
  then show ?thesis by (simp add: stored_sends_equiv)
next
  case (decide i c expected decision now c')
  have "row_sends start tm c' = row_sends start tm c" "quota_key c' = quota_key c" for tm
    using login_attempt_Some(7) [OF decide(5)] by (simp_all add: row_sends_def quota_key_def split: option.splits)
  then show ?thesis
    using decide(1-3) by (simp add: stored_sends_update [where c = c and n = 0] entry_sends_def split: option.splits)
next
  case (redeemed i c expected binding now c')
  have "row_sends start tm c' = row_sends start tm c" "quota_key c' = quota_key c" for tm
    using redeem_Some(8) [OF redeemed(5)] by (simp_all add: row_sends_def quota_key_def)
  then show ?thesis
    using redeemed(1-3) by (simp add: stored_sends_update [where c = c and n = 0] entry_sends_def split: option.splits)
next
  case (issue c i now limit window since n)
  have "plc_resend_admitted_at c = []" using issue(3) by (auto simp: validate_login_def split: if_splits)
  then show ?thesis using issue(1,2,6) by (simp add: stored_sends_insert row_sends_def)
next
  case (resent i c expected now limit window since n issued binding nonce cooldown c')
  have key: "quota_key c = quota_key expected" "quota_key c' = quota_key expected"
    using same_login_quota [OF resend_Some(1) [OF resent(10)]] resend_Some(4) [OF resent(10)]
    by (simp_all add: quota_key_def)
  have "row_sends start tm c' = row_sends start tm c + (if start \<le> now then 1 else 0)" for tm
    using resend_Some(4) [OF resent(10)] by (simp add: row_sends_def)
  moreover from resent(9) obtain tm where "hm_get (ps_login_issued_at p) i = Some tm"
    by (auto simp: login_issued_def)
  ultimately show ?thesis
    using resent(1-3) key
    by (simp add: stored_sends_update [where c = c and n = "event_sends k start event"] entry_sends_def)
next
  case (clean now limit cutoff regs logins)
  have "plc_expires_at c \<le> start" if "i \<in> logins" "hm_get (ps_logins p) i = Some c" for i c
  proof -
    from clean(4) [OF that(1)] that(2) assms(2) have "plc_expires_at c < cutoff"
      by (auto simp: expired_logins_def in_map_filter push_valid_def hm_mem_iff split: option.splits if_splits)
    moreover from clean(2) have "cutoff = sat_sub now max_push_window_seconds"
      by (auto simp: cleanup_cutoff_def split: if_splits)
    ultimately show ?thesis using recent [OF clean(1)] by (simp add: word_less_nat_alt word_le_nat_alt unat_sat_sub)
  qed
  then show ?thesis using stored_sends_clean [OF assms(2) clean(7,8)] clean(1) by simp
qed (simp_all add: stored_sends_def)

text \<open>
  A run of the store with a clock that does not go back, in which every notification of \<open>k\<close> is
  admitted under the same quota, and the times of these notifications.
\<close>

inductive send_run ::
    "string \<times> string \<times> push_purpose \<Rightarrow> u32 \<Rightarrow> u64 \<Rightarrow> u64 list \<Rightarrow> u64 \<Rightarrow> file_repository \<Rightarrow> file_repository \<Rightarrow> bool"
  for k limit window where
  start: "send_run k limit window [] tm r r"
| quiet: "\<lbrakk>send_run k limit window sent tm r r'; push_step event r' r'';
    event = Other \<or> event = Attempt i \<or> event = Redeemed i\<rbrakk> \<Longrightarrow> send_run k limit window sent tm r r''"
| clean: "\<lbrakk>send_run k limit window sent tm r r'; push_step (Cleaned now) r' r''; tm \<le> now\<rbrakk>
    \<Longrightarrow> send_run k limit window sent now r r''"
| send: "\<lbrakk>send_run k limit window sent tm r r'; push_step event r' r''; tm \<le> now;
    event = Issued now c l w \<or> event = Resent now c l w; quota_key c = k \<Longrightarrow> l = limit \<and> w = window\<rbrakk>
   \<Longrightarrow> send_run k limit window (if quota_key c = k then now # sent else sent) now r r''"

definition window_sends :: "u64 \<Rightarrow> u64 \<Rightarrow> u64 list \<Rightarrow> nat" where
  "window_sends window s sent = length (filter (\<lambda>tm. s \<le> tm \<and> unat tm < unat s + unat window) sent)"

definition sends_accounted ::
    "string \<times> string \<times> push_purpose \<Rightarrow> u32 \<Rightarrow> u64 \<Rightarrow> u64 list \<Rightarrow> u64 \<Rightarrow> push_store \<Rightarrow> bool" where
  "sends_accounted k limit window sent tm p \<longleftrightarrow> push_valid p
     \<and> (\<forall>s. unat tm < unat s + unat max_push_window_seconds \<longrightarrow> length (filter (\<lambda>t. s \<le> t) sent) \<le> stored_sends p k s)
     \<and> (\<forall>s. window_sends window s sent \<le> unat limit)"

lemma push_change_quota:
  assumes "push_change event p p'" "event = Issued now c l w \<or> event = Resent now c l w" "push_valid p"
  shows "stored_sends p (quota_key c) (sat_sub now (w - 1)) < unat l" "w \<noteq> 0" "unat w \<le> unat max_push_window_seconds"
proof -
  from assms(1,2) obtain since n where q: "login_sends p c since = Inr n" "n < unat l"
    "quota_window_start (plc_created_at c) (plc_expires_at c) now l w = Inr since"
    by cases auto
  from q(3) have "since = sat_sub now (w - 1)" "1 \<le> w" "w \<le> max_push_window_seconds"
    by (auto simp: quota_window_start_def split: if_splits)
  then show "stored_sends p (quota_key c) (sat_sub now (w - 1)) < unat l" "w \<noteq> 0"
    "unat w \<le> unat max_push_window_seconds"
    using login_sends_stored [OF assms(3) q(1)] q(2) by (auto simp: word_le_nat_alt)
qed

lemma admitted_window:
  assumes "sends_accounted k limit window sent tm p" "tm \<le> now"
    and quota: "stored_sends p k (sat_sub now (window - 1)) < unat limit" "window \<noteq> 0"
      "unat window \<le> unat max_push_window_seconds"
  shows "window_sends window s (now # sent) \<le> unat limit"
proof (cases "s \<le> now \<and> unat now < unat s + unat window")
  case False
  with assms(1) show ?thesis by (auto simp: sends_accounted_def window_sends_def)
next
  case True
  let ?since = "sat_sub now (window - 1)"
  from quota(2) have pos: "0 < unat window" by (simp add: unat_gt_0)
  then have since: "unat ?since = unat now - (unat window - 1)"
    using unat_sub [of 1 window] by (simp add: unat_sat_sub word_le_nat_alt Suc_le_eq)
  have "unat tm < unat ?since + unat max_push_window_seconds"
    using since pos quota(3) assms(2) by (simp add: word_le_nat_alt)
  with assms(1) have held: "length (filter (\<lambda>t. ?since \<le> t) sent) \<le> stored_sends p k ?since"
    by (simp add: sends_accounted_def)
  from True have "?since \<le> s" unfolding word_le_nat_alt since by linarith
  then have "window_sends window s sent \<le> length (filter (\<lambda>t. ?since \<le> t) sent)"
    unfolding window_sends_def by (intro length_filter_mono) auto
  with held quota(1) True show ?thesis by (simp add: window_sends_def)
qed

lemma send_run_accounted:
  assumes "send_run k limit window sent tm r r'" "push_valid (st_push (repo_store r))"
  shows "sends_accounted k limit window sent tm (st_push (repo_store r'))"
  using assms
proof (induction rule: send_run.induct)
  case (start tm r)
  then show ?case by (simp add: sends_accounted_def window_sends_def)
next
  case (quiet sent tm r r' event r'' i)
  note acc = quiet.IH [OF quiet.prems] and change = push_step_change [OF quiet(2)]
  from acc have valid: "push_valid (st_push (repo_store r'))" by (simp add: sends_accounted_def)
  have "stored_sends (st_push (repo_store r'')) k s = stored_sends (st_push (repo_store r')) k s" for s
    using push_change_sends [OF change valid, of s k] quiet(3) by auto
  with acc push_change_valid [OF change] show ?case by (simp add: sends_accounted_def)
next
  case (clean sent tm r r' now r'')
  note acc = clean.IH [OF clean.prems] and change = push_step_change [OF clean(2)]
  from acc have valid: "push_valid (st_push (repo_store r'))" by (simp add: sends_accounted_def)
  have "stored_sends (st_push (repo_store r'')) k s = stored_sends (st_push (repo_store r')) k s"
    if "unat now < unat s + unat max_push_window_seconds" for s
    using push_change_sends [OF change valid, of s k] that by simp
  with acc push_change_valid [OF change] clean(3) show ?case by (auto simp: sends_accounted_def word_le_nat_alt)
next
  case (send sent tm r r' event r'' now c l w)
  let ?p = "st_push (repo_store r')" and ?p' = "st_push (repo_store r'')"
  note acc = send.IH [OF send.prems] and change = push_step_change [OF send(2)]
  from acc have valid: "push_valid ?p" by (simp add: sends_accounted_def)
  have sends: "stored_sends ?p' k s = stored_sends ?p k s + (if quota_key c = k \<and> s \<le> now then 1 else 0)" for s
    using push_change_sends [OF change valid, of s k] send(4) by auto
  show ?case
  proof (cases "quota_key c = k")
    case False
    with acc sends push_change_valid [OF change valid] send(3) show ?thesis
      by (auto simp: sends_accounted_def word_le_nat_alt)
  next
    case True
    with push_change_quota [OF change send(4) valid] send(5)
    have "window_sends window s (now # sent) \<le> unat limit" for s
      by (intro admitted_window [OF acc send(3)]) auto
    with acc sends True push_change_valid [OF change valid] send(3) show ?thesis
      by (auto simp: sends_accounted_def word_le_nat_alt)
  qed
qed

text \<open>
  C18. The quota on push notifications holds in every window: along any run of the store whose clock
  does not go back, with issues, resends, attempts, redemptions and cleanups in any order, no
  interval of the quota's length contains more notifications to a user than the quota admits.
  Expiry cleanup never frees a place in the quota.
\<close>

theorem push_sends_bounded:
  assumes "send_run k limit window sent tm r r'" "push_valid (st_push (repo_store r))"
  shows "window_sends window s sent \<le> unat limit"
  using send_run_accounted [OF assms] by (simp add: sends_accounted_def)

definition example_send :: "file_repository" where
  "example_send = snd (try_resend_push_login None 160 example_login (replicate 64 CHR ''b'') (replicate 64 CHR ''c'')
     2 600 30 example_push_repo)"

lemma example_resend:
  "(case fst (try_resend_push_login None 160 example_login (replicate 64 CHR ''b'') (replicate 64 CHR ''c'')
      2 600 30 example_push_repo) of Inr (Some c) \<Rightarrow> plc_resend_admitted_at c | _ \<Rightarrow> []) = [160]"
  "fst (try_issue_push_login None 170 (example_login\<lparr>plc_id := ''l2''\<rparr>) 2 600 example_send) = Inr False"
  by code_simp+

lemma example_send_run:
  "send_run (''corp'', ''ann'', PasswordLogin) 2 600 [160] 160 example_push_repo example_send"
proof -
  obtain c where c: "fst (try_resend_push_login None 160 example_login (replicate 64 CHR ''b'')
      (replicate 64 CHR ''c'') 2 600 30 example_push_repo) = Inr (Some c)"
    using example_resend(1) by (auto split: sum.splits option.splits)
  have "push_step (Resent 160 example_login 2 600) example_push_repo example_send"
    using push_step.intros(7) [of 160 example_login 2 600 None "replicate 64 CHR ''b''" "replicate 64 CHR ''c''" 30
        example_push_repo] c
    by (simp add: example_send_def)
  moreover have "quota_key example_login = (''corp'', ''ann'', PasswordLogin)"
    by (simp add: quota_key_def example_login_def)
  ultimately show ?thesis
    using send_run.send [OF send_run.start [of _ _ _ 0], of "Resent 160 example_login 2 600" example_push_repo example_send
        160 example_login 2 600 "(''corp'', ''ann'', PasswordLogin)" 2 600]
    by simp
qed

theorem push_sends_bounded_witness:
  "send_run (''corp'', ''ann'', PasswordLogin) 2 600 [160] 160 example_push_repo example_send
   \<and> window_sends 600 100 [160] \<le> unat (2::u32)
   \<and> fst (try_issue_push_login None 170 (example_login\<lparr>plc_id := ''l2''\<rparr>) 2 600 example_send) = Inr False"
  using push_sends_bounded [OF example_send_run example_push_valid, of 100] example_send_run example_resend(2) by simp

end
