(* ===== verification/Qid_Repository.thy ===== *)
theory Qid_Repository
  imports Qid_Credentials Qid_Push_Limits
begin

text \<open>
  The file repository as a whole: the steps of every modelled component interleaved in any order on
  one store. The components meet here: what one issues another may delete, and what protocol
  endpoints rely on (a ticket is redeemed once, a revocation is final) must survive all of them.
\<close>

section \<open>Steps of the repository\<close>

datatype repo_label = TokenLabel issue | PushLabel push_event | Quiet

inductive repo_step :: "repo_label \<Rightarrow> file_repository \<Rightarrow> file_repository \<Rightarrow> bool" where
  token: "token_step lab r r' \<Longrightarrow> repo_step (TokenLabel lab) r r'"
| identity: "identity_step r r' \<Longrightarrow> repo_step Quiet r r'"
| credential: "credential_step r r' \<Longrightarrow> repo_step Quiet r r'"
| event_token: "repo_step Quiet r (snd (record_ssf_set_jti io realm issuer sid jti expires_at now r))"
| push: "push_step event r r' \<Longrightarrow> repo_step (PushLabel event) r r'"

fun label_issue :: "repo_label \<Rightarrow> issue" where
  "label_issue (TokenLabel lab) = lab"
| "label_issue _ = IssueNothing"

section \<open>What every step keeps\<close>

definition push_only :: "store \<Rightarrow> store \<Rightarrow> bool" where
  "push_only s s' \<longleftrightarrow> s' = s\<lparr>st_push := st_push s'\<rparr>"

lemma push_only_simps [simp]: "push_only s s" "push_only s (s\<lparr>st_push := p\<rparr>)"
  by (simp_all add: push_only_def)

lemma push_only_restore:
  assumes "push_only s s'"
  shows "s'\<lparr>st_push := st_push s\<rparr> = s"
proof -
  have "s' = s\<lparr>st_push := st_push s'\<rparr>" using assms by (simp add: push_only_def)
  then show ?thesis by (rule ssubst) simp
qed

lemma mutate_push_value_frame:
  assumes "\<And>s a. f (repo_store r) = Inr (s, a) \<Longrightarrow> push_only (repo_store r) s"
  shows "push_only (repo_store r) (repo_store (snd (mutate_push_value io f r)))"
proof (cases "f (repo_store r)")
  case (Inl e)
  then show ?thesis by (simp add: mutate_push_value_def Let_def)
next
  case (Inr x)
  obtain s changed v where x: "x = (s, changed, v)" by (cases x) auto
  with assms Inr have "push_only (repo_store r) s" by blast
  with Inr x show ?thesis
    by (cases io) (simp_all add: mutate_push_value_def Let_def write_store_content_def push_only_restore)
qed

lemma mutate_push_frame:
  assumes "\<And>s b. f (repo_store r) = Inr (s, b) \<Longrightarrow> push_only (repo_store r) s"
  shows "push_only (repo_store r) (repo_store (snd (mutate_push io f r)))"
  unfolding mutate_push_def by (rule mutate_push_value_frame) (use assms in auto)

lemma change_login_frame: "change_login f c s = Inr (s', b) \<Longrightarrow> push_only s s'"
  by (auto simp: change_login_def put_login_def Let_def split: option.splits if_splits)

lemma with_current_frame:
  assumes "with_current p c refused go = Inr x"
  shows "refused = Inr x \<or> go = Inr x"
  using assms by (auto simp: with_current_def split: option.splits if_splits)

lemma push_step_frame:
  assumes "push_step event r r'"
  shows "push_only (repo_store r) (repo_store r')"
  using assms
proof cases
  case (1 io expected verified now)
  show ?thesis unfolding 1 attempt_push_registration_def
    by (rule mutate_push_frame) (auto simp: Let_def put_authenticator_def split: option.splits if_splits)
next
  case (2 io realm user i now)
  show ?thesis unfolding 2 revoke_push_authenticator_def
    by (rule mutate_push_frame)
      (auto simp: Let_def put_authenticator_def split: option.splits if_splits push_authenticator_record.splits)
next
  case (3 io now challenge max_issuances window_seconds)
  show ?thesis unfolding 3 try_issue_push_registration_def
    by (auto simp: Let_def split: sum.splits if_splits intro!: mutate_push_frame)
next
  case (4 io login decision now)
  show ?thesis unfolding 4 attempt_push_login_def
    by (rule mutate_push_frame) (auto dest!: with_current_frame change_login_frame)
next
  case (5 io login binding now)
  show ?thesis unfolding 5 redeem_push_login_def
    by (rule mutate_push_frame) (auto dest!: with_current_frame change_login_frame split: if_splits)
next
  case (6 io now login max_issuances window_seconds)
  show ?thesis unfolding 6 try_issue_push_login_def
    by (auto simp: Let_def dest!: with_current_frame split: sum.splits if_splits intro!: mutate_push_frame)
next
  case (7 now login max_issuances window_seconds io binding nonce cooldown)
  show ?thesis unfolding 7 try_resend_push_login_def
    by (auto simp: Let_def put_login_def dest!: with_current_frame
        split: sum.splits if_splits option.splits intro!: mutate_push_value_frame)
next
  case (8 io now limit)
  show ?thesis unfolding 8 cleanup_expired_push_records_def
    by (cases io) (auto simp: Let_def write_store_content_def split: sum.splits prod.splits)
qed

text \<open>The tables whose rows are issued, redeemed and revoked, and what a step may do to them.\<close>

definition repo_wf :: "file_repository \<Rightarrow> bool" where
  "repo_wf r \<longleftrightarrow> (let s = repo_store r
     in hm_wf (st_sessions s) \<and> hm_wf (st_authorization_codes s) \<and> hm_wf (st_token_families s)
        \<and> hm_wf (st_access_tokens s) \<and> hm_wf (st_par_requests s) \<and> hm_wf (st_device_authorization_grants s)
        \<and> hm_wf (st_backchannel_authentication_grants s)
        \<and> push_valid (st_push s))"

lemma hm_retain_contains:
  assumes "hm_wf issued" "hm_get m i = Some v"
  shows "hm_get (hm_retain (\<lambda>i _. hm_contains m i) issued) i = hm_get issued i"
  using assms by (simp add: map_of_hm_retain hm_contains_def split: option.splits)

lemma removed_push_valid:
  assumes "push_valid p"
  shows "push_valid (removed_push users realm p)"
proof (rule push_valid_subset [OF assms])
  from assms have wf: "hm_wf (ps_authenticators p)" "hm_wf (ps_logins p)" "hm_wf (ps_registration_issued_at p)"
    "hm_wf (ps_login_issued_at p)"
    by (simp_all add: push_valid_def)
  show "hm_get (ps_authenticators p) i = Some row \<and>
      hm_get (ps_registration_issued_at (removed_push users realm p)) i = hm_get (ps_registration_issued_at p) i"
    if "hm_get (ps_authenticators (removed_push users realm p)) i = Some row" for i row
    using that wf(1) hm_retain_contains [OF wf(3) that] by (simp add: removed_push_def Let_def)
  show "hm_get (ps_logins p) i = Some c \<and>
      hm_get (ps_login_issued_at (removed_push users realm p)) i = hm_get (ps_login_issued_at p) i"
    if "hm_get (ps_logins (removed_push users realm p)) i = Some c" for i c
    using that wf(2) hm_retain_contains [OF wf(4) that] by (simp add: removed_push_def Let_def)
qed (use assms in \<open>simp_all add: removed_push_def push_valid_def Let_def\<close>)

lemma credential_change_frame:
  assumes "credential_change s s'"
  shows "token_evolves lab s s'" "st_push s' = st_push s"
    "advances approval_le (st_admin_approvals s) (st_admin_approvals s')"
proof -
  show "token_evolves lab s s'" using assms by cases (simp_all add: token_evolves_def)
  show "st_push s' = st_push s" using assms by cases simp_all
  show "advances approval_le (st_admin_approvals s) (st_admin_approvals s')" using assms by cases simp_all
qed

lemma push_only_frame:
  assumes "push_only s s'"
  shows "token_evolves lab s s'" "st_admin_approvals s' = st_admin_approvals s"
proof -
  have eq: "s' = s\<lparr>st_push := st_push s'\<rparr>" using assms by (simp add: push_only_def)
  show "token_evolves lab s s'" by (subst eq) (simp add: token_evolves_def)
  show "st_admin_approvals s' = st_admin_approvals s" by (subst eq) simp
qed

lemma event_token_frame:
  fixes io realm issuer sid jti expires_at now r
  defines "s' \<equiv> repo_store (snd (record_ssf_set_jti io realm issuer sid jti expires_at now r))"
  shows "token_evolves lab (repo_store r) s'" "st_push s' = st_push (repo_store r)"
    "st_admin_approvals s' = st_admin_approvals (repo_store r)"
  by (simp_all add: s'_def record_ssf_set_jti_def Let_def token_evolves_def)

lemma repo_step_tokens:
  assumes "repo_step lab r r'"
  shows "token_evolves (label_issue lab) (repo_store r) (repo_store r')"
  using assms
proof cases
  case (token l)
  then show ?thesis using token_step_change by (simp add: token_change_def)
next
  case identity
  then show ?thesis using identity_step_kept by (simp add: auth_rows_kept_def)
next
  case credential
  then show ?thesis using credential_change_frame(1) [OF credential_step_change] by simp
next
  case (push event)
  then show ?thesis using push_only_frame(1) [OF push_step_frame] by simp
qed (simp add: event_token_frame)

lemma repo_step_approvals:
  assumes "repo_step lab r r'"
  shows "advances approval_le (st_admin_approvals (repo_store r)) (st_admin_approvals (repo_store r'))"
  using assms
proof cases
  case (token l)
  then show ?thesis using token_step_change by (simp add: token_change_def other_tables_kept_def)
next
  case identity
  then show ?thesis using identity_step_kept by (simp add: auth_rows_kept_def)
next
  case credential
  then show ?thesis using credential_change_frame(3) [OF credential_step_change] by simp
next
  case (push event)
  then show ?thesis using push_only_frame(2) [OF push_step_frame] by simp
qed (simp add: event_token_frame)

text \<open>Seen from push approval, a step of another component does nothing or drops the rows of users.\<close>

lemma repo_step_push:
  assumes "repo_step lab r r'"
  obtains event where "lab = PushLabel event" "push_change event (st_push (repo_store r)) (st_push (repo_store r'))"
  | "st_push (repo_store r') = st_push (repo_store r)"
  | users realm where "st_push (repo_store r') = removed_push users realm (st_push (repo_store r))"
proof -
  note cases = that
  show thesis
    using assms
  proof cases
    case (token l)
    then show ?thesis using token_step_change cases(2) by (simp add: token_change_def other_tables_kept_def)
  next
    case identity
    then have "auth_rows_kept (repo_store r) (repo_store r')" by (simp add: identity_step_kept)
    then show ?thesis using cases(2,3) unfolding auth_rows_kept_def by blast
  next
    case credential
    then show ?thesis using credential_change_frame(2) [OF credential_step_change] cases(2) by blast
  next
    case (push event)
    then show ?thesis using push_step_change cases(1) by blast
  qed (use cases(2) event_token_frame(2) in blast)
qed

lemma repo_step_wf:
  assumes "repo_step lab r r'" "repo_wf r"
  shows "repo_wf r'"
proof -
  from assms(2) have "push_valid (st_push (repo_store r))" by (simp add: repo_wf_def Let_def)
  with assms(1) have "push_valid (st_push (repo_store r'))"
    by (cases rule: repo_step_push) (auto simp: removed_push_valid dest: push_change_valid)
  with repo_step_tokens [OF assms(1)] assms(2) show ?thesis
    by (simp add: repo_wf_def Let_def token_evolves_def evolves_def)
qed

lemma token_evolvesD:
  assumes "token_evolves lab s s'"
  shows "evolves (\<lambda>k. lab = IssueSession k) session_le (st_sessions s) (st_sessions s')"
    "evolves (\<lambda>k. lab = IssueCode k) code_le (st_authorization_codes s) (st_authorization_codes s')"
    "evolves (\<lambda>k. lab = IssueFamily k) family_le (st_token_families s) (st_token_families s')"
    "evolves (\<lambda>k. lab = IssueAccessToken k) access_token_le (st_access_tokens s) (st_access_tokens s')"
    "evolves (\<lambda>k. lab = IssuePar k) par_le (st_par_requests s) (st_par_requests s')"
    "evolves (\<lambda>k. lab = IssueDeviceGrant k) device_grant_le
       (st_device_authorization_grants s) (st_device_authorization_grants s')"
    "evolves (\<lambda>k. lab = IssueBackchannelGrant k) backchannel_grant_le
       (st_backchannel_authentication_grants s) (st_backchannel_authentication_grants s')"
  using assms by (simp_all add: token_evolves_def)

section \<open>Tickets are redeemed once\<close>

text \<open>
  A ticket is a record that an endpoint redeems for a login, a token or an administrative action: an
  authorization code, a pushed request, a device or backchannel grant, an admin approval, a push
  login. A redemption carries what the endpoint presents.
\<close>

datatype ticket =
    CodeTicket string
  | ParTicket string
  | DeviceTicket string
  | BackchannelTicket string
  | ApprovalTicket string
  | PushTicket string

datatype redemption =
    RedeemCode io authorization_code
  | RedeemPar io string
  | RedeemDevice io string
  | RedeemBackchannel io string
  | RedeemApproval io string
  | RedeemPush io push_login_challenge string u64

fun ticket_of :: "redemption \<Rightarrow> ticket" where
  "ticket_of (RedeemCode io code) = CodeTicket (code_code_hash code)"
| "ticket_of (RedeemPar io uri) = ParTicket uri"
| "ticket_of (RedeemDevice io hash) = DeviceTicket hash"
| "ticket_of (RedeemBackchannel io hash) = BackchannelTicket hash"
| "ticket_of (RedeemApproval io i) = ApprovalTicket i"
| "ticket_of (RedeemPush io login binding now) = PushTicket (plc_id login)"

fun redeem_ticket :: "redemption \<Rightarrow> file_repository \<Rightarrow> bool \<times> file_repository" where
  "redeem_ticket (RedeemCode io code) r = map_prod is_ok id (mark_authorization_code_used io code r)"
| "redeem_ticket (RedeemPar io uri) r = map_prod is_ok id (mark_par_request_used io uri r)"
| "redeem_ticket (RedeemDevice io hash) r = map_prod is_ok id (consume_device_authorization_grant io hash r)"
| "redeem_ticket (RedeemBackchannel io hash) r =
     map_prod is_ok id (consume_backchannel_authentication_grant io hash r)"
| "redeem_ticket (RedeemApproval io i) r =
     map_prod (\<lambda>res. res = Inr True) id (consume_admin_approval_if_unconsumed io i r)"
| "redeem_ticket (RedeemPush io login binding now) r =
     map_prod (\<lambda>res. res = Inr True) id (redeem_push_login io login binding now r)"

fun reissues :: "repo_label \<Rightarrow> ticket \<Rightarrow> bool" where
  "reissues (TokenLabel lab) (CodeTicket k) = (lab = IssueCode k)"
| "reissues (TokenLabel lab) (ParTicket k) = (lab = IssuePar k)"
| "reissues (TokenLabel lab) (DeviceTicket k) = (lab = IssueDeviceGrant k)"
| "reissues (TokenLabel lab) (BackchannelTicket k) = (lab = IssueBackchannelGrant k)"
| "reissues (PushLabel (Issued now c limit window)) (PushTicket k) = (plc_id c = k)"
| "reissues _ _ = False"

definition ticket_step :: "ticket \<Rightarrow> file_repository \<Rightarrow> file_repository \<Rightarrow> bool" where
  "ticket_step k r r' \<longleftrightarrow> (\<exists>lab. repo_step lab r r' \<and> \<not> reissues lab k)"

fun ticket_open :: "ticket \<Rightarrow> file_repository \<Rightarrow> bool" where
  "ticket_open (CodeTicket k) r =
     (\<exists>c. hm_get (st_authorization_codes (repo_store r)) k = Some c \<and> \<not> code_used c)"
| "ticket_open (ParTicket k) r = (\<exists>c. hm_get (st_par_requests (repo_store r)) k = Some c \<and> \<not> par_used c)"
| "ticket_open (DeviceTicket k) r =
     (\<exists>g. hm_get (st_device_authorization_grants (repo_store r)) k = Some g \<and> \<not> dag_consumed g)"
| "ticket_open (BackchannelTicket k) r =
     (\<exists>g. hm_get (st_backchannel_authentication_grants (repo_store r)) k = Some g \<and> \<not> bag_consumed g)"
| "ticket_open (ApprovalTicket k) r =
     (\<nexists>a. hm_get (st_admin_approvals (repo_store r)) k = Some a \<and> app_consumed a)"
| "ticket_open (PushTicket k) r =
     (\<exists>c. hm_get (ps_logins (st_push (repo_store r))) k = Some c \<and> plc_consumed_at c = None)"

definition redeem_as :: "redemption \<Rightarrow> ticket \<Rightarrow> file_repository \<Rightarrow> bool \<times> file_repository" where
  "redeem_as q k r = (if ticket_of q = k then redeem_ticket q r else (False, r))"

lemma redeem_ticket_step: "\<exists>lab. repo_step lab r (snd (redeem_ticket q r))"
proof (cases q)
  case (RedeemApproval io i)
  then show ?thesis by (auto intro!: exI repo_step.credential credential_step.intros(9))
next
  case (RedeemPush io login binding now)
  then show ?thesis by (auto intro!: exI repo_step.push push_step.intros(5))
qed (auto intro!: exI repo_step.token token_step.intros(5,12,16,20))

lemma try_write_ok: "is_ok (fst (try_write io f r)) \<Longrightarrow> is_ok (f (repo_store r))"
  by (cases "f (repo_store r)") (auto simp: try_write_def)

lemma redeem_table:
  assumes "fst (redeem_ticket q r)" "\<And>io login binding now. q \<noteq> RedeemPush io login binding now"
  shows "ticket_open (ticket_of q) r \<and> \<not> ticket_open (ticket_of q) (snd (redeem_ticket q r))"
proof (cases q)
  case (RedeemApproval io i)
  with assms(1) show ?thesis
    by (auto simp: consume_admin_approval_if_unconsumed_def Let_def opt_filter_def split: option.splits if_splits)
qed (use assms in \<open>auto simp: mark_authorization_code_used_def mark_par_request_used_def
    consume_device_authorization_grant_def consume_backchannel_authentication_grant_def opt_filter_def
    try_write_store dest!: try_write_ok split: if_splits option.splits\<close>)

lemma push_redeemed:
  assumes "push_change (Redeemed i) p p'"
  obtains c where "hm_get (ps_logins p) i = Some c" "plc_consumed_at c = None" "plc_decision c = Some PushApprove"
    and "\<exists>tm. hm_get (ps_logins p') i = Some (c\<lparr>plc_consumed_at := Some tm\<rparr>)"
  using assms
proof cases
  case (redeemed c expected binding now c')
  note c = redeem_Some(2,3,8) [OF redeemed(4)]
  show ?thesis
  proof (rule that [OF redeemed(2) c(2,1)])
    show "\<exists>tm. hm_get (ps_logins p') i = Some (c\<lparr>plc_consumed_at := Some tm\<rparr>)"
      using redeemed(1) c(3) by (intro exI [of _ now]) simp
  qed
qed

lemma redeem_push_event:
  assumes "fst (redeem_push_login io login binding now r) = Inr True"
  shows "push_change (Redeemed (plc_id login)) (st_push (repo_store r))
    (st_push (repo_store (snd (redeem_push_login io login binding now r))))"
  using push_step_change [OF push_step.intros(5) [of io login binding now r]] assms by simp

lemma redeem_ticket_spends:
  assumes "fst (redeem_ticket q r)"
  shows "ticket_open (ticket_of q) r \<and> \<not> ticket_open (ticket_of q) (snd (redeem_ticket q r))"
proof (cases "\<exists>io login binding now. q = RedeemPush io login binding now")
  case True
  then obtain io login binding now where q: "q = RedeemPush io login binding now" by blast
  with assms have "fst (redeem_push_login io login binding now r) = Inr True" by simp
  from push_redeemed [OF redeem_push_event [OF this]] obtain c tm
    where "hm_get (ps_logins (st_push (repo_store r))) (plc_id login) = Some c" "plc_consumed_at c = None"
      "hm_get (ps_logins (st_push (repo_store (snd (redeem_push_login io login binding now r))))) (plc_id login)
        = Some (c\<lparr>plc_consumed_at := Some tm\<rparr>)" by metis
  then show ?thesis by (simp add: q)
next
  case False
  then show ?thesis by (intro redeem_table [OF assms]) blast
qed

lemma push_change_absent:
  assumes "push_change event p p'" "hm_get (ps_logins p) i = None"
    and "\<And>now c limit window. event = Issued now c limit window \<Longrightarrow> plc_id c \<noteq> i"
  shows "hm_get (ps_logins p') i = None"
  using assms(1)
proof cases
  case (clean now limit cutoff regs logins)
  with assms(2) show ?thesis by (simp add: restrict_map_def)
next
  case (issue c j now limit window start n)
  with assms(2,3) show ?thesis by simp
qed (use assms(2) in \<open>auto simp: push_equiv_def\<close>)

lemma push_change_closed:
  assumes "push_change event p p'" "\<nexists>c. hm_get (ps_logins p) i = Some c \<and> plc_consumed_at c = None"
    and "\<And>now c limit window. event = Issued now c limit window \<Longrightarrow> plc_id c \<noteq> i"
  shows "\<nexists>c. hm_get (ps_logins p') i = Some c \<and> plc_consumed_at c = None"
proof (cases "hm_get (ps_logins p) i")
  case None
  from push_change_absent [OF assms(1) None assms(3)] show ?thesis by simp
next
  case (Some c)
  with assms(2) have "plc_consumed_at c \<noteq> None" by simp
  with push_change_login_le [OF assms(1) Some] show ?thesis by (auto simp: login_le_def)
qed

lemma repo_step_push_closed:
  assumes "repo_step lab r r'" "repo_wf r" "\<not> reissues lab (PushTicket k)" "\<not> ticket_open (PushTicket k) r"
  shows "\<not> ticket_open (PushTicket k) r'"
  using assms(1)
proof (cases rule: repo_step_push)
  case (1 event)
  have "plc_id c \<noteq> k" if "event = Issued now c limit window" for now c limit window
    using assms(3) that 1(1) by simp
  from push_change_closed [OF 1(2) assms(4) [unfolded ticket_open.simps] this] show ?thesis
    unfolding ticket_open.simps .
next
  case (3 users realm)
  from assms(2) have "hm_wf (ps_logins (st_push (repo_store r)))" by (simp add: repo_wf_def Let_def push_valid_def)
  with 3 assms(4) show ?thesis by (auto simp: removed_push_def Let_def)
qed (use assms(4) in simp)

lemma token_le_spent:
  "code_le a b \<Longrightarrow> code_used a \<Longrightarrow> code_used b" "par_le c d \<Longrightarrow> par_used c \<Longrightarrow> par_used d"
  "device_grant_le e f \<Longrightarrow> dag_consumed e \<Longrightarrow> dag_consumed f"
  "backchannel_grant_le g h \<Longrightarrow> bag_consumed g \<Longrightarrow> bag_consumed h"
  "approval_le i j \<Longrightarrow> app_consumed i \<Longrightarrow> app_consumed j"
  unfolding token_le_defs approval_le_def by (erule conjE, erule (1) mp)+

lemma ticket_step_closed:
  assumes "repo_wf r" "ticket_step k r r'" "\<not> ticket_open k r"
  shows "\<not> ticket_open k r'"
proof -
  from assms(2) obtain lab where step: "repo_step lab r r'" "\<not> reissues lab k" by (auto simp: ticket_step_def)
  note tokens = token_evolvesD [OF repo_step_tokens [OF step(1)]]
  from assms(1) have wf: "hm_wf (st_authorization_codes (repo_store r))" "hm_wf (st_par_requests (repo_store r))"
    "hm_wf (st_device_authorization_grants (repo_store r))" "hm_wf (st_backchannel_authentication_grants (repo_store r))"
    by (simp_all add: repo_wf_def Let_def)
  show ?thesis
  proof (cases k)
    case (CodeTicket i)
    with step(2) have "label_issue lab \<noteq> IssueCode i" by (cases lab) auto
    from evolves_dead [where live = "\<lambda>c. \<not> code_used c", OF tokens(2) wf(1) this] assms(3) CodeTicket token_le_spent(1)
    show ?thesis by auto
  next
    case (ParTicket i)
    with step(2) have "label_issue lab \<noteq> IssuePar i" by (cases lab) auto
    from evolves_dead [where live = "\<lambda>c. \<not> par_used c", OF tokens(5) wf(2) this] assms(3) ParTicket token_le_spent(2)
    show ?thesis by auto
  next
    case (DeviceTicket i)
    with step(2) have "label_issue lab \<noteq> IssueDeviceGrant i" by (cases lab) auto
    from evolves_dead [where live = "\<lambda>c. \<not> dag_consumed c", OF tokens(6) wf(3) this] assms(3) DeviceTicket token_le_spent(3)
    show ?thesis by auto
  next
    case (BackchannelTicket i)
    with step(2) have "label_issue lab \<noteq> IssueBackchannelGrant i" by (cases lab) auto
    from evolves_dead [where live = "\<lambda>c. \<not> bag_consumed c", OF tokens(7) wf(4) this] assms(3) BackchannelTicket token_le_spent(4)
    show ?thesis by auto
  next
    case (ApprovalTicket i)
    with assms(3) obtain a where "hm_get (st_admin_approvals (repo_store r)) i = Some a" "app_consumed a" by auto
    with repo_step_approvals [OF step(1)] obtain b
      where "hm_get (st_admin_approvals (repo_store r')) i = Some b" "approval_le a b" by (auto simp: advances_def)
    with ApprovalTicket token_le_spent(5) [OF this(2)] \<open>app_consumed a\<close> show ?thesis by simp
  next
    case (PushTicket i)
    from repo_step_push_closed [OF step(1) assms(1)] step(2) assms(3) show ?thesis unfolding PushTicket by blast
  qed
qed

interpretation tickets: one_shot repo_wf ticket_step ticket_open redeem_as
proof
  show "repo_wf r'" if "repo_wf r" "ticket_step k r r'" for r k r'
    using that repo_step_wf by (auto simp: ticket_step_def)
  show "repo_wf (snd (redeem_as q k r))" if "repo_wf r" for q k r
    using that repo_step_wf redeem_ticket_step [of r q] by (auto simp: redeem_as_def)
  show "ticket_open k r" if "repo_wf r" "fst (redeem_as q k r)" for r q k
    using that redeem_ticket_spends [of q r] by (auto simp: redeem_as_def split: if_splits)
  show "\<not> ticket_open k (snd (redeem_as q k r))" if "repo_wf r" "fst (redeem_as q k r)" for r q k
    using that redeem_ticket_spends [of q r] by (auto simp: redeem_as_def split: if_splits)
  show "\<not> ticket_open k r'" if "repo_wf r" "ticket_step k r r'" "\<not> ticket_open k r" for r k r'
    using that by (rule ticket_step_closed)
qed

text \<open>
  C13. A ticket is redeemed at most once: after an authorization code, a pushed authorization request,
  a device or backchannel grant, an admin approval or a push login was redeemed, every further
  redemption of it is refused, whatever operations of the repository run in between and whatever the
  disk does, as long as nothing issues that ticket anew.
\<close>

theorem tickets_redeemed_once:
  assumes "repo_wf r" "fst (redeem_ticket q r)" "(ticket_step (ticket_of q))\<^sup>*\<^sup>* (snd (redeem_ticket q r)) r'"
    and "ticket_of q' = ticket_of q"
  shows "\<not> fst (redeem_ticket q' r')"
  using tickets.consumed_once [of r q "ticket_of q" r' q'] assms by (simp add: redeem_as_def)

definition example_approved :: file_repository where
  "example_approved = snd (attempt_push_login None example_login (Some PushApprove) 150 example_push_repo)"

definition example_redemption :: redemption where
  "example_redemption = RedeemPush None example_login (replicate 64 CHR ''b'') 160"

lemma example_approved_wf: "repo_wf example_approved"
proof -
  have "repo_wf example_push_repo"
    using example_push_valid by (simp add: repo_wf_def example_push_repo_def empty_store_def)
  moreover have "\<exists>lab. repo_step lab example_push_repo example_approved"
    unfolding example_approved_def
    using repo_step.push [OF push_step.intros(4) [of None example_login "Some PushApprove" 150 example_push_repo]] by blast
  ultimately show ?thesis using repo_step_wf by blast
qed

lemma example_redeemed: "fst (redeem_ticket example_redemption example_approved)"
  by code_simp

theorem tickets_redeemed_once_witness:
  "(let r = example_approved; r1 = snd (redeem_ticket example_redemption r);
        r2 = snd (revoke_push_authenticator None ''corp'' ''ann'' ''k1'' 170 r1)
    in repo_wf r \<and> fst (redeem_ticket example_redemption r) \<and> \<not> fst (redeem_ticket example_redemption r2))"
proof -
  let ?r1 = "snd (redeem_ticket example_redemption example_approved)"
  let ?r2 = "snd (revoke_push_authenticator None ''corp'' ''ann'' ''k1'' 170 ?r1)"
  have step: "ticket_step (ticket_of example_redemption) ?r1 ?r2"
    unfolding ticket_step_def example_redemption_def
    by (rule exI [of _ "PushLabel Other"]) (simp add: repo_step.push push_step.intros(2))
  from tickets_redeemed_once [OF example_approved_wf example_redeemed
      r_into_rtranclp [of "ticket_step (ticket_of example_redemption)", OF step] refl]
    example_approved_wf example_redeemed show ?thesis by (simp add: Let_def)
qed

section \<open>Revocation is final\<close>

datatype grant = SessionGrant string | FamilyGrant string | AccessGrant string

fun grant_live :: "grant \<Rightarrow> file_repository \<Rightarrow> bool" where
  "grant_live (SessionGrant k) r = (\<exists>v. hm_get (st_sessions (repo_store r)) k = Some v \<and> \<not> ses_revoked v)"
| "grant_live (FamilyGrant k) r = (\<exists>v. hm_get (st_token_families (repo_store r)) k = Some v \<and> \<not> tf_revoked v)"
| "grant_live (AccessGrant k) r = (\<exists>v. hm_get (st_access_tokens (repo_store r)) k = Some v \<and> \<not> at_revoked v)"

fun grant_in_realm :: "string \<Rightarrow> grant \<Rightarrow> file_repository \<Rightarrow> bool" where
  "grant_in_realm rl (SessionGrant k) r = (\<exists>v. hm_get (st_sessions (repo_store r)) k = Some v \<and> ses_realm_id v = rl)"
| "grant_in_realm rl (FamilyGrant k) r = (\<exists>v. hm_get (st_token_families (repo_store r)) k = Some v \<and> tf_realm_id v = rl)"
| "grant_in_realm rl (AccessGrant k) r = (\<exists>v. hm_get (st_access_tokens (repo_store r)) k = Some v \<and> at_realm_id v = rl)"

fun grant_issue :: "grant \<Rightarrow> issue" where
  "grant_issue (SessionGrant k) = IssueSession k"
| "grant_issue (FamilyGrant k) = IssueFamily k"
| "grant_issue (AccessGrant k) = IssueAccessToken k"

fun revoke_grant :: "io \<Rightarrow> string \<Rightarrow> grant \<Rightarrow> file_repository \<Rightarrow> file_repository" where
  "revoke_grant io rl (SessionGrant k) r = snd (revoke_session io k (Some rl) r)"
| "revoke_grant io rl (FamilyGrant k) r = snd (revoke_token_family io k rl r)"
| "revoke_grant io rl (AccessGrant k) r = snd (revoke_access_token io k rl r)"

definition grant_step :: "grant \<Rightarrow> file_repository \<Rightarrow> file_repository \<Rightarrow> bool" where
  "grant_step k r r' \<longleftrightarrow> (\<exists>lab. repo_step lab r r' \<and> label_issue lab \<noteq> grant_issue k)"

lemma revoke_grant_step: "\<exists>lab. repo_step lab r (revoke_grant io rl k r)"
  by (cases k) (auto intro!: exI repo_step.token token_step.intros(3,8,10))

lemma revoke_grant_dead: "grant_in_realm rl k r \<Longrightarrow> \<not> grant_live k (revoke_grant io rl k r)"
  by (cases k) (auto simp: revoke_session_def session_in_scope_def opt_filter_def none_or_def Let_def
      revoke_token_family_def revoke_access_token_def split: option.splits)

lemma token_le_revoked:
  "session_le a b \<Longrightarrow> ses_revoked a \<Longrightarrow> ses_revoked b" "access_token_le c d \<Longrightarrow> at_revoked c \<Longrightarrow> at_revoked d"
  "family_le e f \<Longrightarrow> tf_revoked e \<Longrightarrow> tf_revoked f"
  unfolding token_le_defs by ((erule conjE, erule (1) mp) | (erule conjE, drule (1) mp, simp))+

lemma grant_step_dead:
  assumes "repo_wf r" "grant_step k r r'" "\<not> grant_live k r"
  shows "\<not> grant_live k r'"
proof -
  from assms(2) obtain lab where step: "repo_step lab r r'" "label_issue lab \<noteq> grant_issue k"
    by (auto simp: grant_step_def)
  note tokens = token_evolvesD [OF repo_step_tokens [OF step(1)]]
  from assms(1) have wf: "hm_wf (st_sessions (repo_store r))" "hm_wf (st_token_families (repo_store r))"
    "hm_wf (st_access_tokens (repo_store r))"
    by (simp_all add: repo_wf_def Let_def)
  show ?thesis
  proof (cases k)
    case (SessionGrant i)
    with evolves_dead [where live = "\<lambda>v. \<not> ses_revoked v" and k = i, OF tokens(1) wf(1)] step(2) assms(3)
      token_le_revoked(1) show ?thesis by auto
  next
    case (FamilyGrant i)
    with evolves_dead [where live = "\<lambda>v. \<not> tf_revoked v" and k = i, OF tokens(3) wf(2)] step(2) assms(3)
      token_le_revoked(3) show ?thesis by auto
  next
    case (AccessGrant i)
    with evolves_dead [where live = "\<lambda>v. \<not> at_revoked v" and k = i, OF tokens(4) wf(3)] step(2) assms(3)
      token_le_revoked(2) show ?thesis by auto
  qed
qed

lemma grant_steps_dead:
  assumes "(grant_step k)\<^sup>*\<^sup>* r r'" "repo_wf r" "\<not> grant_live k r"
  shows "repo_wf r' \<and> \<not> grant_live k r'"
  using assms
proof (induction rule: rtranclp_induct)
  case (step r1 r2)
  then have "repo_wf r2" using repo_step_wf by (auto simp: grant_step_def)
  with step grant_step_dead show ?case by blast
qed simp

lemma dead_family_refuses:
  assumes "\<not> grant_live (FamilyGrant i) r"
  shows "\<exists>e. update_token_family_refresh_hash io i rl old new deadline r = (Inl e, r)"
proof (cases "rotate_family i rl old new deadline (repo_store r)")
  case (Inr x)
  then obtain s prev where "rotate_family i rl old new deadline (repo_store r) = Inr (s, prev)" by (cases x) auto
  with assms show ?thesis by (auto simp: rotate_family_Inr)
qed (simp add: update_token_family_refresh_hash_def)

text \<open>
  C16. Revocation is final: once a session, a refresh-token family or an access token was revoked in
  its realm, no sequence of repository operations makes it live again, short of issuing a new record
  under that identifier. In particular every later rotation of a revoked family is refused and
  changes nothing, whatever refresh token is presented.
\<close>

theorem revocation_is_final:
  assumes "repo_wf r" "grant_in_realm rl k r" "(grant_step k)\<^sup>*\<^sup>* (revoke_grant io rl k r) r'"
  shows "\<not> grant_live k r'
    \<and> (k = FamilyGrant i \<longrightarrow> (\<exists>e. update_token_family_refresh_hash io' i rl' old new deadline r' = (Inl e, r')))"
proof -
  from revoke_grant_step [of r io rl k] repo_step_wf assms(1) have "repo_wf (revoke_grant io rl k r)" by blast
  with grant_steps_dead [OF assms(3)] revoke_grant_dead [OF assms(2)] have "\<not> grant_live k r'" by blast
  with dead_family_refuses show ?thesis by blast
qed

theorem revocation_is_final_witness:
  "(let k = FamilyGrant ''f1''; r' = revoke_grant None ''corp'' k example_repo
    in repo_wf example_repo \<and> grant_live k example_repo \<and> \<not> grant_live k r'
       \<and> (\<exists>e. update_token_family_refresh_hash None ''f1'' ''corp'' ''h1'' ''h2'' 100 r' = (Inl e, r')))"
proof -
  have wf: "repo_wf example_repo"
    by (simp add: repo_wf_def example_repo_def empty_store_def push_valid_def hm_wf_def)
  have realm: "grant_in_realm ''corp'' (FamilyGrant ''f1'') example_repo"
    and live: "grant_live (FamilyGrant ''f1'') example_repo"
    by (simp_all add: example_repo_def example_family_def)
  from revocation_is_final [OF wf realm rtranclp.rtrancl_refl, where io = None and i = "''f1''" and io' = None
      and rl' = "''corp''" and old = "''h1''" and new = "''h2''" and deadline = 100]
    wf live show ?thesis by (simp add: Let_def)
qed

end
