(* ===== verification/Qid_Limits.thy ===== *)
theory Qid_Limits
  imports Qid_Prelude
begin

text \<open>
  Admission control. The fixed-window rate limiter of \<^verbatim>\<open>qid-http/src/ratelimit.rs\<close>, the
  failure budget of \<^verbatim>\<open>qid-core/src/throttle.rs\<close>, and the password and TOTP limiters of
  \<^verbatim>\<open>qid-session/src/password_limit.rs\<close> and \<^verbatim>\<open>totp_limit.rs\<close> that are built on the former.

  Every operation reads the clock itself; the model takes the reading as its argument
  \<^verbatim>\<open>now\<close>. The lock of each limiter is modelled by a flag that says whether it is poisoned,
  the one failure the code handles. Map sizes are natural numbers: a map has fewer entries
  than a machine word can count.

  The first part transcribes the code; the second shows that a limiter never tracks more
  keys than its capacity, that one key is admitted at most twice its limit in any span as
  long as its window however the calls interleave, that the prune threshold is a lower bound
  as long as a key keeps its window, and that an account is admitted again once the window
  has passed.
\<close>

section \<open>The rate limiter\<close>

datatype rate_limit_key =
    User_Key string
  | Ip_Key string
  | Device_Key string
  | Asn_Key string
  | Tenant_Key string

record rate_limit_config =
  max_per_user :: u32
  max_per_ip :: u32
  max_per_asn :: u32
  max_per_device :: u32
  max_per_tenant :: u32
  config_window_seconds :: u64

definition default_rate_limit_config :: rate_limit_config where
  "default_rate_limit_config = \<lparr> max_per_user = 5, max_per_ip = 20, max_per_asn = 50,
     max_per_device = 10, max_per_tenant = 100, config_window_seconds = 300 \<rparr>"

record axis_limit =
  axis_max :: u32
  axis_window :: u64

definition axis_limit_new :: "u32 \<Rightarrow> u64 \<Rightarrow> axis_limit" where
  "axis_limit_new m w = \<lparr> axis_max = m, axis_window = w \<rparr>"

record window_entry =
  entry_count :: u32
  entry_start :: u64
  entry_window :: u64

record rate_limit_state =
  rate_entries :: "(rate_limit_key, window_entry) hash_map"
  next_expiry :: u64

definition empty_rate_limit_state :: rate_limit_state where
  "empty_rate_limit_state = \<lparr> rate_entries = [], next_expiry = - 1 \<rparr>"

definition entry_expiry :: "window_entry \<Rightarrow> u64" where
  "entry_expiry e = sat_add (entry_start e) (entry_window e)"

definition min_or_max :: "u64 list \<Rightarrow> u64" where
  "min_or_max xs = fold min xs (- 1)"

definition prune_expired :: "u64 \<Rightarrow> rate_limit_state \<Rightarrow> rate_limit_state" where
  "prune_expired now st =
     (let kept = hm_retain (\<lambda>_ e. now < entry_expiry e) (rate_entries st)
      in \<lparr> rate_entries = kept, next_expiry = min_or_max (map entry_expiry (hm_values kept)) \<rparr>)"

datatype axis_state = Admitted u32 | Denied

definition axis_state_of ::
  "(rate_limit_key, window_entry) hash_map \<Rightarrow> rate_limit_key \<Rightarrow> u64 \<Rightarrow> axis_limit \<Rightarrow> axis_state" where
  "axis_state_of m k now limit =
     (let count = (case hm_get m k of
                     Some e \<Rightarrow> if now < sat_add (entry_start e) (axis_window limit) then entry_count e else 0
                   | None \<Rightarrow> 0)
      in if axis_max limit \<le> count then Denied else Admitted (sat_add count 1))"

text \<open>The limiter: its lock, the state behind it, its configuration and its capacity.\<close>

record rate_limiter =
  limiter_poisoned :: bool
  limiter_inner :: rate_limit_state
  limiter_config :: rate_limit_config
  limiter_capacity :: nat

definition with_capacity :: "rate_limit_config \<Rightarrow> nat \<Rightarrow> rate_limiter" where
  "with_capacity cfg n = \<lparr> limiter_poisoned = False, limiter_inner = empty_rate_limit_state,
     limiter_config = cfg, limiter_capacity = n \<rparr>"

definition max_rate_limit_entries :: nat where
  "max_rate_limit_entries = 100000"

definition rate_limiter_new :: "rate_limit_config \<Rightarrow> rate_limiter" where
  "rate_limiter_new cfg = with_capacity cfg max_rate_limit_entries"

definition reserve_key ::
  "nat \<Rightarrow> rate_limit_key \<Rightarrow> u64 \<Rightarrow> rate_limit_state \<Rightarrow> bool \<times> rate_limit_state" where
  "reserve_key cap k now st =
     (if hm_contains (rate_entries st) k \<or> length (rate_entries st) < cap then (True, st)
      else
        let st' = (if next_expiry st \<le> now then prune_expired now st else st)
        in (hm_contains (rate_entries st') k \<or> length (rate_entries st') < cap, st'))"

definition untracked :: "rate_limit_state \<Rightarrow> (rate_limit_key \<times> axis_limit \<times> u32) list \<Rightarrow> nat" where
  "untracked st plan = length (filter (\<lambda>(k, _, _). \<not> hm_contains (rate_entries st) k) plan)"

definition reserve_plan ::
  "nat \<Rightarrow> (rate_limit_key \<times> axis_limit \<times> u32) list \<Rightarrow> u64 \<Rightarrow> rate_limit_state \<Rightarrow> bool \<times> rate_limit_state" where
  "reserve_plan cap plan now st =
     (let st' = (if cap < length (rate_entries st) + untracked st plan \<and> next_expiry st \<le> now
                 then prune_expired now st else st)
      in (length (rate_entries st') + untracked st' plan \<le> cap, st'))"

definition commit_axis ::
  "rate_limit_key \<Rightarrow> u64 \<Rightarrow> axis_limit \<Rightarrow> u32 \<Rightarrow> rate_limit_state \<Rightarrow> rate_limit_state" where
  "commit_axis k now limit count st =
     (let e = (case hm_get (rate_entries st) k of
                 Some e \<Rightarrow> e
               | None \<Rightarrow> \<lparr> entry_count = 0, entry_start = now, entry_window = axis_window limit \<rparr>);
          e = (if sat_add (entry_start e) (axis_window limit) \<le> now
               then e \<lparr> entry_count := 0, entry_start := now \<rparr> else e);
          e = e \<lparr> entry_window := axis_window limit, entry_count := count \<rparr>
      in \<lparr> rate_entries = hm_insert k e (rate_entries st),
           next_expiry = min (next_expiry st) (sat_add now (axis_window limit)) \<rparr>)"

definition check_key ::
  "nat \<Rightarrow> rate_limit_key \<Rightarrow> u64 \<Rightarrow> u32 \<Rightarrow> u64 \<Rightarrow> rate_limit_state \<Rightarrow> bool \<times> rate_limit_state" where
  "check_key cap k now m w st =
     (let limit = axis_limit_new m w in
      case axis_state_of (rate_entries st) k now limit of
        Denied \<Rightarrow> (False, st)
      | Admitted count \<Rightarrow>
          (case reserve_key cap k now st of
             (False, st') \<Rightarrow> (False, st')
           | (True, st') \<Rightarrow> (True, commit_axis k now limit count st')))"

text \<open>
  \<^verbatim>\<open>check\<close> asks five optional axes in turn and stops at the first refusal; the axes that
  admitted the request before it keep the count they spent.
\<close>

fun check_keys ::
  "nat \<Rightarrow> u64 \<Rightarrow> u64 \<Rightarrow> (rate_limit_key option \<times> u32) list \<Rightarrow> rate_limit_state \<Rightarrow> bool \<times> rate_limit_state" where
  "check_keys cap now w [] st = (True, st)"
| "check_keys cap now w ((None, m) # ks) st = check_keys cap now w ks st"
| "check_keys cap now w ((Some k, m) # ks) st =
     (case check_key cap k now m w st of
        (False, st') \<Rightarrow> (False, st')
      | (True, st') \<Rightarrow> check_keys cap now w ks st')"

definition on_lock :: "(rate_limit_state \<Rightarrow> bool \<times> rate_limit_state) \<Rightarrow> rate_limiter \<Rightarrow> bool \<times> rate_limiter" where
  "on_lock f l = (if limiter_poisoned l then (False, l)
     else case f (limiter_inner l) of (ok, st) \<Rightarrow> (ok, l \<lparr> limiter_inner := st \<rparr>))"

definition check_axes ::
  "rate_limit_config \<Rightarrow> string option \<Rightarrow> string option \<Rightarrow> string option \<Rightarrow> string option \<Rightarrow> string option
     \<Rightarrow> (rate_limit_key option \<times> u32) list" where
  "check_axes cfg user ip device asn tenant =
     [(map_option User_Key user, max_per_user cfg), (map_option Ip_Key ip, max_per_ip cfg),
      (map_option Device_Key device, max_per_device cfg), (map_option Asn_Key asn, max_per_asn cfg),
      (map_option Tenant_Key tenant, max_per_tenant cfg)]"

definition check ::
  "u64 \<Rightarrow> string option \<Rightarrow> string option \<Rightarrow> string option \<Rightarrow> string option \<Rightarrow> string option
     \<Rightarrow> rate_limiter \<Rightarrow> bool \<times> rate_limiter" where
  "check now user ip device asn tenant l =
     on_lock (check_keys (limiter_capacity l) now (config_window_seconds (limiter_config l))
       (check_axes (limiter_config l) user ip device asn tenant)) l"

text \<open>
  \<^verbatim>\<open>check_user_tenant\<close> decides both axes on the same state, reserves room for both, and only
  then counts on both. The loop over the axes returns at the first denial.
\<close>

fun plan_axes ::
  "(rate_limit_key, window_entry) hash_map \<Rightarrow> u64 \<Rightarrow> (rate_limit_key \<times> axis_limit) list
     \<Rightarrow> (rate_limit_key \<times> axis_limit \<times> u32) list option" where
  "plan_axes m now [] = Some []"
| "plan_axes m now ((k, limit) # axes) =
     (case axis_state_of m k now limit of
        Denied \<Rightarrow> None
      | Admitted count \<Rightarrow> map_option ((#) (k, limit, count)) (plan_axes m now axes))"

definition commit_plan ::
  "u64 \<Rightarrow> (rate_limit_key \<times> axis_limit \<times> u32) list \<Rightarrow> rate_limit_state \<Rightarrow> rate_limit_state" where
  "commit_plan now plan st = fold (\<lambda>(k, limit, count). commit_axis k now limit count) plan st"

definition user_tenant_axes ::
  "string option \<Rightarrow> axis_limit \<Rightarrow> string option \<Rightarrow> axis_limit \<Rightarrow> (rate_limit_key \<times> axis_limit) list" where
  "user_tenant_axes user user_limit tenant tenant_limit =
     (case user of None \<Rightarrow> [] | Some u \<Rightarrow> [(User_Key u, user_limit)]) @
     (case tenant of None \<Rightarrow> [] | Some t \<Rightarrow> [(Tenant_Key t, tenant_limit)])"

definition check_together ::
  "nat \<Rightarrow> u64 \<Rightarrow> (rate_limit_key \<times> axis_limit) list \<Rightarrow> rate_limit_state \<Rightarrow> bool \<times> rate_limit_state" where
  "check_together cap now axes st =
     (case plan_axes (rate_entries st) now axes of
        None \<Rightarrow> (False, st)
      | Some plan \<Rightarrow>
          (case reserve_plan cap plan now st of
             (False, st') \<Rightarrow> (False, st')
           | (True, st') \<Rightarrow> (True, commit_plan now plan st')))"

definition check_user_tenant ::
  "u64 \<Rightarrow> string option \<Rightarrow> axis_limit \<Rightarrow> string option \<Rightarrow> axis_limit \<Rightarrow> rate_limiter \<Rightarrow> bool \<times> rate_limiter" where
  "check_user_tenant now user user_limit tenant tenant_limit l =
     on_lock (check_together (limiter_capacity l) now (user_tenant_axes user user_limit tenant tenant_limit)) l"

text \<open>Giving an admission back, and dropping counters.\<close>

definition release_state :: "u64 \<Rightarrow> rate_limit_key \<Rightarrow> rate_limit_state \<Rightarrow> rate_limit_state" where
  "release_state now k st =
     (case hm_get (rate_entries st) k of
        None \<Rightarrow> st
      | Some e \<Rightarrow>
          if entry_expiry e \<le> now then st
          else if entry_count e \<le> 1 then st \<lparr> rate_entries := hm_remove k (rate_entries st) \<rparr>
          else st \<lparr> rate_entries := hm_modify k (\<lambda>e. e \<lparr> entry_count := entry_count e - 1 \<rparr>) (rate_entries st) \<rparr>)"

definition change_state :: "(rate_limit_state \<Rightarrow> rate_limit_state) \<Rightarrow> rate_limiter \<Rightarrow> rate_limiter" where
  "change_state f l = (if limiter_poisoned l then l else l \<lparr> limiter_inner := f (limiter_inner l) \<rparr>)"

definition release_axis :: "u64 \<Rightarrow> rate_limit_key \<Rightarrow> rate_limiter \<Rightarrow> rate_limiter" where
  "release_axis now k = change_state (release_state now k)"

definition release_user :: "u64 \<Rightarrow> string \<Rightarrow> rate_limiter \<Rightarrow> rate_limiter" where
  "release_user now user_id = release_axis now (User_Key user_id)"

definition release_tenant :: "u64 \<Rightarrow> string \<Rightarrow> rate_limiter \<Rightarrow> rate_limiter" where
  "release_tenant now tenant = release_axis now (Tenant_Key tenant)"

definition reset_user :: "string \<Rightarrow> rate_limiter \<Rightarrow> rate_limiter" where
  "reset_user user_id =
     change_state (\<lambda>st. st \<lparr> rate_entries := hm_remove (User_Key user_id) (rate_entries st) \<rparr>)"

definition clear_matching :: "(rate_limit_key \<Rightarrow> bool) \<Rightarrow> rate_limiter \<Rightarrow> rate_limiter" where
  "clear_matching p =
     change_state (\<lambda>st. st \<lparr> rate_entries := hm_retain (\<lambda>k _. \<not> p k) (rate_entries st) \<rparr>)"

section \<open>The failure budget\<close>

record budget_entry =
  spent_count :: u32
  spent_start :: u64

record failure_budget =
  budget_poisoned :: bool
  budget_entries :: "(string, budget_entry) hash_map"

definition max_budget_entries :: nat where
  "max_budget_entries = 1024"

definition failure_budget_new :: failure_budget where
  "failure_budget_new = \<lparr> budget_poisoned = False, budget_entries = [] \<rparr>"

definition exhausted :: "u64 \<Rightarrow> string \<Rightarrow> u32 \<Rightarrow> u64 \<Rightarrow> failure_budget \<Rightarrow> bool" where
  "exhausted now k limit w b =
     (if budget_poisoned b then True
      else case hm_get (budget_entries b) k of
             Some e \<Rightarrow> if now < sat_add (spent_start e) w then limit \<le> spent_count e else False
           | None \<Rightarrow> False)"

definition evict_oldest :: "(string, budget_entry) hash_map \<Rightarrow> (string, budget_entry) hash_map" where
  "evict_oldest m =
     (let excess = length m - max_budget_entries in
      if excess = 0 then m
      else fold hm_remove
             (map snd (take excess (sort_key fst (map (\<lambda>(k, e). (spent_start e, k)) m)))) m)"

definition record_failure ::
  "u64 \<Rightarrow> string \<Rightarrow> u32 \<Rightarrow> u64 \<Rightarrow> failure_budget \<Rightarrow> bool \<times> failure_budget" where
  "record_failure now k limit w b =
     (if budget_poisoned b then (True, b)
      else
        let e = (case hm_get (budget_entries b) k of
                   Some e \<Rightarrow> e | None \<Rightarrow> \<lparr> spent_count = 0, spent_start = now \<rparr>);
            e = (if sat_add (spent_start e) w \<le> now
                 then e \<lparr> spent_count := 0, spent_start := now \<rparr> else e);
            e = e \<lparr> spent_count := sat_add (spent_count e) 1 \<rparr>
        in (limit \<le> spent_count e,
            b \<lparr> budget_entries := evict_oldest (hm_insert k e (budget_entries b)) \<rparr>))"

section \<open>The password and TOTP limiters\<close>

text \<open>
  The three numbers of the realm's password policy (\<^verbatim>\<open>PasswordPolicy\<close> of
  \<^verbatim>\<open>qid-session/src/auth.rs\<close>) the limiter reads, and those of the realm's TOTP policy.
\<close>

record password_limits =
  max_failed_attempts :: u32
  max_failed_attempts_per_realm :: u32
  lockout_duration_seconds :: u64

record totp_limits =
  totp_max_failed_attempts :: u32
  failed_attempt_window_seconds :: u64

definition user_key :: "string \<Rightarrow> string \<Rightarrow> string" where
  "user_key realm email = decimal (length realm) @ '':'' @ realm @ '':'' @ email"

definition password_limiter_new :: rate_limiter where
  "password_limiter_new = rate_limiter_new default_rate_limit_config"

definition password_admit ::
  "u64 \<Rightarrow> string \<Rightarrow> string \<Rightarrow> password_limits \<Rightarrow> rate_limiter \<Rightarrow> bool \<times> rate_limiter" where
  "password_admit now realm email policy l =
     check_user_tenant now
       (Some (user_key realm email))
       (axis_limit_new (max_failed_attempts policy) (lockout_duration_seconds policy))
       (Some realm)
       (axis_limit_new (max_failed_attempts_per_realm policy) (lockout_duration_seconds policy)) l"

text \<open>A success gives both admissions back; each release reads the clock.\<close>

definition password_succeeded ::
  "u64 \<Rightarrow> u64 \<Rightarrow> string \<Rightarrow> string \<Rightarrow> rate_limiter \<Rightarrow> rate_limiter" where
  "password_succeeded now1 now2 realm email l =
     release_tenant now2 realm (release_user now1 (user_key realm email) l)"

definition account_key :: "string \<Rightarrow> string \<Rightarrow> string" where
  "account_key realm user_id = decimal (length realm) @ '':'' @ realm @ '':'' @ user_id"

definition totp_admit ::
  "u64 \<Rightarrow> string \<Rightarrow> string \<Rightarrow> totp_limits \<Rightarrow> rate_limiter \<Rightarrow> bool \<times> rate_limiter" where
  "totp_admit now realm user_id policy l =
     (let w = failed_attempt_window_seconds policy in
      check_user_tenant now
        (Some (account_key realm user_id)) (axis_limit_new (totp_max_failed_attempts policy) w)
        None (axis_limit_new (- 1) w) l)"

definition totp_succeeded :: "u64 \<Rightarrow> string \<Rightarrow> string \<Rightarrow> rate_limiter \<Rightarrow> rate_limiter" where
  "totp_succeeded now realm user_id l = release_user now (account_key realm user_id) l"

section \<open>Maps and counters\<close>

lemma length_hm_insert: "length (hm_insert k v m) = (if hm_contains m k then length m else Suc (length m))"
  by (induction m) (auto simp: hm_contains_def)

lemma length_hm_retain [simp]: "length (hm_retain p m) \<le> length m"
  by (simp add: hm_retain_def)

lemma hm_contains_insert [simp]: "hm_contains (hm_insert k v m) k' \<longleftrightarrow> k' = k \<or> hm_contains m k'"
  by (simp add: hm_contains_def)

lemma fold_min_le: "a \<le> b \<or> b \<in> set ys \<Longrightarrow> fold min ys a \<le> b" for b :: "'a::linorder"
proof (induction ys arbitrary: a)
  case (Cons y ys)
  have "min y a \<le> b \<or> b \<in> set ys" using Cons.prems by (auto simp: min_le_iff_disj)
  thus ?case using Cons.IH by simp
qed simp

lemma min_or_max_le: "x \<in> set xs \<Longrightarrow> min_or_max xs \<le> x"
  unfolding min_or_max_def by (rule fold_min_le) simp

lemma opt_filter_simps [simp]:
  "opt_filter p None = None" "opt_filter p (Some a) = (if p a then Some a else None)"
  by (simp_all add: opt_filter_def)

lemma sat_add_zero_one [simp]: "sat_add 0 1 = (1 :: u32)"
  by (simp add: sat_add_def)

lemma unat_sat_add_one: "c < d \<Longrightarrow> unat (sat_add c 1) = Suc (unat c)" for c d :: "'a::len word"
proof -
  assume "c < d"
  hence "Suc (unat c) < 2 ^ LENGTH('a)"
    using unat_bound [of d] by (simp only: word_less_nat_alt)
  thus ?thesis by (simp add: unat_sat_add)
qed

section \<open>What one operation does to one counter\<close>

abbreviation counter :: "rate_limit_state \<Rightarrow> rate_limit_key \<Rightarrow> window_entry option" where
  "counter st k \<equiv> hm_get (rate_entries st) k"

text \<open>The entry an admission leaves: one more in the running window, or the first of a new one.\<close>

definition admitted_entry :: "axis_limit \<Rightarrow> u64 \<Rightarrow> window_entry option \<Rightarrow> window_entry" where
  "admitted_entry limit now v =
     (case opt_filter (\<lambda>e. now < entry_expiry e) v of
        Some e \<Rightarrow> e \<lparr> entry_count := sat_add (entry_count e) 1 \<rparr>
      | None \<Rightarrow> \<lparr> entry_count = 1, entry_start = now, entry_window = axis_window limit \<rparr>)"

definition has_room :: "axis_limit \<Rightarrow> u64 \<Rightarrow> window_entry option \<Rightarrow> bool" where
  "has_room limit now v =
     (case opt_filter (\<lambda>e. now < entry_expiry e) v of
        Some e \<Rightarrow> entry_count e < axis_max limit
      | None \<Rightarrow> 0 < axis_max limit)"

text \<open>
  The state invariant, relative to the limit every key is used with: a counter was counted in
  its key's window, it never exceeds the key's limit, and the prune threshold is at most the
  expiry of every counter.
\<close>

definition counters_ok :: "(rate_limit_key \<Rightarrow> axis_limit) \<Rightarrow> rate_limit_state \<Rightarrow> bool" where
  "counters_ok limits st \<longleftrightarrow> hm_wf (rate_entries st) \<and>
     (\<forall>k e. counter st k = Some e \<longrightarrow>
        entry_window e = axis_window (limits k) \<and> entry_count e \<le> axis_max (limits k) \<and>
        next_expiry st \<le> entry_expiry e)"

lemma counters_okD:
  assumes "counters_ok limits st" "counter st k = Some e"
  shows "entry_window e = axis_window (limits k)" "entry_count e \<le> axis_max (limits k)"
    "next_expiry st \<le> entry_expiry e"
  using assms by (auto simp: counters_ok_def)

lemma counters_ok_empty [simp]: "counters_ok limits empty_rate_limit_state"
  by (simp add: counters_ok_def empty_rate_limit_state_def)

definition axes_ok :: "(rate_limit_key \<Rightarrow> axis_limit) \<Rightarrow> (rate_limit_key \<times> axis_limit) list \<Rightarrow> bool" where
  "axes_ok limits axes \<longleftrightarrow> distinct (map fst axes) \<and> (\<forall>(k, limit)\<in>set axes. limit = limits k)"

lemma counter_prune [simp]:
  "hm_wf (rate_entries st) \<Longrightarrow>
     counter (prune_expired now st) k = opt_filter (\<lambda>e. now < entry_expiry e) (counter st k)"
  by (simp add: prune_expired_def Let_def map_of_hm_retain opt_filter_def hm_wf_def split: option.splits)

lemma counters_ok_prune: "counters_ok limits st \<Longrightarrow> counters_ok limits (prune_expired now st)"
proof -
  assume ok: "counters_ok limits st"
  let ?st = "prune_expired now st"
  have wf: "hm_wf (rate_entries st)" using ok by (simp add: counters_ok_def)
  have wf': "hm_wf (rate_entries ?st)" using wf by (simp add: prune_expired_def Let_def)
  have "next_expiry ?st \<le> entry_expiry e" if "counter ?st k = Some e" for k e
  proof -
    have "e \<in> set (hm_values (rate_entries ?st))" using hm_values_iff [OF wf'] that by blast
    hence "min_or_max (map entry_expiry (hm_values (rate_entries ?st))) \<le> entry_expiry e"
      by (intro min_or_max_le) simp
    thus ?thesis by (simp add: prune_expired_def Let_def)
  qed
  thus ?thesis using ok wf wf' by (auto simp: counters_ok_def)
qed

lemma length_prune [simp]: "length (rate_entries (prune_expired now st)) \<le> length (rate_entries st)"
  by (simp add: prune_expired_def Let_def)

text \<open>
  Counting on an axis that admitted: with the key's own window, the decision taken before
  the prune is the decision on the state after it, and the entry is the one above.
\<close>

lemma axis_state_admitted:
  assumes "v = counter st k" "\<And>e. v = Some e \<Longrightarrow> entry_window e = axis_window limit"
  shows "axis_state_of (rate_entries st) k now limit = Admitted c \<longleftrightarrow>
     c = entry_count (admitted_entry limit now v) \<and> has_room limit now v"
proof (cases v)
  case None
  thus ?thesis using assms(1)
    by (auto simp: axis_state_of_def admitted_entry_def has_room_def opt_filter_def Let_def word_gt_0 not_le)
next
  case (Some e)
  moreover have "entry_expiry e = sat_add (entry_start e) (axis_window limit)"
    using assms(2) Some by (simp add: entry_expiry_def)
  ultimately show ?thesis using assms(1)
    by (auto simp: axis_state_of_def admitted_entry_def has_room_def opt_filter_def Let_def word_gt_0 not_le)
qed

lemma counter_commit:
  "counter (commit_axis k now limit c st) k' =
     (if k' = k then Some (\<lparr> entry_count = c,
          entry_start = (case opt_filter (\<lambda>e. now < sat_add (entry_start e) (axis_window limit)) (counter st k) of
                           Some e \<Rightarrow> entry_start e | None \<Rightarrow> now),
          entry_window = axis_window limit \<rparr>)
      else counter st k')"
proof (cases "counter st k")
  case None
  thus ?thesis by (simp add: commit_axis_def Let_def)
next
  case (Some e)
  thus ?thesis by (cases "now < sat_add (entry_start e) (axis_window limit)") (simp_all add: commit_axis_def Let_def not_less)
qed

lemma counters_ok_commit:
  assumes ok: "counters_ok limits st" and c: "c \<le> axis_max (limits k)"
  shows "counters_ok limits (commit_axis k now (limits k) c st)"
proof -
  let ?st = "commit_axis k now (limits k) c st"
  have wf: "hm_wf (rate_entries ?st)"
    using ok by (simp add: counters_ok_def commit_axis_def Let_def)
  have upd: "next_expiry ?st = min (next_expiry st) (sat_add now (axis_window (limits k)))"
    by (simp add: commit_axis_def Let_def)
  have "entry_window e = axis_window (limits k') \<and> entry_count e \<le> axis_max (limits k') \<and>
      next_expiry ?st \<le> entry_expiry e" if e: "counter ?st k' = Some e" for k' e
  proof (cases "k' = k")
    case False
    thus ?thesis using e ok by (auto simp: counter_commit upd counters_ok_def min.coboundedI1)
  next
    case True
    show ?thesis
    proof (cases "opt_filter (\<lambda>e. now < sat_add (entry_start e) (axis_window (limits k))) (counter st k)")
      case None
      thus ?thesis using e True c by (auto simp: counter_commit upd entry_expiry_def)
    next
      case (Some e')
      thus ?thesis using e True c counters_okD [OF ok, of k e']
        by (auto simp: counter_commit upd entry_expiry_def min.coboundedI1)
    qed
  qed
  thus ?thesis using wf by (simp add: counters_ok_def)
qed

lemma plan_axes_Some:
  "plan_axes m now axes = Some plan \<Longrightarrow>
     map (\<lambda>(k, limit, c). (k, limit)) plan = axes \<and>
     (\<forall>(k, limit, c)\<in>set plan. axis_state_of m k now limit = Admitted c)"
proof (induction m now axes arbitrary: plan rule: plan_axes.induct)
  case (2 m now k limit axes)
  then obtain c rest where c: "axis_state_of m k now limit = Admitted c"
    and rest: "plan_axes m now axes = Some rest" "plan = (k, limit, c) # rest"
    by (auto split: axis_state.splits)
  show ?case using 2(1) [OF c rest(1)] c rest(2) by simp
qed simp

lemma reserve_plan_state: "reserve_plan cap plan now st = (ok, st') \<Longrightarrow> st' = st \<or> st' = prune_expired now st"
  by (auto simp: reserve_plan_def Let_def split: if_splits)

lemma commit_plan_simps [simp]:
  "commit_plan now [] st = st"
  "commit_plan now ((k, limit, c) # plan) st = commit_plan now plan (commit_axis k now limit c st)"
  by (simp_all add: commit_plan_def)

lemma counter_commit_plan_other: "k \<notin> fst ` set plan \<Longrightarrow> counter (commit_plan now plan st) k = counter st k"
  by (induction plan arbitrary: st) (auto simp: counter_commit)

lemma counter_commit_plan:
  "distinct (map fst plan) \<Longrightarrow> (k, limit, c) \<in> set plan \<Longrightarrow>
     counter (commit_plan now plan st) k = counter (commit_axis k now limit c st) k"
proof (induction plan arbitrary: st)
  case (Cons p plan)
  obtain k' limit' c' where p: "p = (k', limit', c')" by (cases p)
  show ?case
  proof (cases "k = k'")
    case True
    have "k \<notin> fst ` set plan" using Cons.prems(1) p True by simp
    moreover from this have "(k, limit, c) = p" using Cons.prems(2) p True by force
    ultimately show ?thesis using p by (simp add: counter_commit_plan_other)
  next
    case False
    thus ?thesis using Cons p by (simp add: counter_commit)
  qed
qed simp

lemma counters_ok_commit_plan:
  "counters_ok limits st \<Longrightarrow> \<forall>(k, limit, c)\<in>set plan. limit = limits k \<and> c \<le> axis_max limit \<Longrightarrow>
     counters_ok limits (commit_plan now plan st)"
  by (induction plan arbitrary: st) (auto simp: counters_ok_commit)

text \<open>
  The effect of \<^verbatim>\<open>check_user_tenant\<close> on one counter: an admitted request counts once on each
  of its axes, and every other counter stays, except that an expired one may be pruned.
\<close>

lemma check_together_cases:
  assumes ok: "counters_ok limits st" and axes: "axes_ok limits axes"
    and chk: "check_together cap now axes st = (res, st')"
  obtains (unchanged) "\<not> res" "st' = st"
  | (pruned) "\<not> res" "st' = prune_expired now st"
  | (counted) st1 plan where "res" "st1 = st \<or> st1 = prune_expired now st"
      "st' = commit_plan now plan st1" "map fst plan = map fst axes"
      "\<forall>(k, limit, c)\<in>set plan. limit = limits k \<and> axis_state_of (rate_entries st) k now limit = Admitted c"
      "length (rate_entries st1) + untracked st1 plan \<le> cap"
proof (cases "plan_axes (rate_entries st) now axes")
  case None
  thus ?thesis using chk unchanged by (simp add: check_together_def)
next
  case (Some plan)
  obtain r st1 where r: "reserve_plan cap plan now st = (r, st1)" by fastforce
  note st1 = reserve_plan_state [OF r]
  note plan = plan_axes_Some [OF Some]
  have keys: "map fst plan = map fst axes" using plan by (auto simp: comp_def case_prod_unfold)
  have lims: "\<forall>(k, limit, c)\<in>set plan. limit = limits k \<and> axis_state_of (rate_entries st) k now limit = Admitted c"
    using plan axes by (fastforce simp: axes_ok_def)
  show ?thesis
  proof (cases r)
    case True
    have "length (rate_entries st1) + untracked st1 plan \<le> cap"
      using r True by (auto simp: reserve_plan_def Let_def split: if_splits)
    thus ?thesis using chk Some r True st1 keys lims by (intro counted) (auto simp: check_together_def)
  next
    case False
    hence "\<not> res" "st' = st1" using chk Some r by (auto simp: check_together_def)
    thus ?thesis using st1 unchanged pruned by blast
  qed
qed

lemma admitted_count:
  assumes ok: "counters_ok limits st"
    and adm: "axis_state_of (rate_entries st) k now (limits k) = Admitted c"
  shows "c = entry_count (admitted_entry (limits k) now (counter st k))"
    and "has_room (limits k) now (counter st k)" and "c \<le> axis_max (limits k)"
proof -
  have *: "c = entry_count (admitted_entry (limits k) now (counter st k)) \<and> has_room (limits k) now (counter st k)"
    using adm by (subst (asm) axis_state_admitted [OF refl]) (auto dest: counters_okD(1) [OF ok])
  thus "c = entry_count (admitted_entry (limits k) now (counter st k))"
    and "has_room (limits k) now (counter st k)" by simp_all
  have "sat_add a 1 \<le> b" if "a < b" for a b :: u32
    using unat_sat_add_one [OF that] that by (simp add: word_le_nat_alt word_less_nat_alt)
  thus "c \<le> axis_max (limits k)" using *
    by (auto simp: admitted_entry_def has_room_def word_le_nat_alt word_less_nat_alt split: option.splits)
qed

lemma counter_commit_admitted:
  assumes ok: "counters_ok limits st" and st1: "st1 = st \<or> st1 = prune_expired now st"
    and adm: "axis_state_of (rate_entries st) k now (limits k) = Admitted c"
  shows "counter (commit_axis k now (limits k) c st1) k = Some (admitted_entry (limits k) now (counter st k))"
proof -
  have wf: "hm_wf (rate_entries st)" using ok by (simp add: counters_ok_def)
  have v: "opt_filter (\<lambda>e. now < entry_expiry e) (counter st1 k) = opt_filter (\<lambda>e. now < entry_expiry e) (counter st k)"
    using st1 wf by (cases "counter st k") auto
  have "opt_filter (\<lambda>e. now < sat_add (entry_start e) (axis_window (limits k))) (counter st1 k) =
      opt_filter (\<lambda>e. now < entry_expiry e) (counter st1 k)"
    using st1 wf counters_okD(1) [OF ok, of k] by (cases "counter st k") (auto simp: entry_expiry_def)
  moreover have "entry_window (admitted_entry (limits k) now (counter st k)) = axis_window (limits k)"
    using counters_okD(1) [OF ok, of k] by (auto simp: admitted_entry_def split: option.splits)
  ultimately show ?thesis using v admitted_count(1) [OF ok adm]
    by (auto simp: counter_commit admitted_entry_def split: option.splits)
qed

lemma counters_ok_check_together:
  assumes ok: "counters_ok limits st" and axes: "axes_ok limits axes"
    and chk: "check_together cap now axes st = (res, st')"
  shows "counters_ok limits st'"
  using ok axes chk
proof (cases rule: check_together_cases)
  case (counted st1 plan)
  have "counters_ok limits st1" using counted(2) ok counters_ok_prune by blast
  moreover have "\<forall>(k, limit, c)\<in>set plan. limit = limits k \<and> c \<le> axis_max limit"
    using counted(5) admitted_count(3) [OF ok] by fastforce
  ultimately show ?thesis using counted(3) counters_ok_commit_plan by blast
qed (use ok counters_ok_prune in simp_all)

lemma counter_check_together:
  assumes ok: "counters_ok limits st" and axes: "axes_ok limits axes"
    and chk: "check_together cap now axes st = (res, st')"
  shows "if res \<and> k \<in> fst ` set axes
    then counter st' k = Some (admitted_entry (limits k) now (counter st k)) \<and> has_room (limits k) now (counter st k)
    else counter st' k = counter st k \<or> counter st' k = opt_filter (\<lambda>e. now < entry_expiry e) (counter st k)"
  using ok axes chk
proof (cases rule: check_together_cases)
  case (counted st1 plan)
  have wf: "hm_wf (rate_entries st)" using ok by (simp add: counters_ok_def)
  have set: "fst ` set plan = fst ` set axes" using counted(4) by (metis set_map)
  have dist: "distinct (map fst plan)" using counted(4) axes by (simp add: axes_ok_def)
  show ?thesis
  proof (cases "k \<in> fst ` set axes")
    case True
    then obtain limit c where c: "(k, limit, c) \<in> set plan" using set by fastforce
    hence "limit = limits k" "axis_state_of (rate_entries st) k now (limits k) = Admitted c"
      using counted(5) by fastforce+
    thus ?thesis using counted(1,3) True counter_commit_plan [OF dist c]
        counter_commit_admitted [OF ok counted(2)] admitted_count(2) [OF ok] by simp
  next
    case False
    hence "counter st' k = counter st1 k" using counted(3) set counter_commit_plan_other by metis
    thus ?thesis using counted(2) wf False by auto
  qed
next
  case pruned
  thus ?thesis using ok by (auto simp: counters_ok_def)
qed simp

lemma untracked_commit:
  "untracked (commit_axis k now limit c st) plan \<le> untracked st plan"
  by (induction plan) (auto simp: untracked_def commit_axis_def Let_def)

lemma length_commit_plan:
  "length (rate_entries (commit_plan now plan st)) \<le> length (rate_entries st) + untracked st plan"
proof (induction plan arbitrary: st)
  case (Cons p plan)
  obtain k limit c where p: "p = (k, limit, c)" by (cases p)
  let ?st = "commit_axis k now limit c st"
  have "length (rate_entries ?st) + untracked ?st plan \<le> length (rate_entries st) + untracked st (p # plan)"
    using untracked_commit [of k now limit c st plan] p
    by (simp add: untracked_def commit_axis_def Let_def length_hm_insert)
  thus ?case using Cons [of ?st] p by simp
qed simp

lemma length_check_together:
  assumes "check_together cap now axes st = (res, st')" "length (rate_entries st) \<le> cap"
  shows "length (rate_entries st') \<le> cap"
proof (cases "plan_axes (rate_entries st) now axes")
  case None
  thus ?thesis using assms by (simp add: check_together_def)
next
  case (Some plan)
  obtain r st1 where r: "reserve_plan cap plan now st = (r, st1)" by fastforce
  have st1: "length (rate_entries st1) \<le> cap"
    using reserve_plan_state [OF r] assms(2) le_trans length_prune by blast
  have "r \<Longrightarrow> length (rate_entries st1) + untracked st1 plan \<le> cap"
    using r by (auto simp: reserve_plan_def Let_def split: if_splits)
  hence "r \<Longrightarrow> length (rate_entries (commit_plan now plan st1)) \<le> cap"
    using length_commit_plan le_trans by blast
  thus ?thesis using assms(1) Some r st1 by (cases r) (auto simp: check_together_def)
qed

lemma counter_release:
  "counter (release_state now k st) k' =
     (if k' = k then
        (case counter st k of
           None \<Rightarrow> None
         | Some e \<Rightarrow> if entry_expiry e \<le> now then Some e
                     else if entry_count e \<le> 1 then None
                     else Some (e \<lparr> entry_count := entry_count e - 1 \<rparr>))
      else counter st k')"
  by (cases "counter st k") (simp_all add: release_state_def)

lemma counters_ok_release:
  assumes ok: "counters_ok limits st"
  shows "counters_ok limits (release_state now k st)"
proof -
  have "hm_wf (rate_entries (release_state now k st))"
    using ok by (auto simp: release_state_def counters_ok_def split: option.splits)
  moreover have "next_expiry (release_state now k st) = next_expiry st"
    by (simp add: release_state_def split: option.splits)
  moreover have "entry_window e = axis_window (limits k') \<and> entry_count e \<le> axis_max (limits k') \<and>
      next_expiry st \<le> entry_expiry e" if e: "counter (release_state now k st) k' = Some e" for k' e
  proof (cases "counter st k' = Some e")
    case True
    thus ?thesis using counters_okD [OF ok True] by simp
  next
    case False
    then obtain e' where e': "counter st k' = Some e'" "e = e' \<lparr> entry_count := entry_count e' - 1 \<rparr>" "\<not> entry_count e' \<le> 1"
      using e by (auto simp: counter_release split: if_splits option.splits)
    have "entry_count e' - 1 \<le> entry_count e'"
      using e'(3) by (meson linear measure_unat nless_le order.strict_implies_order order_trans word_le_nat_alt word_sub_le)
    thus ?thesis using counters_okD [OF ok e'(1)] e'(2) by (simp add: entry_expiry_def)
  qed
  ultimately show ?thesis by (simp add: counters_ok_def)
qed

section \<open>How much one window can admit\<close>

text \<open>
  The most a key may have spent since \<^verbatim>\<open>s\<close>: the count of a window that began before \<^verbatim>\<open>s\<close>,
  or a full limit of such a window and the count of the one that began since. Inside a span
  as long as the window an admission adds one to it and a release takes at most one off.
\<close>

definition spent_since :: "u64 \<Rightarrow> u32 \<Rightarrow> window_entry option \<Rightarrow> nat" where
  "spent_since s m v =
     (case v of
        None \<Rightarrow> unat m
      | Some e \<Rightarrow> if s \<le> entry_start e then unat m + unat (entry_count e) else unat (entry_count e))"

definition in_span :: "u64 \<Rightarrow> u64 \<Rightarrow> u64 \<Rightarrow> bool" where
  "in_span s w now \<longleftrightarrow> s \<le> now \<and> now < sat_add s w"

lemma in_span_running:
  "in_span s (entry_window e) now \<Longrightarrow> s \<le> entry_start e \<Longrightarrow> now < entry_expiry e"
  using sat_add_mono_left [of s "entry_start e" "entry_window e"]
  unfolding in_span_def entry_expiry_def by (blast intro: less_le_trans)

lemma spent_since_le:
  "counters_ok limits st \<Longrightarrow> spent_since s (axis_max (limits k)) (counter st k) \<le> 2 * unat (axis_max (limits k))"
  using counters_okD(2) [of limits st k]
  by (fastforce simp: spent_since_def word_le_nat_alt split: option.splits)

lemma spent_since_prune:
  assumes ok: "counters_ok limits st" and span: "in_span s (axis_window (limits k)) now"
  shows "spent_since s (axis_max (limits k)) (counter st k) \<le>
    spent_since s (axis_max (limits k)) (opt_filter (\<lambda>e. now < entry_expiry e) (counter st k))"
proof (cases "counter st k")
  case (Some e)
  note e = counters_okD [OF ok Some]
  show ?thesis using Some e(2) in_span_running [of s e now] span e(1)
    by (auto simp: spent_since_def word_le_nat_alt)
qed simp

lemma spent_since_admit:
  assumes ok: "counters_ok limits st" and span: "in_span s (axis_window (limits k)) now"
    and room: "has_room (limits k) now (counter st k)"
  shows "Suc (spent_since s (axis_max (limits k)) (counter st k)) \<le>
    spent_since s (axis_max (limits k)) (Some (admitted_entry (limits k) now (counter st k)))"
proof (cases "counter st k")
  case None
  thus ?thesis using span by (simp add: spent_since_def admitted_entry_def in_span_def)
next
  case (Some e)
  note e = counters_okD [OF ok Some]
  show ?thesis
  proof (cases "now < entry_expiry e")
    case True
    hence "unat (sat_add (entry_count e) 1) = Suc (unat (entry_count e))"
      using room Some unat_sat_add_one by (simp add: has_room_def)
    thus ?thesis using Some True by (simp add: spent_since_def admitted_entry_def)
  next
    case False
    hence "\<not> s \<le> entry_start e" using in_span_running [of s e now] span e(1) by auto
    thus ?thesis using Some False e(2) span
      by (simp add: spent_since_def admitted_entry_def in_span_def word_le_nat_alt)
  qed
qed

lemma spent_since_release:
  assumes ok: "counters_ok limits st"
  shows "spent_since s (axis_max (limits k)) (counter st k) \<le>
    spent_since s (axis_max (limits k)) (counter (release_state now k' st) k) + (if k' = k then 1 else 0)"
proof (cases "counter st k")
  case (Some e)
  have "unat (entry_count e) \<le> 1" if "entry_count e \<le> 1"
    using that by (simp add: word_le_nat_alt)
  moreover have "unat (entry_count e - 1) = unat (entry_count e) - 1" if "\<not> entry_count e \<le> 1"
    using that by (simp add: unat_sub word_le_nat_alt)
  ultimately show ?thesis using Some by (auto simp: counter_release spent_since_def)
qed (simp add: counter_release)

lemma spent_since_check:
  assumes ok: "counters_ok limits st" and axes: "axes_ok limits axes"
    and chk: "check_together cap now axes st = (res, st')" and span: "in_span s (axis_window (limits k)) now"
  shows "spent_since s (axis_max (limits k)) (counter st k) + (if res \<and> k \<in> fst ` set axes then 1 else 0)
    \<le> spent_since s (axis_max (limits k)) (counter st' k)"
  using counter_check_together [OF ok axes chk, of k] spent_since_admit [OF ok span] spent_since_prune [OF ok span]
  by (auto split: if_splits)

section \<open>Capacity\<close>

text \<open>Every operation of the limiter.\<close>

inductive limiter_step :: "rate_limiter \<Rightarrow> rate_limiter \<Rightarrow> bool" where
  step_check: "check now user ip device asn tenant l = (ok, l') \<Longrightarrow> limiter_step l l'"
| step_check_user_tenant: "check_user_tenant now user ulimit tenant tlimit l = (ok, l') \<Longrightarrow> limiter_step l l'"
| step_release_user: "limiter_step l (release_user now u l)"
| step_release_tenant: "limiter_step l (release_tenant now t l)"
| step_reset_user: "limiter_step l (reset_user u l)"
| step_clear_matching: "limiter_step l (clear_matching p l)"

definition within_capacity :: "rate_limiter \<Rightarrow> bool" where
  "within_capacity l \<longleftrightarrow> length (rate_entries (limiter_inner l)) \<le> limiter_capacity l"

lemma length_check_key:
  assumes "check_key cap k now m w st = (res, st')" "length (rate_entries st) \<le> cap"
  shows "length (rate_entries st') \<le> cap"
proof -
  obtain r st1 where r: "reserve_key cap k now st = (r, st1)" by fastforce
  have "length (rate_entries st1) \<le> cap"
    using r assms(2) length_prune [of now st] le_trans
    by (auto simp: reserve_key_def Let_def split: if_splits)
  moreover have "r \<Longrightarrow> hm_contains (rate_entries st1) k \<or> length (rate_entries st1) < cap"
    using r by (auto simp: reserve_key_def Let_def split: if_splits)
  ultimately show ?thesis using assms r
    by (auto simp: check_key_def Let_def commit_axis_def length_hm_insert split: axis_state.splits bool.splits)
qed

lemma length_check_keys:
  "check_keys cap now w ks st = (res, st') \<Longrightarrow> length (rate_entries st) \<le> cap \<Longrightarrow> length (rate_entries st') \<le> cap"
proof (induction cap now w ks st arbitrary: res st' rule: check_keys.induct)
  case (3 cap now w k m ks st)
  obtain r st1 where r: "check_key cap k now m w st = (r, st1)" by fastforce
  show ?case using 3 r length_check_key [OF r] by (cases r) auto
qed auto

lemma within_capacity_on_lock:
  assumes "on_lock f l = (ok, l')" "within_capacity l"
    and "\<And>st r st'. f st = (r, st') \<Longrightarrow> length (rate_entries st) \<le> limiter_capacity l \<Longrightarrow>
      length (rate_entries st') \<le> limiter_capacity l"
  shows "within_capacity l' \<and> limiter_capacity l' = limiter_capacity l"
  using assms by (auto simp: on_lock_def within_capacity_def split: if_splits prod.splits)

lemma within_capacity_change:
  assumes "within_capacity l" "\<And>st. length (rate_entries (f st)) \<le> length (rate_entries st)"
  shows "within_capacity (change_state f l) \<and> limiter_capacity (change_state f l) = limiter_capacity l"
  using assms(1) le_trans [OF assms(2) [of "limiter_inner l"]]
  by (simp add: change_state_def within_capacity_def)

lemma length_release: "length (rate_entries (release_state now k st)) \<le> length (rate_entries st)"
  by (cases "counter st k")
     (simp_all add: release_state_def hm_modify_def length_hm_insert hm_contains_def length_delete_le)

lemma limiter_step_capacity:
  "limiter_step l l' \<Longrightarrow> within_capacity l \<Longrightarrow> within_capacity l' \<and> limiter_capacity l' = limiter_capacity l"
proof (induction rule: limiter_step.induct)
  case step_check
  thus ?case unfolding check_def by (rule within_capacity_on_lock) (rule length_check_keys)
next
  case step_check_user_tenant
  thus ?case unfolding check_user_tenant_def by (rule within_capacity_on_lock) (rule length_check_together)
qed (unfold release_user_def release_tenant_def release_axis_def reset_user_def clear_matching_def,
  rule within_capacity_change; simp add: length_release length_delete_le)+

section \<open>Runs of the password limiter\<close>

text \<open>
  The calls of the login paths, in the order the lock serves them: a login asks for
  admission, and a login that succeeded reports it. The policy of a realm is fixed.
\<close>

datatype password_event =
    Admit u64 string string
  | Succeed u64 u64 string string

fun password_step ::
  "(string \<Rightarrow> password_limits) \<Rightarrow> password_event \<Rightarrow> rate_limiter \<Rightarrow> bool \<times> rate_limiter" where
  "password_step pol (Admit now r e) l = password_admit now r e (pol r) l"
| "password_step pol (Succeed now1 now2 r e) l = (False, password_succeeded now1 now2 r e l)"

fun password_run ::
  "(string \<Rightarrow> password_limits) \<Rightarrow> password_event list \<Rightarrow> rate_limiter
     \<Rightarrow> (password_event \<times> bool) list \<times> rate_limiter" where
  "password_run pol [] l = ([], l)"
| "password_run pol (ev # evs) l =
     (let (ok, l1) = password_step pol ev l; (tr, l2) = password_run pol evs l1 in ((ev, ok) # tr, l2))"

text \<open>What an event touches: the counters an admission counts on, and those a success gives back.\<close>

fun admit_keys :: "password_event \<Rightarrow> rate_limit_key list" where
  "admit_keys (Admit now r e) = [User_Key (user_key r e), Tenant_Key r]"
| "admit_keys (Succeed now1 now2 r e) = []"

fun release_keys :: "password_event \<Rightarrow> rate_limit_key list" where
  "release_keys (Admit now r e) = []"
| "release_keys (Succeed now1 now2 r e) = [User_Key (user_key r e), Tenant_Key r]"

definition admissions :: "rate_limit_key \<Rightarrow> (password_event \<times> bool) list \<Rightarrow> nat" where
  "admissions k tr = length (filter (\<lambda>(ev, ok). ok \<and> k \<in> set (admit_keys ev)) tr)"

definition successes :: "rate_limit_key \<Rightarrow> password_event list \<Rightarrow> nat" where
  "successes k evs = length (filter (\<lambda>ev. k \<in> set (release_keys ev)) evs)"

lemma user_key_inject [simp]: "user_key r e = user_key r' e' \<longleftrightarrow> r = r' \<and> e = e'"
  using length_prefix_inject [of r "'':'' @ e" r' "'':'' @ e'"] by (auto simp: user_key_def)

definition key_realm :: "rate_limit_key \<Rightarrow> string" where
  "key_realm k = (SOME r. k = Tenant_Key r \<or> (\<exists>e. k = User_Key (user_key r e)))"

lemma key_realm_simps [simp]: "key_realm (Tenant_Key r) = r" "key_realm (User_Key (user_key r e)) = r"
  by (simp_all add: key_realm_def)

definition password_axis :: "(string \<Rightarrow> password_limits) \<Rightarrow> rate_limit_key \<Rightarrow> axis_limit" where
  "password_axis pol k =
     axis_limit_new
       (case k of User_Key _ \<Rightarrow> max_failed_attempts (pol (key_realm k))
                | _ \<Rightarrow> max_failed_attempts_per_realm (pol (key_realm k)))
       (lockout_duration_seconds (pol (key_realm k)))"

lemma password_axis_simps [simp]:
  "axis_max (password_axis pol (User_Key (user_key r e))) = max_failed_attempts (pol r)"
  "axis_max (password_axis pol (Tenant_Key r)) = max_failed_attempts_per_realm (pol r)"
  "axis_window (password_axis pol (User_Key (user_key r e))) = lockout_duration_seconds (pol r)"
  "axis_window (password_axis pol (Tenant_Key r)) = lockout_duration_seconds (pol r)"
  by (simp_all add: password_axis_def axis_limit_new_def)

definition password_axes ::
  "(string \<Rightarrow> password_limits) \<Rightarrow> string \<Rightarrow> string \<Rightarrow> (rate_limit_key \<times> axis_limit) list" where
  "password_axes pol r e =
     [(User_Key (user_key r e), password_axis pol (User_Key (user_key r e))),
      (Tenant_Key r, password_axis pol (Tenant_Key r))]"

lemma axes_ok_password [simp]: "axes_ok (password_axis pol) (password_axes pol r e)"
  by (simp add: axes_ok_def password_axes_def)

lemma set_password_axes [simp]: "fst ` set (password_axes pol r e) = {User_Key (user_key r e), Tenant_Key r}"
  by (simp add: password_axes_def)

lemma password_admit_together:
  "password_admit now r e (pol r) l = on_lock (check_together (limiter_capacity l) now (password_axes pol r e)) l"
  by (simp add: password_admit_def check_user_tenant_def user_tenant_axes_def password_axes_def password_axis_def)

definition password_limiter_ok :: "(string \<Rightarrow> password_limits) \<Rightarrow> rate_limiter \<Rightarrow> bool" where
  "password_limiter_ok pol l \<longleftrightarrow> \<not> limiter_poisoned l \<and> limiter_capacity l = max_rate_limit_entries \<and>
     counters_ok (password_axis pol) (limiter_inner l)"

lemma password_limiter_ok_new [simp]: "password_limiter_ok pol password_limiter_new"
  by (simp add: password_limiter_ok_def password_limiter_new_def rate_limiter_new_def with_capacity_def)

lemma password_succeeded_inner:
  "\<not> limiter_poisoned l \<Longrightarrow> password_succeeded now1 now2 r e l =
     l \<lparr> limiter_inner := release_state now2 (Tenant_Key r) (release_state now1 (User_Key (user_key r e)) (limiter_inner l)) \<rparr>"
  by (simp add: password_succeeded_def release_tenant_def release_user_def release_axis_def change_state_def)

text \<open>A call as a change of the state behind the lock.\<close>

lemma password_step_cases:
  assumes "password_limiter_ok pol l" "password_step pol ev l = (ok, l')"
  obtains (admit) now r e where "ev = Admit now r e" "l' = l \<lparr> limiter_inner := limiter_inner l' \<rparr>"
      "check_together max_rate_limit_entries now (password_axes pol r e) (limiter_inner l) = (ok, limiter_inner l')"
  | (succeed) now1 now2 r e where "ev = Succeed now1 now2 r e" "\<not> ok" "l' = l \<lparr> limiter_inner := limiter_inner l' \<rparr>"
      "limiter_inner l' = release_state now2 (Tenant_Key r) (release_state now1 (User_Key (user_key r e)) (limiter_inner l))"
proof (cases ev)
  case (Admit now r e)
  show ?thesis
    by (rule admit [OF Admit]; use assms Admit in
      \<open>auto simp: password_admit_together on_lock_def password_limiter_ok_def split: prod.splits\<close>)
next
  case (Succeed now1 now2 r e)
  show ?thesis
    by (rule succeed [OF Succeed]; use assms Succeed in
      \<open>auto simp: password_succeeded_inner password_limiter_ok_def\<close>)
qed

lemma password_limiter_ok_step:
  assumes ok: "password_limiter_ok pol l" and step: "password_step pol ev l = (res, l')"
  shows "password_limiter_ok pol l'"
  using ok step
proof (cases rule: password_step_cases)
  case (admit now r e)
  hence "counters_ok (password_axis pol) (limiter_inner l')"
    using ok counters_ok_check_together axes_ok_password unfolding password_limiter_ok_def by blast
  thus ?thesis using ok by (subst admit(2)) (simp add: password_limiter_ok_def)
next
  case (succeed now1 now2 r e)
  hence "counters_ok (password_axis pol) (limiter_inner l')"
    using ok counters_ok_release by (simp add: password_limiter_ok_def)
  thus ?thesis using ok by (subst succeed(3)) (simp add: password_limiter_ok_def)
qed

lemma password_run_Cons:
  assumes "password_run pol (ev # evs) l = (tr, l')"
  obtains ok l1 tr' where "password_step pol ev l = (ok, l1)" "password_run pol evs l1 = (tr', l')" "tr = (ev, ok) # tr'"
  using assms by (auto simp: Let_def split: prod.splits)

lemma password_limiter_ok_run:
  "password_limiter_ok pol l \<Longrightarrow> password_run pol evs l = (tr, l') \<Longrightarrow> password_limiter_ok pol l'"
proof (induction evs arbitrary: l tr)
  case (Cons ev evs)
  from Cons.prems(2) show ?case
    by (rule password_run_Cons) (use Cons password_limiter_ok_step in blast)
qed simp

fun admit_times :: "(u64 \<Rightarrow> string \<Rightarrow> bool) \<Rightarrow> password_event \<Rightarrow> bool" where
  "admit_times P (Admit now r e) = P now r"
| "admit_times P (Succeed now1 now2 r e) = True"

abbreviation spent_of :: "(string \<Rightarrow> password_limits) \<Rightarrow> u64 \<Rightarrow> rate_limit_key \<Rightarrow> rate_limiter \<Rightarrow> nat" where
  "spent_of pol s k l \<equiv> spent_since s (axis_max (password_axis pol k)) (counter (limiter_inner l) k)"

lemma password_step_spent:
  assumes ok: "password_limiter_ok pol l" and step: "password_step pol ev l = (res, l')"
    and span: "admit_times (\<lambda>now _. in_span s (axis_window (password_axis pol k)) now) ev"
  shows "spent_of pol s k l + admissions k [(ev, res)] \<le> spent_of pol s k l' + successes k [ev]"
  using ok step
proof (cases rule: password_step_cases)
  case (admit now r e)
  have "counters_ok (password_axis pol) (limiter_inner l)" using ok by (simp add: password_limiter_ok_def)
  from spent_since_check [OF this axes_ok_password admit(3), of s k] show ?thesis
    using span admit(1) by (auto simp: admissions_def successes_def split: if_splits)
next
  case (succeed now1 now2 r e)
  let ?st = "release_state now1 (User_Key (user_key r e)) (limiter_inner l)"
  have l: "counters_ok (password_axis pol) (limiter_inner l)" using ok by (simp add: password_limiter_ok_def)
  have st: "counters_ok (password_axis pol) ?st" using l by (rule counters_ok_release)
  show ?thesis
    using succeed spent_since_release [OF l, of s k now1 "User_Key (user_key r e)"]
      spent_since_release [OF st, of s k now2 "Tenant_Key r"]
    by (auto simp: admissions_def successes_def split: if_splits)
qed

lemma admissions_Cons: "admissions k (x # tr) = admissions k [x] + admissions k tr"
  and successes_Cons: "successes k (ev # evs) = successes k [ev] + successes k evs"
  by (simp_all add: admissions_def successes_def)

lemma password_run_spent:
  assumes "password_limiter_ok pol l" "password_run pol evs l = (tr, l')"
    and "\<forall>ev\<in>set evs. admit_times (\<lambda>now _. in_span s (axis_window (password_axis pol k)) now) ev"
  shows "spent_of pol s k l + admissions k tr \<le> spent_of pol s k l' + successes k evs"
  using assms
proof (induction evs arbitrary: l tr)
  case Nil
  thus ?case by (simp add: admissions_def)
next
  case (Cons ev evs)
  from Cons.prems(2) obtain res l1 tr' where run: "password_step pol ev l = (res, l1)"
    "password_run pol evs l1 = (tr', l')" "tr = (ev, res) # tr'"
    by (rule password_run_Cons)
  have "spent_of pol s k l + admissions k [(ev, res)] \<le> spent_of pol s k l1 + successes k [ev]"
    using password_step_spent [OF Cons.prems(1) run(1)] Cons.prems(3) by simp
  moreover have "spent_of pol s k l1 + admissions k tr' \<le> spent_of pol s k l' + successes k evs"
    using Cons.IH [OF password_limiter_ok_step [OF Cons.prems(1) run(1)] run(2)] Cons.prems(3) by simp
  ultimately show ?case
    unfolding run(3) admissions_Cons [of k "(ev, res)" tr'] successes_Cons [of k ev evs] by simp
qed

lemma password_run_admissions:
  assumes "password_run pol before password_limiter_new = (tr0, l)" "password_run pol evs l = (tr, l')"
    and "\<forall>ev\<in>set evs. admit_times (\<lambda>now _. in_span s (axis_window (password_axis pol k)) now) ev"
  shows "admissions k tr \<le> 2 * unat (axis_max (password_axis pol k)) + successes k evs"
proof -
  have l: "password_limiter_ok pol l" using password_limiter_ok_run [OF password_limiter_ok_new assms(1)] .
  have "counters_ok (password_axis pol) (limiter_inner l')"
    using password_limiter_ok_run [OF l assms(2)] by (simp add: password_limiter_ok_def)
  from spent_since_le [OF this, of s k] password_run_spent [OF l assms(2,3)] show ?thesis by linarith
qed

text \<open>Once every counter has expired, a request whose limits are positive is admitted.\<close>

definition all_expired :: "u64 \<Rightarrow> rate_limit_state \<Rightarrow> bool" where
  "all_expired now st \<longleftrightarrow> (\<forall>k e. counter st k = Some e \<longrightarrow> entry_expiry e \<le> now)"

lemma plan_axes_expired:
  assumes ok: "counters_ok limits st" and exp: "all_expired now st"
  shows "\<forall>(k, limit)\<in>set axes. limit = limits k \<and> 0 < axis_max limit \<Longrightarrow>
    \<exists>plan. plan_axes (rate_entries st) now axes = Some plan \<and> length plan = length axes"
proof (induction axes)
  case (Cons a axes)
  obtain k where a: "a = (k, limits k)" "0 < axis_max (limits k)" using Cons.prems by (cases a) auto
  have "opt_filter (\<lambda>e. now < entry_expiry e) (counter st k) = None"
    using exp by (auto simp: all_expired_def opt_filter_None_iff not_less)
  hence "has_room (limits k) now (counter st k)" using a(2) by (simp add: has_room_def)
  hence "axis_state_of (rate_entries st) k now (limits k) =
      Admitted (entry_count (admitted_entry (limits k) now (counter st k)))"
    by (subst axis_state_admitted [OF refl]) (auto dest: counters_okD(1) [OF ok])
  thus ?case using Cons a by auto
qed simp

lemma check_together_expired:
  assumes ok: "counters_ok limits st" and exp: "all_expired now st"
    and axes: "\<forall>(k, limit)\<in>set axes. limit = limits k \<and> 0 < axis_max limit" "length axes \<le> cap"
  shows "fst (check_together cap now axes st)"
proof -
  obtain plan where plan: "plan_axes (rate_entries st) now axes = Some plan" "length plan = length axes"
    using plan_axes_expired [OF ok exp axes(1)] by blast
  have few: "untracked st' plan \<le> cap" for st'
    using plan(2) axes(2) length_filter_le [of _ plan] le_trans unfolding untracked_def by metis
  have wf: "hm_wf (rate_entries st)" using ok by (simp add: counters_ok_def)
  have "fst (reserve_plan cap plan now st)"
  proof (cases "rate_entries st")
    case Nil
    thus ?thesis using few [of st] by (simp add: reserve_plan_def)
  next
    case (Cons x xs)
    have "counter st (fst x) = Some (snd x)" using Cons by (cases x) simp
    hence "next_expiry st \<le> now"
      using counters_okD(3) [OF ok] exp unfolding all_expired_def by (blast intro: order_trans)
    moreover have "\<not> now < entry_expiry e" if "(k, e) \<in> set (rate_entries st)" for k e
      using that exp hm_mem_iff [OF wf, of k e] unfolding all_expired_def by (simp add: not_less)
    hence "rate_entries (prune_expired now st) = []"
      by (auto simp: prune_expired_def Let_def hm_retain_def filter_empty_conv)
    ultimately show ?thesis using few by (simp add: reserve_plan_def Let_def)
  qed
  thus ?thesis using plan(1) by (auto simp: check_together_def split: prod.splits bool.splits)
qed

lemma all_expired_check_together:
  assumes ok: "counters_ok limits st" and axes: "axes_ok limits axes"
    and chk: "check_together cap now axes st = (res, st')"
    and exp: "all_expired t st" "\<forall>(k, limit)\<in>set axes. sat_add now (axis_window limit) \<le> t"
  shows "all_expired t st'"
  unfolding all_expired_def
proof (intro allI impI)
  fix k e assume e: "counter st' k = Some e"
  show "entry_expiry e \<le> t"
  proof (cases "res \<and> k \<in> fst ` set axes")
    case True
    have "(k, limits k) \<in> set axes" using True axes by (auto simp: axes_ok_def)
    hence now: "sat_add now (axis_window (limits k)) \<le> t" using exp(2) by blast
    have "e = admitted_entry (limits k) now (counter st k)"
      using counter_check_together [OF ok axes chk, of k] True e by simp
    thus ?thesis using now exp(1)
      by (auto simp: admitted_entry_def all_expired_def entry_expiry_def split: option.splits)
  next
    case False
    hence "counter st k = Some e"
      using counter_check_together [OF ok axes chk, of k] e opt_filter_Some_iff by (metis (no_types, lifting))
    thus ?thesis using exp(1) by (simp add: all_expired_def)
  qed
qed

lemma all_expired_release: "all_expired t st \<Longrightarrow> all_expired t (release_state now k st)"
  unfolding all_expired_def
  by (auto simp: counter_release entry_expiry_def split: if_splits option.splits)

lemma password_run_expired:
  assumes "password_limiter_ok pol l" "password_run pol evs l = (tr, l')" "all_expired t (limiter_inner l)"
    and "\<forall>ev\<in>set evs. admit_times (\<lambda>now r. sat_add now (lockout_duration_seconds (pol r)) \<le> t) ev"
  shows "all_expired t (limiter_inner l')"
  using assms
proof (induction evs arbitrary: l tr)
  case (Cons ev evs)
  note ok = Cons.prems(1)
  from Cons.prems(2) obtain res l1 tr' where run: "password_step pol ev l = (res, l1)" "password_run pol evs l1 = (tr', l')"
    by (rule password_run_Cons)
  from ok run(1) have "all_expired t (limiter_inner l1)"
  proof (cases rule: password_step_cases)
    case (admit now r e)
    have "counters_ok (password_axis pol) (limiter_inner l)" using ok by (simp add: password_limiter_ok_def)
    from all_expired_check_together [OF this axes_ok_password admit(3) Cons.prems(3)] show ?thesis
      using Cons.prems(4) admit(1) by (simp add: password_axes_def)
  next
    case succeed
    thus ?thesis using Cons.prems(3) by (simp add: all_expired_release)
  qed
  thus ?case using Cons.IH [OF password_limiter_ok_step [OF ok run(1)] run(2)] Cons.prems(4) by simp
qed simp

section \<open>Properties\<close>

text \<open>
  C33. However many keys the callers invent and in whatever order they call, a rate limiter
  never tracks more windows than the capacity it was created with.
\<close>

theorem limiter_within_capacity:
  assumes "limiter_step\<^sup>*\<^sup>* (with_capacity cfg n) l"
  shows "length (rate_entries (limiter_inner l)) \<le> n"
proof -
  have "within_capacity l \<and> limiter_capacity l = n"
    using assms
  proof (induction rule: rtranclp_induct)
    case base
    show ?case by (simp add: within_capacity_def with_capacity_def empty_rate_limit_state_def)
  next
    case (step l1 l2)
    thus ?case using limiter_step_capacity by blast
  qed
  thus ?thesis by (simp add: within_capacity_def)
qed

definition example_limiter :: rate_limiter where
  "example_limiter = snd (check 10 (Some ''alice'') (Some ''ip'') None None (Some ''corp'')
     (with_capacity default_rate_limit_config 1))"

theorem limiter_within_capacity_witness:
  "limiter_step (with_capacity default_rate_limit_config 1) example_limiter \<and>
   length (rate_entries (limiter_inner example_limiter)) \<le> 1 \<and>
   map fst (rate_entries (limiter_inner example_limiter)) = [User_Key ''alice'']"
proof -
  have step: "limiter_step (with_capacity default_rate_limit_config 1) example_limiter"
    unfolding example_limiter_def by (rule step_check [OF prod.collapse [symmetric]])
  moreover have "map fst (rate_entries (limiter_inner example_limiter)) = [User_Key ''alice'']"
    by code_simp
  ultimately show ?thesis
    using limiter_within_capacity [OF r_into_rtranclp [of limiter_step, OF step]] by simp
qed

text \<open>
  C14. The password limiter holds in every history. Take any calls of the login paths on a
  fresh limiter, followed by calls whose admission times lie in a span no longer than the
  realm's lockout window. In that span an account is admitted at most twice its realm's
  \<^verbatim>\<open>max_failed_attempts\<close>, plus once per success it reported, and the whole realm at most twice
  its \<^verbatim>\<open>max_failed_attempts_per_realm\<close>, plus its successes. Calls for other accounts and
  realms, pruning at capacity and late releases cannot raise the bound.
\<close>

theorem password_admissions_bounded:
  assumes "password_run pol before password_limiter_new = (tr0, l)" "password_run pol evs l = (tr, l')"
    and "\<forall>ev\<in>set evs. admit_times (\<lambda>now _. in_span s (lockout_duration_seconds (pol r)) now) ev"
  shows "admissions (User_Key (user_key r e)) tr
      \<le> 2 * unat (max_failed_attempts (pol r)) + successes (User_Key (user_key r e)) evs \<and>
    admissions (Tenant_Key r) tr
      \<le> 2 * unat (max_failed_attempts_per_realm (pol r)) + successes (Tenant_Key r) evs"
  using password_run_admissions [OF assms(1,2), of s "User_Key (user_key r e)"]
    password_run_admissions [OF assms(1,2), of s "Tenant_Key r"] assms(3)
  by simp

lemmas limiter_eval =
  password_limiter_new_def rate_limiter_new_def with_capacity_def max_rate_limit_entries_def
  empty_rate_limit_state_def password_admit_def check_user_tenant_def on_lock_def user_tenant_axes_def
  check_together_def axis_state_of_def reserve_plan_def untracked_def hm_contains_def commit_axis_def
  axis_limit_new_def sat_add_def Let_def word_le_nat_alt word_less_nat_alt

definition example_policy :: "string \<Rightarrow> password_limits" where
  "example_policy r = \<lparr> max_failed_attempts = 1, max_failed_attempts_per_realm = 5, lockout_duration_seconds = 60 \<rparr>"

definition example_logins :: "password_event list" where
  "example_logins = [Admit 50 ''corp'' ''a@x'', Admit 70 ''corp'' ''a@x'', Admit 80 ''corp'' ''a@x'']"

text \<open>The realm's own window began before the span; the account's begins inside it.\<close>

theorem password_admissions_bounded_witness:
  "map snd (fst (password_run example_policy [Admit 0 ''corp'' ''b@x''] password_limiter_new)) = [True] \<and>
   (case password_run example_policy [Admit 0 ''corp'' ''b@x''] password_limiter_new of (_, l) \<Rightarrow>
     (case password_run example_policy example_logins l of (tr, _) \<Rightarrow>
        map snd tr = [True, False, False] \<and> admissions (User_Key (user_key ''corp'' ''a@x'')) tr \<le> 2))"
proof -
  let ?b = "[Admit 0 ''corp'' ''b@x'']"
  let ?l = "snd (password_run example_policy ?b password_limiter_new)"
  have span: "\<forall>ev\<in>set example_logins.
      admit_times (\<lambda>now _. in_span 50 (lockout_duration_seconds (example_policy ''corp'')) now) ev"
    by (simp add: example_logins_def example_policy_def in_span_def sat_add_def)
  have "admissions (User_Key (user_key ''corp'' ''a@x'')) (fst (password_run example_policy example_logins ?l)) \<le>
      2 * unat (max_failed_attempts (example_policy ''corp'')) + successes (User_Key (user_key ''corp'' ''a@x'')) example_logins"
    using password_admissions_bounded [OF prod.collapse [symmetric]
        prod.collapse [symmetric, of "password_run example_policy example_logins ?l"] span] by blast
  moreover have "2 * unat (max_failed_attempts (example_policy ''corp'')) +
      successes (User_Key (user_key ''corp'' ''a@x'')) example_logins = 2"
    by (simp add: example_policy_def successes_def example_logins_def)
  moreover have "map snd (fst (password_run example_policy ?b password_limiter_new)) = [True]"
    "map snd (fst (password_run example_policy example_logins ?l)) = [True, False, False]"
    by (simp_all add: limiter_eval example_policy_def example_logins_def)
  ultimately show ?thesis by (simp add: case_prod_unfold)
qed

text \<open>
  C19. A lockout ends. After any history of the password limiter in which every realm keeps its
  policy, once the lockout window of every earlier admission request has passed, a login of
  any account is admitted: no count, no tracked key and no stale prune threshold can keep an
  account or a new name out.
\<close>

theorem password_lockout_ends:
  assumes "password_run pol evs password_limiter_new = (tr, l)"
    and "\<forall>ev\<in>set evs. admit_times (\<lambda>t r. sat_add t (lockout_duration_seconds (pol r)) \<le> now) ev"
    and "0 < max_failed_attempts (pol r)" "0 < max_failed_attempts_per_realm (pol r)"
  shows "fst (password_admit now r e (pol r) l)"
proof -
  have l: "password_limiter_ok pol l" using password_limiter_ok_run [OF password_limiter_ok_new assms(1)] .
  have "all_expired now (limiter_inner password_limiter_new)"
    by (simp add: all_expired_def password_limiter_new_def rate_limiter_new_def with_capacity_def empty_rate_limit_state_def)
  from password_run_expired [OF password_limiter_ok_new assms(1) this assms(2)]
  have "all_expired now (limiter_inner l)" .
  hence "fst (check_together max_rate_limit_entries now (password_axes pol r e) (limiter_inner l))"
    using l assms(3,4)
    by (intro check_together_expired [where limits = "password_axis pol"])
       (auto simp: password_limiter_ok_def password_axes_def max_rate_limit_entries_def)
  thus ?thesis using l
    by (auto simp: password_admit_together on_lock_def password_limiter_ok_def split: prod.splits)
qed

theorem password_lockout_ends_witness:
  "map snd (fst (password_run example_policy example_logins password_limiter_new)) = [True, False, False] \<and>
   \<not> fst (password_admit 100 ''corp'' ''a@x'' (example_policy ''corp'')
     (snd (password_run example_policy example_logins password_limiter_new))) \<and>
   fst (password_admit 140 ''corp'' ''a@x'' (example_policy ''corp'')
     (snd (password_run example_policy example_logins password_limiter_new)))"
proof -
  let ?run = "password_run example_policy example_logins password_limiter_new"
  have times: "\<forall>ev\<in>set example_logins.
      admit_times (\<lambda>t r. sat_add t (lockout_duration_seconds (example_policy r)) \<le> 140) ev"
    by (simp add: example_logins_def example_policy_def sat_add_def)
  have "fst (password_admit 140 ''corp'' ''a@x'' (example_policy ''corp'') (snd ?run))"
    by (rule password_lockout_ends [OF prod.collapse [symmetric] times]) (simp_all add: example_policy_def)
  moreover have "map snd (fst ?run) = [True, False, False]"
    "\<not> fst (password_admit 100 ''corp'' ''a@x'' (example_policy ''corp'') (snd ?run))"
    by (simp_all add: limiter_eval example_policy_def example_logins_def)
  ultimately show ?thesis by blast
qed

end
