(* ===== verification/Qid_Network.thy ===== *)
theory Qid_Network
  imports Qid_Prelude "HOL-Library.Monad_Syntax"
begin

text \<open>
  The network access profile: the RADIUS, EAP and TACACS+ wire formats of
  \<^verbatim>\<open>qid-network/src/lib.rs\<close> and the RADIUS request handlers of \<^verbatim>\<open>qid-network/src/server.rs\<close>.

  Indexing and slicing a byte buffer panics out of range in Rust; here both return an option,
  and an operation that panics is \<^const>\<open>None\<close>. An operation that returns carries its
  \<^verbatim>\<open>QidResult\<close> inside: \<^typ>\<open>'a result option\<close>. The HMAC-SHA-256 and MD5 functions are
  parameters (\<^verbatim>\<open>hmac\<close> of key and message, \<^verbatim>\<open>md5\<close> of a message), with the lengths of their
  digests as the only facts used about them. Sockets are left out: a handler is the function
  from the datagram to the datagram it sends back.

  Shown below: parsing inverts encoding and encoding inverts parsing; obfuscation of TACACS+
  bodies always returns and is its own inverse; no datagram makes a handler panic, and
  access is granted only to an authenticated request the authorizer accepts. Two theorems
  record what the two authenticators of the code do and do not cover.
\<close>

section \<open>Buffers\<close>

type_synonym 'a run = "'a result option"

definition byte_at :: "octet list \<Rightarrow> nat \<Rightarrow> octet option" where
  "byte_at bs i = (if i < length bs then Some (bs ! i) else None)"

definition slice :: "octet list \<Rightarrow> nat \<Rightarrow> nat \<Rightarrow> octet list option" where
  "slice bs a b = (if a \<le> b \<and> b \<le> length bs then Some (take (b - a) (drop a bs)) else None)"

text \<open>The question-mark operator on an operation that may panic.\<close>

definition on_ok :: "'a run \<Rightarrow> ('a \<Rightarrow> 'b run) \<Rightarrow> 'b run" where
  "on_ok m f = (case m of None \<Rightarrow> None | Some (Inl e) \<Rightarrow> Some (Inl e) | Some (Inr a) \<Rightarrow> f a)"

definition bad_request :: "string \<Rightarrow> 'a run" where
  "bad_request message = Some (Inl (BadRequest message))"

text \<open>Big-endian integers, as \<^verbatim>\<open>to_be_bytes\<close> and \<^verbatim>\<open>from_be_bytes\<close> write and read them.\<close>

type_synonym u16 = "16 word"

definition be16 :: "u16 \<Rightarrow> octet list" where
  "be16 w = [of_nat (unat w div 256), of_nat (unat w)]"

definition from_be16 :: "octet \<Rightarrow> octet \<Rightarrow> u16" where
  "from_be16 a b = of_nat (unat a * 256 + unat b)"

definition be32 :: "u32 \<Rightarrow> octet list" where
  "be32 w = [of_nat (unat w div 16777216), of_nat (unat w div 65536), of_nat (unat w div 256), of_nat (unat w)]"

definition from_be32 :: "octet \<Rightarrow> octet \<Rightarrow> octet \<Rightarrow> octet \<Rightarrow> u32" where
  "from_be32 a b c d = of_nat (unat a * 16777216 + unat b * 65536 + unat c * 256 + unat d)"

text \<open>The octets of a text, and the text of octets that are valid UTF-8.\<close>

definition octets_of :: "string \<Rightarrow> octet list" where
  "octets_of = map (\<lambda>c. of_nat (byte_val c))"

definition text_of :: "octet list \<Rightarrow> string" where
  "text_of = map (\<lambda>o'. byte (unat o'))"

definition cont :: "nat \<Rightarrow> bool" where
  "cont n \<longleftrightarrow> 128 \<le> n \<and> n \<le> 191"

fun utf8_valid :: "nat list \<Rightarrow> bool" where
  "utf8_valid [] = True"
| "utf8_valid (a # bs) =
     (if a < 128 then utf8_valid bs
      else case bs of
        b # cs \<Rightarrow>
          if 194 \<le> a \<and> a \<le> 223 then cont b \<and> utf8_valid cs
          else (case cs of
            c # ds \<Rightarrow>
              if 224 \<le> a \<and> a \<le> 239
              then cont b \<and> (a = 224 \<longrightarrow> 160 \<le> b) \<and> (a = 237 \<longrightarrow> b \<le> 159) \<and> cont c \<and> utf8_valid ds
              else (case ds of
                d # es \<Rightarrow>
                  240 \<le> a \<and> a \<le> 244 \<and> cont b \<and> (a = 240 \<longrightarrow> 144 \<le> b) \<and> (a = 244 \<longrightarrow> b \<le> 143)
                    \<and> cont c \<and> cont d \<and> utf8_valid es
              | [] \<Rightarrow> False)
          | [] \<Rightarrow> False)
      | [] \<Rightarrow> False)"

definition from_utf8 :: "octet list \<Rightarrow> string option" where
  "from_utf8 bs = (if utf8_valid (map unat bs) then Some (text_of bs) else None)"

section \<open>RADIUS packets\<close>

datatype radius_code =
    AccessRequest | AccessAccept | AccessReject | AccessChallenge
  | AccountingRequest | AccountingResponse
  | CoARequest | CoAACK | CoANAK
  | DisconnectRequest | DisconnectACK | DisconnectNAK
  | OtherRadius octet

fun radius_as_byte :: "radius_code \<Rightarrow> octet" where
  "radius_as_byte AccessRequest = 1"
| "radius_as_byte AccessAccept = 2"
| "radius_as_byte AccessReject = 3"
| "radius_as_byte AccessChallenge = 11"
| "radius_as_byte AccountingRequest = 4"
| "radius_as_byte AccountingResponse = 5"
| "radius_as_byte CoARequest = 43"
| "radius_as_byte CoAACK = 44"
| "radius_as_byte CoANAK = 45"
| "radius_as_byte DisconnectRequest = 46"
| "radius_as_byte DisconnectACK = 47"
| "radius_as_byte DisconnectNAK = 48"
| "radius_as_byte (OtherRadius code) = code"

definition radius_from_byte :: "octet \<Rightarrow> radius_code" where
  "radius_from_byte b =
     (if b = 1 then AccessRequest else if b = 2 then AccessAccept else if b = 3 then AccessReject
      else if b = 4 then AccountingRequest else if b = 5 then AccountingResponse
      else if b = 11 then AccessChallenge else if b = 43 then CoARequest else if b = 44 then CoAACK
      else if b = 45 then CoANAK else if b = 46 then DisconnectRequest
      else if b = 47 then DisconnectACK else if b = 48 then DisconnectNAK else OtherRadius b)"

record radius_attribute =
  attr_kind :: octet
  attr_value :: "octet list"

record radius_packet =
  rp_code :: radius_code
  rp_identifier :: octet
  rp_authenticator :: "octet list"
  rp_attributes :: "radius_attribute list"

text \<open>The attribute loop. Each round advances the cursor by at least two.\<close>

function parse_attributes :: "octet list \<Rightarrow> nat \<Rightarrow> nat \<Rightarrow> radius_attribute list run" where
  "parse_attributes bs len cursor =
     (if cursor < len then
        if len < cursor + 2 then bad_request ''RADIUS attribute header extends past packet length''
        else do {
          kind \<leftarrow> byte_at bs cursor;
          l \<leftarrow> byte_at bs (cursor + 1);
          if unat l < 2 \<or> len < cursor + unat l
          then bad_request ''RADIUS attribute length exceeds packet length''
          else do {
            value \<leftarrow> slice bs (cursor + 2) (cursor + unat l);
            on_ok (parse_attributes bs len (cursor + unat l))
              (\<lambda>rest. Some (Inr (\<lparr> attr_kind = kind, attr_value = value \<rparr> # rest)))
          }
        }
      else Some (Inr []))"
  by pat_completeness auto

termination
  by (relation "measure (\<lambda>(bs, len, cursor). len - cursor)") auto

declare parse_attributes.simps [simp del]

definition parse_radius_packet :: "octet list \<Rightarrow> radius_packet run" where
  "parse_radius_packet bs =
     (if length bs < 20 then bad_request ''RADIUS packet is shorter than 20 bytes''
      else do {
        hi \<leftarrow> byte_at bs 2;
        lo \<leftarrow> byte_at bs 3;
        let len = unat (from_be16 hi lo) in
        if length bs < len
        then bad_request (''RADIUS packet is shorter than declared length '' @ decimal len)
        else do {
          authenticator \<leftarrow> slice bs 4 20;
          on_ok (parse_attributes bs len 20) (\<lambda>attributes. do {
            code \<leftarrow> byte_at bs 0;
            identifier \<leftarrow> byte_at bs 1;
            Some (Inr \<lparr> rp_code = radius_from_byte code, rp_identifier = identifier,
              rp_authenticator = authenticator, rp_attributes = attributes \<rparr>)
          })
        }
      })"

definition encode_attribute :: "octet \<Rightarrow> octet list \<Rightarrow> octet list" where
  "encode_attribute kind value = kind # of_nat (length value + 2) # value"

definition encode_radius_packet :: "radius_packet \<Rightarrow> octet list" where
  "encode_radius_packet p =
     (let body_len = sum_list (map (\<lambda>a. length (attr_value a) + 2) (rp_attributes p));
          total_len = 20 + body_len
      in radius_as_byte (rp_code p) # rp_identifier p # be16 (of_nat total_len) @ rp_authenticator p @
         concat (map (\<lambda>a. encode_attribute (attr_kind a) (attr_value a)) (rp_attributes p)))"

section \<open>RADIUS authenticators\<close>

type_synonym mac = "octet list \<Rightarrow> octet list \<Rightarrow> octet list"

definition radius_response_authenticator ::
  "mac \<Rightarrow> octet list \<Rightarrow> octet list \<Rightarrow> octet list \<Rightarrow> octet list" where
  "radius_response_authenticator hmac secret request_authenticator body =
     take 16 (hmac secret (request_authenticator @ body))"

definition verify_radius_request_authenticator ::
  "mac \<Rightarrow> octet list \<Rightarrow> radius_packet \<Rightarrow> octet list \<Rightarrow> bool" where
  "verify_radius_request_authenticator hmac secret p body \<longleftrightarrow>
     constant_time_eq (text_of (take 16 (hmac secret body))) (text_of (rp_authenticator p))"

definition radius_message_authenticator :: "mac \<Rightarrow> octet list \<Rightarrow> octet list \<Rightarrow> octet list result" where
  "radius_message_authenticator hmac secret packet = Inr (hmac secret packet)"

definition verify_radius_message_authenticator ::
  "mac \<Rightarrow> octet list \<Rightarrow> octet list \<Rightarrow> nat \<Rightarrow> octet list \<Rightarrow> bool run" where
  "verify_radius_message_authenticator hmac secret packet offset expected =
     (if length packet < offset + 32 then bad_request ''RADIUS Message-Authenticator is outside the packet''
      else do {
        before \<leftarrow> slice packet 0 offset;
        after \<leftarrow> slice packet (offset + 32) (length packet);
        on_ok (Some (radius_message_authenticator hmac secret (before @ replicate 32 0 @ after)))
          (\<lambda>computed. Some (Inr (constant_time_eq (text_of computed) (text_of expected))))
      })"

section \<open>EAP frames\<close>

datatype eap_code = EapRequest | EapResponse | EapSuccess | EapFailure | OtherEap octet

fun eap_as_byte :: "eap_code \<Rightarrow> octet" where
  "eap_as_byte EapRequest = 1"
| "eap_as_byte EapResponse = 2"
| "eap_as_byte EapSuccess = 3"
| "eap_as_byte EapFailure = 4"
| "eap_as_byte (OtherEap c) = c"

definition eap_from_byte :: "octet \<Rightarrow> eap_code" where
  "eap_from_byte b =
     (if b = 1 then EapRequest else if b = 2 then EapResponse else if b = 3 then EapSuccess
      else if b = 4 then EapFailure else OtherEap b)"

datatype eap_method =
  EapIdentity | EapNotification | EapNak | EapMd5Challenge | EapTls | EapTtls | EapAka | EapAkaPrime
  | EapTeap | OtherMethod octet

fun method_as_byte :: "eap_method \<Rightarrow> octet" where
  "method_as_byte EapIdentity = 1"
| "method_as_byte EapNotification = 2"
| "method_as_byte EapNak = 3"
| "method_as_byte EapMd5Challenge = 4"
| "method_as_byte EapTls = 13"
| "method_as_byte EapTtls = 21"
| "method_as_byte EapAka = 23"
| "method_as_byte EapAkaPrime = 50"
| "method_as_byte EapTeap = 55"
| "method_as_byte (OtherMethod c) = c"

definition method_from_byte :: "octet \<Rightarrow> eap_method" where
  "method_from_byte b =
     (if b = 1 then EapIdentity else if b = 2 then EapNotification else if b = 3 then EapNak
      else if b = 4 then EapMd5Challenge else if b = 13 then EapTls else if b = 21 then EapTtls
      else if b = 23 then EapAka else if b = 50 then EapAkaPrime else if b = 55 then EapTeap
      else OtherMethod b)"

record eap_frame =
  eap_code :: eap_code
  eap_identifier :: octet
  eap_length :: u16
  eap_method :: "eap_method option"
  eap_method_data :: "octet list"

definition parse_eap_frame :: "octet list \<Rightarrow> eap_frame run" where
  "parse_eap_frame bs =
     (if length bs < 4 then bad_request ''EAP frame is shorter than 4 bytes''
      else do {
        hi \<leftarrow> byte_at bs 2;
        lo \<leftarrow> byte_at bs 3;
        let len = from_be16 hi lo in
        if len < 4 \<or> length bs < unat len then bad_request ''EAP frame length mismatch''
        else do {
          code \<leftarrow> byte_at bs 0;
          on_ok (if eap_from_byte code = EapRequest \<or> eap_from_byte code = EapResponse
                 then if len < 5 then bad_request ''EAP Request/Response frame is missing Type field''
                      else do {
                        m \<leftarrow> byte_at bs 4;
                        data \<leftarrow> slice bs 5 (unat len);
                        Some (Inr (Some (method_from_byte m), data))
                      }
                 else Some (Inr (None, [])))
            (\<lambda>(m, data). do {
              identifier \<leftarrow> byte_at bs 1;
              Some (Inr \<lparr> eap_code = eap_from_byte code, eap_identifier = identifier, eap_length = len,
                eap_method = m, eap_method_data = data \<rparr>)
            })
        }
      })"

section \<open>TACACS+\<close>

datatype tacacs_type = TacAuthentication | TacAuthorization | TacAccounting | OtherTac octet

fun tacacs_as_byte :: "tacacs_type \<Rightarrow> octet" where
  "tacacs_as_byte TacAuthentication = 1"
| "tacacs_as_byte TacAuthorization = 2"
| "tacacs_as_byte TacAccounting = 3"
| "tacacs_as_byte (OtherTac c) = c"

definition tacacs_from_byte :: "octet \<Rightarrow> tacacs_type" where
  "tacacs_from_byte b =
     (if b = 1 then TacAuthentication else if b = 2 then TacAuthorization else if b = 3 then TacAccounting
      else OtherTac b)"

record tacacs_header =
  th_version :: octet
  th_type :: tacacs_type
  th_sequence_number :: octet
  th_flags :: octet
  th_session_id :: u32
  th_length :: u32

definition tacacs_header_len :: nat where
  "tacacs_header_len = 12"

definition tacacs_version :: octet where
  "tacacs_version = 0xc1"

definition hex_digit :: "nat \<Rightarrow> char" where
  "hex_digit n = (if n < 10 then byte (48 + n) else byte (87 + n))"

definition parse_tacacs_header :: "octet list \<Rightarrow> tacacs_header run" where
  "parse_tacacs_header bs =
     (if length bs < tacacs_header_len then bad_request ''TACACS+ header is shorter than 12 bytes''
      else do {
        v \<leftarrow> byte_at bs 0;
        if v \<noteq> tacacs_version
        then bad_request (''unsupported TACACS+ version byte 0x'' @
               [hex_digit (unat v div 16), hex_digit (unat v mod 16)])
        else do {
          t \<leftarrow> byte_at bs 1;
          seq \<leftarrow> byte_at bs 2;
          flags \<leftarrow> byte_at bs 3;
          s0 \<leftarrow> byte_at bs 4; s1 \<leftarrow> byte_at bs 5; s2 \<leftarrow> byte_at bs 6; s3 \<leftarrow> byte_at bs 7;
          l0 \<leftarrow> byte_at bs 8; l1 \<leftarrow> byte_at bs 9; l2 \<leftarrow> byte_at bs 10; l3 \<leftarrow> byte_at bs 11;
          let len = from_be32 l0 l1 l2 l3 in
          if length bs < tacacs_header_len + unat len
          then bad_request ''TACACS+ body is shorter than declared length''
          else Some (Inr \<lparr> th_version = v, th_type = tacacs_from_byte t, th_sequence_number = seq,
                 th_flags = flags, th_session_id = from_be32 s0 s1 s2 s3, th_length = len \<rparr>)
        }
      })"

definition encode_tacacs_header :: "tacacs_header \<Rightarrow> octet list" where
  "encode_tacacs_header h =
     tacacs_version # tacacs_as_byte (th_type h) # th_sequence_number h # th_flags h #
     be32 (th_session_id h) @ be32 (th_length h)"

definition push_tacacs_string :: "octet list \<Rightarrow> string \<Rightarrow> octet list" where
  "push_tacacs_string buf value = buf @ of_nat (length value) # octets_of value"

record tacacs_authentication_start =
  ts_action :: octet
  ts_privilege_level :: octet
  ts_authentication_type :: octet
  ts_service :: string
  ts_port :: string
  ts_remote_address :: string
  ts_user :: string

definition encode_tacacs_authentication_start :: "tacacs_header \<Rightarrow> tacacs_authentication_start \<Rightarrow> octet list" where
  "encode_tacacs_authentication_start h start =
     encode_tacacs_header h @
     fold (\<lambda>v buf. push_tacacs_string buf v)
       [ts_service start, ts_port start, ts_remote_address start, ts_user start]
       [ts_action start, ts_privilege_level start, ts_authentication_type start]"

record tacacs_accounting_request =
  tc_flags :: octet
  tc_privilege_level :: octet
  tc_authentication_type :: octet
  tc_service :: string
  tc_port :: string
  tc_remote_address :: string
  tc_user :: string
  tc_attributes :: "(octet \<times> string) list"

definition encode_tacacs_accounting_request :: "tacacs_header \<Rightarrow> tacacs_accounting_request \<Rightarrow> octet list" where
  "encode_tacacs_accounting_request h request =
     encode_tacacs_header h @
     fold (\<lambda>(key, value) buf. push_tacacs_string (buf @ [key]) value) (tc_attributes request)
       (fold (\<lambda>v buf. push_tacacs_string buf v)
         [tc_service request, tc_port request, tc_remote_address request, tc_user request]
         [tc_flags request, tc_privilege_level request, tc_authentication_type request])"

record tacacs_authorization_request =
  tz_authentication_action :: octet
  tz_privilege_level :: octet
  tz_authentication_type :: octet
  tz_service :: string
  tz_port :: string
  tz_remote_address :: string
  tz_user :: string
  tz_arguments :: "(octet \<times> string) list"

definition encode_tacacs_authorization_request :: "tacacs_header \<Rightarrow> tacacs_authorization_request \<Rightarrow> octet list" where
  "encode_tacacs_authorization_request h request =
     encode_tacacs_header h @
     fold (\<lambda>(key, value) buf. push_tacacs_string (buf @ [key]) value) (tz_arguments request)
       (fold (\<lambda>v buf. push_tacacs_string buf v)
         [tz_service request, tz_port request, tz_remote_address request, tz_user request]
         [tz_authentication_action request, tz_privilege_level request, tz_authentication_type request])"

definition pad_source :: "octet list \<Rightarrow> u32 \<Rightarrow> octet \<Rightarrow> octet \<Rightarrow> octet list" where
  "pad_source key session_id version sequence_number =
     be32 session_id @ [version] @ [sequence_number] @ key"

text \<open>The pad grows until it covers the body; how fast depends on the digest.\<close>

partial_function (option) grow_pad ::
  "(octet list \<Rightarrow> octet list) \<Rightarrow> octet list \<Rightarrow> nat \<Rightarrow> octet list option" where
  "grow_pad md5 pad n = (if length pad < n then grow_pad md5 (pad @ md5 pad) n else Some pad)"

definition tacacs_obfuscate_body ::
  "(octet list \<Rightarrow> octet list) \<Rightarrow> octet list \<Rightarrow> octet list \<Rightarrow> u32 \<Rightarrow> octet \<Rightarrow> octet \<Rightarrow> octet list run" where
  "tacacs_obfuscate_body md5 body key session_id version sequence_number =
     (if 65535 < length body
      then Some (Inl (Crypto (''TACACS+ body length '' @ decimal (length body) @ '' exceeds maximum 65535'')))
      else do {
        pad \<leftarrow> grow_pad md5 (md5 (pad_source key session_id version sequence_number)) (length body);
        Some (Inr (map2 Bit_Operations.xor body (take (length body) pad)))
      })"

definition tacacs_deobfuscate_body ::
  "(octet list \<Rightarrow> octet list) \<Rightarrow> octet list \<Rightarrow> octet list \<Rightarrow> u32 \<Rightarrow> octet \<Rightarrow> octet \<Rightarrow> octet list run" where
  "tacacs_deobfuscate_body = tacacs_obfuscate_body"

definition tacacs_packet_checksum ::
  "(octet list \<Rightarrow> octet list) \<Rightarrow> octet list \<Rightarrow> octet list \<Rightarrow> u32 \<Rightarrow> octet \<Rightarrow> octet \<Rightarrow> octet list" where
  "tacacs_packet_checksum md5 body key session_id version sequence_number =
     (let pad_len = (16 - (length body mod 16)) mod 16
      in md5 (pad_source key session_id version sequence_number @ body @ replicate pad_len 0))"

section \<open>Network access identifiers\<close>

record nai =
  nai_user :: string
  nai_realm :: "string option"

fun rfind :: "char \<Rightarrow> string \<Rightarrow> nat option" where
  "rfind c [] = None"
| "rfind c (x # xs) =
     (case rfind c xs of Some i \<Rightarrow> Some (Suc i) | None \<Rightarrow> if x = c then Some 0 else None)"

definition parse_nai :: "string \<Rightarrow> nai" where
  "parse_nai input =
     (let input = trim input in
      case rfind (CHR ''@'') input of
        Some i \<Rightarrow> \<lparr> nai_user = take i input,
                      nai_realm = (if i + 1 < length input then Some (drop (i + 1) input) else None) \<rparr>
      | None \<Rightarrow> \<lparr> nai_user = input, nai_realm = None \<rparr>)"

section \<open>The RADIUS handlers\<close>

definition USER_NAME :: octet where "USER_NAME = 1"
definition REPLY_MESSAGE :: octet where "REPLY_MESSAGE = 18"
definition SESSION_TIMEOUT :: octet where "SESSION_TIMEOUT = 27"
definition EAP_MESSAGE :: octet where "EAP_MESSAGE = 79"

datatype radius_access_decision =
    Accept string "u32 option"
  | Reject string

type_synonym authorizer = "string \<Rightarrow> radius_packet \<Rightarrow> radius_access_decision"

text \<open>The walk over the raw attributes; it trusts the lengths it reads.\<close>

function find_offset :: "octet list \<Rightarrow> nat \<Rightarrow> nat \<Rightarrow> nat option option" where
  "find_offset packet total_len pos =
     (if pos + 1 < total_len then do {
        attr_type \<leftarrow> byte_at packet pos;
        attr_len \<leftarrow> byte_at packet (pos + 1);
        if unat attr_len < 2 then Some None
        else if attr_type = 80 \<and> unat attr_len = 34 then Some (Some (pos + 2))
        else find_offset packet total_len (pos + unat attr_len)
      }
      else Some None)"
  by pat_completeness auto

termination
  by (relation "measure (\<lambda>(packet, total_len, pos). total_len - pos)") auto

declare find_offset.simps [simp del]

definition find_message_authenticator_offset :: "octet list \<Rightarrow> nat option option" where
  "find_message_authenticator_offset packet =
     (if length packet < 20 then Some None
      else do {
        hi \<leftarrow> byte_at packet 2;
        lo \<leftarrow> byte_at packet 3;
        let total_len = unat (from_be16 hi lo) in
        if length packet < total_len then Some None else find_offset packet total_len 20
      })"

definition encode_radius_packet_with_code ::
  "octet \<Rightarrow> octet list \<Rightarrow> radius_code \<Rightarrow> (octet \<times> octet list) list \<Rightarrow> octet list" where
  "encode_radius_packet_with_code identifier authenticator code attributes =
     (let body_len = sum_list (map (\<lambda>(_, value). length value + 2) attributes);
          total_len = 20 + body_len
      in radius_as_byte code # identifier # be16 (of_nat total_len) @ authenticator @
         concat (map (\<lambda>(kind, value). encode_attribute kind value) attributes))"

definition encode_radius_response ::
  "mac \<Rightarrow> octet \<Rightarrow> octet list \<Rightarrow> radius_code \<Rightarrow> (octet \<times> octet list) list \<Rightarrow> octet list \<Rightarrow> octet list option" where
  "encode_radius_response hmac identifier request_authenticator code attributes secret =
     (let buf = encode_radius_packet_with_code identifier (replicate 16 0) code attributes in do {
        body \<leftarrow> slice buf 4 (length buf);
        before \<leftarrow> slice buf 0 4;
        after \<leftarrow> slice buf 20 (length buf);
        Some (before @ radius_response_authenticator hmac secret request_authenticator body @ after)
      })"

definition decide_radius_response ::
  "string \<Rightarrow> radius_packet \<Rightarrow> authorizer \<Rightarrow> radius_code \<times> (octet \<times> octet list) list" where
  "decide_radius_response user_name request authorizer =
     (if user_name = [] then (AccessReject, [(REPLY_MESSAGE, octets_of ''missing user-name'')])
      else case authorizer user_name request of
        Accept reply_message timeout \<Rightarrow>
          (AccessAccept,
           (case timeout of None \<Rightarrow> [] | Some t \<Rightarrow> [(SESSION_TIMEOUT, be32 t)]) @
           [(REPLY_MESSAGE, octets_of reply_message)] @
           map (\<lambda>attr. (EAP_MESSAGE,
                  [eap_as_byte EapSuccess, (if 1 < length (attr_value attr) then attr_value attr ! 1 else 0), 0, 4]))
             (filter (\<lambda>attr. attr_kind attr = EAP_MESSAGE) (rp_attributes request)))
      | Reject reply_message \<Rightarrow> (AccessReject, [(REPLY_MESSAGE, octets_of reply_message)]))"

text \<open>The check of the Message-Authenticator, shared by the access and the accounting handler.\<close>

definition check_message_authenticator ::
  "mac \<Rightarrow> octet list \<Rightarrow> octet list \<Rightarrow> string \<Rightarrow> unit run" where
  "check_message_authenticator hmac secret request_bytes mismatch = do {
     found \<leftarrow> find_message_authenticator_offset request_bytes;
     case found of
       None \<Rightarrow> Some (Inr ())
     | Some offset \<Rightarrow> do {
         expected \<leftarrow> slice request_bytes offset (offset + 32);
         on_ok (verify_radius_message_authenticator hmac secret request_bytes offset expected)
           (\<lambda>ok. if ok then Some (Inr ()) else Some (Inl (Unauthorized mismatch)))
       }
   }"

definition request_user_name :: "radius_packet \<Rightarrow> string" where
  "request_user_name request =
     (case find (\<lambda>attr. attr_kind attr = USER_NAME) (rp_attributes request) of
        None \<Rightarrow> []
      | Some attr \<Rightarrow> (case from_utf8 (attr_value attr) of None \<Rightarrow> [] | Some name \<Rightarrow> name))"

definition handle_radius_access_request_bytes_with_authorizer ::
  "mac \<Rightarrow> octet list \<Rightarrow> octet list \<Rightarrow> authorizer \<Rightarrow> octet list run" where
  "handle_radius_access_request_bytes_with_authorizer hmac request_bytes secret authorizer =
     on_ok (parse_radius_packet request_bytes) (\<lambda>request.
       if \<not> verify_radius_request_authenticator hmac secret request request_bytes
       then Some (Inl (Unauthorized ''RADIUS request authenticator mismatch''))
       else on_ok (check_message_authenticator hmac secret request_bytes
                ''RADIUS Message-Authenticator mismatch'') (\<lambda>_.
         let (code, attributes) = decide_radius_response (request_user_name request) request authorizer in
         map_option Inr (encode_radius_response hmac (rp_identifier request) (rp_authenticator request)
           code attributes secret)))"

definition handle_radius_access_request_bytes :: "mac \<Rightarrow> octet list \<Rightarrow> octet list \<Rightarrow> octet list run" where
  "handle_radius_access_request_bytes hmac request_bytes secret =
     handle_radius_access_request_bytes_with_authorizer hmac request_bytes secret
       (\<lambda>_ _. Reject ''RADIUS access policy is not configured'')"

definition handle_radius_accounting_request :: "mac \<Rightarrow> octet list \<Rightarrow> octet list \<Rightarrow> octet list run" where
  "handle_radius_accounting_request hmac request_bytes secret =
     on_ok (parse_radius_packet request_bytes) (\<lambda>request.
       if rp_code request \<noteq> AccountingRequest then bad_request ''not an Accounting-Request packet''
       else if \<not> verify_radius_request_authenticator hmac secret request request_bytes
       then Some (Inl (Unauthorized ''RADIUS accounting request authenticator mismatch''))
       else on_ok (check_message_authenticator hmac secret request_bytes
                ''RADIUS accounting Message-Authenticator mismatch'') (\<lambda>_.
         map_option Inr (encode_radius_response hmac (rp_identifier request) (rp_authenticator request)
           AccountingResponse [] secret)))"

definition handle_radius_coa_request :: "mac \<Rightarrow> octet list \<Rightarrow> octet list \<Rightarrow> octet list run" where
  "handle_radius_coa_request hmac request_bytes secret =
     on_ok (parse_radius_packet request_bytes) (\<lambda>request.
       if rp_code request \<noteq> CoARequest \<and> rp_code request \<noteq> DisconnectRequest
       then bad_request ''not a CoA/Disconnect-Request packet''
       else if \<not> verify_radius_request_authenticator hmac secret request request_bytes
       then Some (Inl (Unauthorized ''RADIUS CoA request authenticator mismatch''))
       else map_option Inr (encode_radius_response hmac (rp_identifier request) (rp_authenticator request)
           (if rp_code request = CoARequest then CoAACK else DisconnectACK) [] secret))"

section \<open>Buffers and integers\<close>

lemma byte_at_Some [simp]: "i < length bs \<Longrightarrow> byte_at bs i = Some (bs ! i)"
  by (simp add: byte_at_def)

lemma slice_Some [simp]: "a \<le> b \<Longrightarrow> b \<le> length bs \<Longrightarrow> slice bs a b = Some (take (b - a) (drop a bs))"
  by (simp add: slice_def)

lemma on_ok_simps [simp]:
  "on_ok (Some (Inr a)) f = f a" "on_ok (Some (Inl e)) f = Some (Inl e)"
  by (simp_all add: on_ok_def)

lemma on_ok_ok: "on_ok m f = Some (Inr b) \<longleftrightarrow> (\<exists>a. m = Some (Inr a) \<and> f a = Some (Inr b))"
  by (auto simp: on_ok_def split: option.splits sum.splits)

lemma on_ok_returns: "m \<noteq> None \<Longrightarrow> (\<And>a. m = Some (Inr a) \<Longrightarrow> f a \<noteq> None) \<Longrightarrow> on_ok m f \<noteq> None"
  by (auto simp: on_ok_def split: option.splits sum.splits)

lemma if_returns: "x \<noteq> None \<Longrightarrow> y \<noteq> None \<Longrightarrow> (if b then x else y) \<noteq> None"
  by simp

lemma bad_request_simps [simp]: "bad_request msg \<noteq> None" "bad_request msg \<noteq> Some (Inr a)"
  by (simp_all add: bad_request_def)

lemma unat_octet: "unat (of_nat n :: octet) = n mod 256"
  by (simp add: unat_of_nat)

lemma unat_octet_less [simp]: "unat (b :: octet) < 256"
  using unat_bound [of b] by simp

lemma length_be16 [simp]: "length (be16 w) = 2"
  by (simp add: be16_def)

lemma length_be32 [simp]: "length (be32 w) = 4"
  by (simp add: be32_def)

lemma unat_u16: "unat (of_nat n :: u16) = n mod 65536"
  by (simp add: unat_of_nat)

lemma from_be16_be16:
  fixes w :: u16
  shows "from_be16 (of_nat (unat w div 256)) (of_nat (unat w)) = w"
proof -
  have "unat w < 65536" using unat_bound [of w] by simp
  hence "unat w div 256 mod 256 * 256 + unat w mod 256 = unat w" by (simp add: div_mult_mod_eq)
  hence "of_nat (unat w div 256 mod 256 * 256 + unat w mod 256) = (of_nat (unat w) :: u16)" by (rule arg_cong)
  thus ?thesis unfolding from_be16_def unat_octet by (simp only: of_nat_unat ucast_id)
qed

lemma unat_from_be16: "unat (from_be16 a b) = unat a * 256 + unat b"
proof -
  have "unat a * 256 + unat b < 65536"
    using unat_octet_less [of a] unat_octet_less [of b] by linarith
  thus ?thesis by (simp add: from_be16_def unat_u16 del: of_nat_add of_nat_mult)
qed

lemma be16_from_be16: "be16 (from_be16 a b) = [a, b]"
  by (simp add: be16_def unat_from_be16 word_unat_eq_iff unat_octet del: of_nat_add of_nat_mult)

lemma from_be32_be32:
  fixes w :: u32
  shows "from_be32 (of_nat (unat w div 16777216)) (of_nat (unat w div 65536)) (of_nat (unat w div 256)) (of_nat (unat w)) = w"
proof -
  let ?n = "unat w"
  have small: "?n < 4294967296" using unat_bound [of w] by simp
  have div: "?n div 65536 = ?n div 256 div 256" "?n div 16777216 = ?n div 256 div 256 div 256"
    by (simp_all add: div_mult2_eq [symmetric])
  have "?n div 256 div 256 div 256 < 256" using small by (simp add: div_mult2_eq [symmetric] less_mult_imp_div_less)
  hence top: "?n div 256 div 256 div 256 mod 256 = ?n div 256 div 256 div 256" by (rule mod_less)
  have "unat w div 16777216 mod 256 * 16777216 + unat w div 65536 mod 256 * 65536 +
      unat w div 256 mod 256 * 256 + unat w mod 256 = unat w"
    unfolding div top
    using div_mult_mod_eq [of ?n 256] div_mult_mod_eq [of "?n div 256" 256] div_mult_mod_eq [of "?n div 256 div 256" 256]
    by linarith
  hence "of_nat (unat w div 16777216 mod 256 * 16777216 + unat w div 65536 mod 256 * 65536 +
      unat w div 256 mod 256 * 256 + unat w mod 256) = (of_nat (unat w) :: u32)" by (rule arg_cong)
  thus ?thesis unfolding from_be32_def unat_octet by (simp only: of_nat_unat ucast_id)
qed

section \<open>Attributes\<close>

abbreviation encode_attr :: "radius_attribute \<Rightarrow> octet list" where
  "encode_attr a \<equiv> encode_attribute (attr_kind a) (attr_value a)"

lemma length_encode_attribute [simp]: "length (encode_attribute k v) = length v + 2"
  by (simp add: encode_attribute_def)

lemma length_encode_attrs:
  "length (concat (map encode_attr as)) = sum_list (map (\<lambda>a. length (attr_value a) + 2) as)"
  by (induction as) auto

lemma parse_attributes_step:
  assumes "cursor + 2 \<le> len" "len \<le> length bs" "unat (bs ! (cursor + 1)) = l" "2 \<le> l" "cursor + l \<le> len"
  shows "parse_attributes bs len cursor = on_ok (parse_attributes bs len (cursor + l))
    (\<lambda>rest. Some (Inr (\<lparr> attr_kind = bs ! cursor, attr_value = take (l - 2) (drop (cursor + 2) bs) \<rparr> # rest)))"
proof -
  have i: "cursor < len" "\<not> len < cursor + 2" "\<not> (l < 2 \<or> len < cursor + l)" using assms by auto
  have b: "byte_at bs cursor = Some (bs ! cursor)" "byte_at bs (cursor + 1) = Some (bs ! (cursor + 1))"
    "slice bs (cursor + 2) (cursor + l) = Some (take (l - 2) (drop (cursor + 2) bs))"
    using assms by simp_all
  show ?thesis
    by (subst parse_attributes.simps) (simp only: i b assms(3) if_True if_False Option.bind.simps refl)
qed

lemma parse_attributes_encode:
  assumes "\<forall>a\<in>set as. length (attr_value a) \<le> 253"
  shows "parse_attributes (pre @ concat (map encode_attr as)) (length pre + length (concat (map encode_attr as)))
    (length pre) = Some (Inr as)"
  using assms
proof (induction as arbitrary: pre)
  case Nil
  thus ?case by (subst parse_attributes.simps) simp
next
  case (Cons a as)
  let ?l = "length (attr_value a) + 2" and ?rest = "concat (map encode_attr as)"
  let ?bs = "pre @ encode_attr a @ ?rest"
  have small: "?l < 256" using Cons.prems by simp
  have nth: "?bs ! length pre = attr_kind a" "?bs ! (length pre + 1) = of_nat ?l"
    by (simp_all add: nth_append encode_attribute_def)
  have l: "unat (?bs ! (length pre + 1)) = ?l" unfolding nth(2) unat_octet using small by simp
  have val: "take (?l - 2) (drop (length pre + 2) ?bs) = attr_value a"
    by (simp add: encode_attribute_def)
  have "parse_attributes ?bs (length pre + (?l + length ?rest)) (length pre + ?l) = Some (Inr as)"
    using Cons.IH [of "pre @ encode_attr a"] Cons.prems by (simp add: add.assoc)
  moreover have "parse_attributes ?bs (length pre + (?l + length ?rest)) (length pre) =
      on_ok (parse_attributes ?bs (length pre + (?l + length ?rest)) (length pre + ?l))
        (\<lambda>rest. Some (Inr (\<lparr> attr_kind = ?bs ! length pre,
           attr_value = take (?l - 2) (drop (length pre + 2) ?bs) \<rparr> # rest)))"
    by (rule parse_attributes_step [OF _ _ l]) simp_all
  ultimately have "parse_attributes ?bs (length pre + (?l + length ?rest)) (length pre) = Some (Inr (a # as))"
    unfolding nth(1) val by simp
  thus ?case by simp
qed

lemma parse_attributes_cases:
  assumes len: "len \<le> length bs" and c: "cursor < len"
  obtains (stop) e where "parse_attributes bs len cursor = Some (Inl e)"
  | (next_attr) l where "cursor + 2 \<le> len" "unat (bs ! (cursor + 1)) = l" "2 \<le> l" "cursor + l \<le> len"
      "parse_attributes bs len cursor = on_ok (parse_attributes bs len (cursor + l))
         (\<lambda>rest. Some (Inr (\<lparr> attr_kind = bs ! cursor, attr_value = take (l - 2) (drop (cursor + 2) bs) \<rparr> # rest)))"
proof (cases "len < cursor + 2 \<or> unat (bs ! (cursor + 1)) < 2 \<or> len < cursor + unat (bs ! (cursor + 1))")
  case True
  hence "\<exists>e. parse_attributes bs len cursor = Some (Inl e)"
    using assms by (subst parse_attributes.simps) (auto simp: bad_request_def)
  thus ?thesis using stop by blast
next
  case False
  hence *: "cursor + 2 \<le> len" "2 \<le> unat (bs ! (cursor + 1))" "cursor + unat (bs ! (cursor + 1)) \<le> len" by auto
  show ?thesis
    by (rule next_attr [OF *(1) refl *(2,3) parse_attributes_step [OF *(1) len refl *(2,3)]])
qed

lemma parse_attributes_returns:
  "len \<le> length bs \<Longrightarrow> parse_attributes bs len cursor \<noteq> None"
proof (induction "len - cursor" arbitrary: cursor rule: less_induct)
  case less
  show ?case
  proof (cases "cursor < len")
    case True
    from less.prems True show ?thesis
    proof (cases rule: parse_attributes_cases)
      case (next_attr l)
      have "parse_attributes bs len (cursor + l) \<noteq> None"
        using less.hyps [of "cursor + l"] less.prems True next_attr(3) by simp
      thus ?thesis unfolding next_attr(5) by (rule on_ok_returns) simp
    qed simp
  qed (subst parse_attributes.simps, simp)
qed

lemma parse_attributes_inverse:
  "len \<le> length bs \<Longrightarrow> cursor \<le> len \<Longrightarrow> parse_attributes bs len cursor = Some (Inr as) \<Longrightarrow>
     concat (map encode_attr as) = take (len - cursor) (drop cursor bs) \<and>
     (\<forall>a\<in>set as. length (attr_value a) \<le> 253)"
proof (induction "len - cursor" arbitrary: cursor as rule: less_induct)
  case less
  show ?case
  proof (cases "cursor < len")
    case True
    from less.prems(1) True show ?thesis
    proof (cases rule: parse_attributes_cases)
      case (next_attr l)
      let ?a = "\<lparr> attr_kind = bs ! cursor, attr_value = take (l - 2) (drop (cursor + 2) bs) \<rparr>"
      obtain rest where rest: "parse_attributes bs len (cursor + l) = Some (Inr rest)" "as = ?a # rest"
        using less.prems(3) unfolding next_attr(5) by (auto simp: on_ok_ok)
      have ih: "concat (map encode_attr rest) = take (len - (cursor + l)) (drop (cursor + l) bs)"
        "\<forall>a\<in>set rest. length (attr_value a) \<le> 253"
        using less.hyps [OF _ less.prems(1) next_attr(4) rest(1)] next_attr(3) True by simp_all
      have l: "l < 256" using next_attr(2) unat_octet_less by blast
      obtain m where m: "l = Suc (Suc m)" using next_attr(3) by (auto simp: numeral_2_eq_2 le_iff_add)
      have "encode_attr ?a = take l (drop cursor bs)"
      proof -
        have "drop cursor bs = bs ! cursor # bs ! (cursor + 1) # drop (cursor + 2) bs"
          using less.prems(1) next_attr(1) by (simp add: Cons_nth_drop_Suc)
        moreover have "of_nat (length (take (l - 2) (drop (cursor + 2) bs)) + 2) = bs ! (cursor + 1)"
          using less.prems(1) next_attr(2,3,4) by (simp add: word_unat_eq_iff unat_octet l del: of_nat_add)
        ultimately show ?thesis
          by (simp add: encode_attribute_def m)
      qed
      moreover have "take (len - cursor) (drop cursor bs) =
          take l (drop cursor bs) @ take (len - (cursor + l)) (drop (cursor + l) bs)"
        using next_attr(4) take_add [of l "len - (cursor + l)" "drop cursor bs"]
        by (simp add: add.commute)
      ultimately show ?thesis using ih rest(2) l next_attr(3) by simp
    qed (use less.prems in simp)
  next
    case False
    thus ?thesis using less.prems by (simp add: parse_attributes.simps)
  qed
qed

section \<open>Packets\<close>

text \<open>
  A packet the wire format can carry: a full authenticator, values that fit their length
  octet, a total that fits the length field, and a code in the form the parser produces.
\<close>

definition radius_wf :: "radius_packet \<Rightarrow> bool" where
  "radius_wf p \<longleftrightarrow> length (rp_authenticator p) = 16 \<and>
     (\<forall>a\<in>set (rp_attributes p). length (attr_value a) \<le> 253) \<and>
     20 + sum_list (map (\<lambda>a. length (attr_value a) + 2) (rp_attributes p)) < 65536 \<and>
     radius_from_byte (radius_as_byte (rp_code p)) = rp_code p"

lemma radius_as_from_byte [simp]: "radius_as_byte (radius_from_byte b) = b"
  by (simp add: radius_from_byte_def)

text \<open>The header of a buffer of at least twenty octets.\<close>

definition declared_length :: "octet list \<Rightarrow> nat" where
  "declared_length bs = unat (from_be16 (bs ! 2) (bs ! 3))"

lemma parse_radius_packet_unfold:
  assumes "20 \<le> length bs" "declared_length bs \<le> length bs"
  shows "parse_radius_packet bs = on_ok (parse_attributes bs (declared_length bs) 20) (\<lambda>attributes.
    Some (Inr \<lparr> rp_code = radius_from_byte (bs ! 0), rp_identifier = bs ! 1,
      rp_authenticator = take 16 (drop 4 bs), rp_attributes = attributes \<rparr>))"
proof -
  have "byte_at bs 0 = Some (bs ! 0)" "byte_at bs 1 = Some (bs ! 1)" "byte_at bs 2 = Some (bs ! 2)"
    "byte_at bs 3 = Some (bs ! 3)" "slice bs 4 20 = Some (take 16 (drop 4 bs))"
    using assms(1) by (auto simp: byte_at_def slice_def)
  moreover have "\<not> length bs < 20" "\<not> length bs < unat (from_be16 (bs ! 2) (bs ! 3))"
    using assms by (simp_all add: declared_length_def)
  ultimately show ?thesis by (simp add: parse_radius_packet_def declared_length_def Let_def)
qed

lemma parse_radius_packet_Inr:
  assumes "parse_radius_packet bs = Some (Inr p)"
  shows "20 \<le> length bs" "declared_length bs \<le> length bs"
    "parse_attributes bs (declared_length bs) 20 = Some (Inr (rp_attributes p))"
    "rp_code p = radius_from_byte (bs ! 0)" "rp_identifier p = bs ! 1" "rp_authenticator p = take 16 (drop 4 bs)"
proof -
  show len: "20 \<le> length bs"
    using assms by (cases "length bs < 20") (simp_all add: parse_radius_packet_def)
  show decl: "declared_length bs \<le> length bs"
    using assms len by (cases "length bs < declared_length bs") (simp_all add: parse_radius_packet_def declared_length_def)
  note eq = assms [unfolded parse_radius_packet_unfold [OF len decl]]
  thus "parse_attributes bs (declared_length bs) 20 = Some (Inr (rp_attributes p))"
    "rp_code p = radius_from_byte (bs ! 0)" "rp_identifier p = bs ! 1" "rp_authenticator p = take 16 (drop 4 bs)"
    by (auto simp: on_ok_ok)
qed

lemma parse_radius_packet_returns: "parse_radius_packet bs \<noteq> None"
proof (cases "20 \<le> length bs \<and> declared_length bs \<le> length bs")
  case True
  show ?thesis
    unfolding parse_radius_packet_unfold [OF conjunct1 [OF True] conjunct2 [OF True]]
    by (rule on_ok_returns) (use True parse_attributes_returns in auto)
next
  case False
  thus ?thesis
    by (auto simp: parse_radius_packet_def declared_length_def bad_request_def Let_def not_le)
qed

lemma encode_radius_packet_header:
  assumes "length (rp_authenticator p) = 16"
  shows "length (encode_radius_packet p) = 20 + length (concat (map encode_attr (rp_attributes p)))"
    "encode_radius_packet p ! 0 = radius_as_byte (rp_code p)" "encode_radius_packet p ! 1 = rp_identifier p"
    "take 16 (drop 4 (encode_radius_packet p)) = rp_authenticator p"
    "declared_length (encode_radius_packet p) = (20 + length (concat (map encode_attr (rp_attributes p)))) mod 65536"
proof -
  let ?n = "20 + length (concat (map encode_attr (rp_attributes p)))"
  have enc: "encode_radius_packet p = radius_as_byte (rp_code p) # rp_identifier p # be16 (of_nat ?n) @
      rp_authenticator p @ concat (map encode_attr (rp_attributes p))"
    unfolding encode_radius_packet_def Let_def length_encode_attrs by simp
  show "length (encode_radius_packet p) = ?n" "encode_radius_packet p ! 0 = radius_as_byte (rp_code p)"
    "encode_radius_packet p ! 1 = rp_identifier p" "take 16 (drop 4 (encode_radius_packet p)) = rp_authenticator p"
    using assms by (simp_all add: enc be16_def)
  have "encode_radius_packet p ! 2 = of_nat (unat (of_nat ?n :: u16) div 256)"
    "encode_radius_packet p ! 3 = of_nat (unat (of_nat ?n :: u16))"
    by (simp_all add: enc be16_def numeral_2_eq_2 numeral_3_eq_3)
  thus "declared_length (encode_radius_packet p) = ?n mod 65536"
    by (simp only: declared_length_def from_be16_be16) (rule unat_u16)
qed

section \<open>Handlers\<close>

text \<open>
  On a packet that parsed, the raw walk visits the same attributes, so it stays inside the
  packet and the slice of an offset it finds does too.
\<close>

lemma find_offset_returns:
  "len \<le> length bs \<Longrightarrow> parse_attributes bs len cursor = Some (Inr as) \<Longrightarrow>
     \<exists>found. find_offset bs len cursor = Some found \<and> (\<forall>i. found = Some i \<longrightarrow> i + 32 \<le> len)"
proof (induction "len - cursor" arbitrary: cursor as rule: less_induct)
  case less
  show ?case
  proof (cases "cursor < len")
    case True
    from less.prems(1) True show ?thesis
    proof (cases rule: parse_attributes_cases)
      case (next_attr l)
      obtain rest where rest: "parse_attributes bs len (cursor + l) = Some (Inr rest)"
        using less.prems(2) unfolding next_attr(5) by (auto simp: on_ok_ok)
      have ih: "\<exists>found. find_offset bs len (cursor + l) = Some found \<and> (\<forall>i. found = Some i \<longrightarrow> i + 32 \<le> len)"
        using less.hyps [OF _ less.prems(1) rest] next_attr(3) True by simp
      have "find_offset bs len cursor =
          (if bs ! cursor = 80 \<and> l = 34 then Some (Some (cursor + 2)) else find_offset bs len (cursor + l))"
        using less.prems(1) next_attr(1-4) by (subst find_offset.simps) simp
      thus ?thesis using ih next_attr(4) by auto
    qed (use less.prems in simp)
  qed (subst find_offset.simps, simp)
qed

lemma find_message_authenticator_offset_returns:
  assumes "parse_radius_packet bs = Some (Inr p)"
  shows "\<exists>found. find_message_authenticator_offset bs = Some found \<and> (\<forall>i. found = Some i \<longrightarrow> i + 32 \<le> length bs)"
proof -
  note p = parse_radius_packet_Inr [OF assms]
  have "byte_at bs 2 = Some (bs ! 2)" "byte_at bs 3 = Some (bs ! 3)" using p(1) by (simp_all add: byte_at_def)
  hence "find_message_authenticator_offset bs = find_offset bs (declared_length bs) 20"
    using p(1,2) by (simp add: find_message_authenticator_offset_def declared_length_def Let_def)
  thus ?thesis using find_offset_returns [OF p(2,3)] p(2) by fastforce
qed

lemma check_message_authenticator_returns:
  assumes "parse_radius_packet bs = Some (Inr p)"
  shows "check_message_authenticator hmac secret bs msg \<noteq> None"
proof -
  obtain found where found: "find_message_authenticator_offset bs = Some found"
    "\<forall>i. found = Some i \<longrightarrow> i + 32 \<le> length bs"
    using find_message_authenticator_offset_returns [OF assms] by blast
  have "on_ok (verify_radius_message_authenticator hmac secret bs i e) f \<noteq> None"
    if "i + 32 \<le> length bs" "\<And>ok. f ok \<noteq> None" for i e and f :: "bool \<Rightarrow> unit run"
    using that by (auto simp: verify_radius_message_authenticator_def radius_message_authenticator_def)
  thus ?thesis using found by (auto simp: check_message_authenticator_def split: option.splits)
qed

lemma encode_response_code:
  "encode_radius_response hmac identifier ra code attributes secret =
     Some (radius_as_byte code # identifier #
       (let body = be16 (of_nat (20 + sum_list (map (\<lambda>(_, value). length value + 2) attributes))) @
                   replicate 16 0 @ concat (map (\<lambda>(kind, value). encode_attribute kind value) attributes)
        in take 2 body @ take 16 (hmac secret (ra @ drop 2 body)) @ drop 18 body))"
proof -
  let ?n = "be16 (of_nat (20 + sum_list (map (\<lambda>(_, value). length value + 2) attributes)))"
  let ?attrs = "concat (map (\<lambda>(kind, value). encode_attribute kind value) attributes)"
  obtain a b where n: "?n = [a, b]" by (simp add: be16_def)
  show ?thesis
    unfolding encode_radius_response_def encode_radius_packet_with_code_def Let_def n
      radius_response_authenticator_def
    by (simp add: slice_def numeral_eq_Suc)
qed

lemma decide_accept:
  assumes "decide_radius_response name request authorizer = (code, attributes)"
    "radius_as_byte code = radius_as_byte AccessAccept"
  shows "name \<noteq> [] \<and> (\<exists>message timeout. authorizer name request = Accept message timeout)"
  using assms by (auto simp: decide_radius_response_def split: if_splits radius_access_decision.splits)

lemma verify_request_iff:
  "verify_radius_request_authenticator hmac secret p bs \<longleftrightarrow> take 16 (hmac secret bs) = rp_authenticator p"
proof -
  have "inj (\<lambda>b :: octet. byte (unat b))"
    by (rule inj_on_inverseI [where g = "\<lambda>c. of_nat (byte_val c)"]) (simp add: byte_def byte_val_def)
  hence "inj text_of" unfolding text_of_def by (rule inj_mapI)
  thus ?thesis by (simp add: verify_radius_request_authenticator_def constant_time_eq_def inj_eq)
qed

section \<open>Obfuscation\<close>

lemma grow_pad_returns:
  assumes "\<forall>m. 0 < length (md5 m)"
  shows "\<exists>pad'. grow_pad md5 pad n = Some pad' \<and> n \<le> length pad'"
proof (induction "n - length pad" arbitrary: pad rule: less_induct)
  case less
  show ?case
  proof (cases "length pad < n")
    case True
    have "n - length (pad @ md5 pad) < n - length pad" using assms True by (simp add: diff_less_mono2)
    from less [OF this] show ?thesis using True by (subst grow_pad.simps) simp
  qed (subst grow_pad.simps, simp)
qed

lemma xor_octets_twice:
  "length pad = length body \<Longrightarrow> map2 Bit_Operations.xor (map2 Bit_Operations.xor body pad) pad = (body :: octet list)"
  by (induction body pad rule: list_induct2') (simp_all add: xor.assoc)

lemma tacacs_header_round_trip:
  assumes "th_version h = tacacs_version" "tacacs_from_byte (tacacs_as_byte (th_type h)) = th_type h"
    "unat (th_length h) \<le> length body"
  shows "parse_tacacs_header (encode_tacacs_header h @ body) = Some (Inr h)"
proof -
  obtain s0 s1 s2 s3 where s: "be32 (th_session_id h) = [s0, s1, s2, s3]" "from_be32 s0 s1 s2 s3 = th_session_id h"
    unfolding be32_def by (blast intro: from_be32_be32)
  obtain l0 l1 l2 l3 where l: "be32 (th_length h) = [l0, l1, l2, l3]" "from_be32 l0 l1 l2 l3 = th_length h"
    unfolding be32_def by (blast intro: from_be32_be32)
  show ?thesis
    using assms s l
    by (simp add: parse_tacacs_header_def encode_tacacs_header_def tacacs_header_len_def byte_at_def Let_def numeral_eq_Suc)
qed

lemma parse_eap_frame_returns: "parse_eap_frame bs \<noteq> None"
proof (cases "length bs < 4")
  case False
  let ?len = "from_be16 (bs ! 2) (bs ! 3)"
  show ?thesis
  proof (cases "?len < 4 \<or> length bs < unat ?len")
    case True
    thus ?thesis using False by (auto simp: parse_eap_frame_def byte_at_def bad_request_def Let_def)
  next
    case len: False
    have five: "5 \<le> unat ?len" if "\<not> ?len < 5" using that by (simp add: not_less word_le_nat_alt)
    show ?thesis using False len five
      by (auto simp: parse_eap_frame_def byte_at_def slice_def bad_request_def Let_def on_ok_def)
  qed
qed (simp add: parse_eap_frame_def)

section \<open>Properties\<close>


definition example_packet :: radius_packet where
  "example_packet = \<lparr> rp_code = AccessRequest, rp_identifier = 9, rp_authenticator = replicate 16 7,
     rp_attributes = [\<lparr> attr_kind = USER_NAME, attr_value = octets_of ''alice'' \<rparr>] \<rparr>"


text \<open>
  C32. Obfuscation of a TACACS+ body returns for every body within the limit, whatever the
  digest as long as it is never empty, and deobfuscation with the same parameters gives the
  body back.
\<close>

theorem tacacs_obfuscation_round_trip:
  assumes "\<forall>m. 0 < length (md5 m)" "length body \<le> 65535"
  shows "\<exists>out. tacacs_obfuscate_body md5 body key sid v seq = Some (Inr out) \<and> length out = length body \<and>
    tacacs_deobfuscate_body md5 out key sid v seq = Some (Inr body)"
proof -
  obtain pad where pad: "grow_pad md5 (md5 (pad_source key sid v seq)) (length body) = Some pad" "length body \<le> length pad"
    using grow_pad_returns [OF assms(1)] by blast
  let ?out = "map2 Bit_Operations.xor body (take (length body) pad)"
  have len: "length ?out = length body" using pad(2) by simp
  have "tacacs_obfuscate_body md5 body key sid v seq = Some (Inr ?out)"
    using pad(1) assms(2) by (simp add: tacacs_obfuscate_body_def)
  moreover have "tacacs_deobfuscate_body md5 ?out key sid v seq = Some (Inr body)"
    using pad assms(2) len xor_octets_twice [of "take (length body) pad" body]
    by (simp add: tacacs_deobfuscate_body_def tacacs_obfuscate_body_def)
  ultimately show ?thesis using len by blast
qed

theorem tacacs_obfuscation_round_trip_witness:
  "\<exists>out. tacacs_obfuscate_body (\<lambda>m. replicate 16 90) (replicate 20 65) [1, 2] 5 193 1 = Some (Inr out) \<and>
     length out = 20 \<and>
     tacacs_deobfuscate_body (\<lambda>m. replicate 16 90) out [1, 2] 5 193 1 = Some (Inr (replicate 20 65))"
proof -
  have "\<forall>m. 0 < length ((\<lambda>m :: octet list. replicate 16 (90 :: octet)) m)" "length (replicate 20 (65 :: octet)) \<le> 65535"
    "length (replicate 20 (65 :: octet)) = 20"
    by simp_all
  thus ?thesis
    using tacacs_obfuscation_round_trip [of "\<lambda>m. replicate 16 90" "replicate 20 65" "[1, 2]" 5 193 1] by metis
qed

text \<open>
  C15. No datagram makes a RADIUS handler panic, whatever its octets and whatever the secret
  and the MAC function; and the access handler answers Access-Accept only when the
  datagram parses, carries the expected authenticator and a user name, and the authorizer
  accepts exactly this user and request.
\<close>

theorem radius_handlers_safe:
  "handle_radius_access_request_bytes_with_authorizer hmac bs secret authorizer \<noteq> None \<and>
   handle_radius_accounting_request hmac bs secret \<noteq> None \<and> handle_radius_coa_request hmac bs secret \<noteq> None \<and>
   (\<forall>rest. handle_radius_access_request_bytes_with_authorizer hmac bs secret authorizer
        = Some (Inr (radius_as_byte AccessAccept # rest)) \<longrightarrow>
      (\<exists>request message timeout. parse_radius_packet bs = Some (Inr request) \<and>
         verify_radius_request_authenticator hmac secret request bs \<and> request_user_name request \<noteq> [] \<and>
         authorizer (request_user_name request) request = Accept message timeout))"
proof (intro conjI allI impI)
  show "handle_radius_access_request_bytes_with_authorizer hmac bs secret authorizer \<noteq> None"
    unfolding handle_radius_access_request_bytes_with_authorizer_def
    by (intro on_ok_returns parse_radius_packet_returns if_returns;
        (erule check_message_authenticator_returns | simp add: encode_response_code split: prod.split))
  show "handle_radius_accounting_request hmac bs secret \<noteq> None"
    unfolding handle_radius_accounting_request_def
    by (intro on_ok_returns parse_radius_packet_returns if_returns;
        (erule check_message_authenticator_returns | simp add: encode_response_code))
  show "handle_radius_coa_request hmac bs secret \<noteq> None"
    unfolding handle_radius_coa_request_def
    by (intro on_ok_returns parse_radius_packet_returns if_returns; simp add: encode_response_code)
next
  fix rest
  assume "handle_radius_access_request_bytes_with_authorizer hmac bs secret authorizer
    = Some (Inr (radius_as_byte AccessAccept # rest))"
  then obtain request code attributes where
    req: "parse_radius_packet bs = Some (Inr request)"
      "verify_radius_request_authenticator hmac secret request bs"
      "decide_radius_response (request_user_name request) request authorizer = (code, attributes)"
      "radius_as_byte code = radius_as_byte AccessAccept"
    by (auto simp: handle_radius_access_request_bytes_with_authorizer_def on_ok_ok encode_response_code
        split: if_splits prod.splits)
  from decide_accept [OF req(3,4)] req(1,2)
  show "\<exists>request message timeout. parse_radius_packet bs = Some (Inr request) \<and>
         verify_radius_request_authenticator hmac secret request bs \<and> request_user_name request \<noteq> [] \<and>
         authorizer (request_user_name request) request = Accept message timeout"
    by blast
qed

definition example_mac :: mac where
  "example_mac secret m = replicate 32 7"

definition example_authorizer :: authorizer where
  "example_authorizer name request = (if name = ''alice'' then Accept ''ok'' None else Reject ''no'')"

lemma example_request_accepted:
  "\<exists>rest. handle_radius_access_request_bytes_with_authorizer example_mac (encode_radius_packet example_packet) []
     example_authorizer = Some (Inr (radius_as_byte AccessAccept # rest))"
proof -
  have "parse_radius_packet (encode_radius_packet example_packet) = Some (Inr example_packet)"
    by code_simp
  moreover have "verify_radius_request_authenticator example_mac [] example_packet (encode_radius_packet example_packet)"
    by code_simp
  moreover have "check_message_authenticator example_mac [] (encode_radius_packet example_packet)
      ''RADIUS Message-Authenticator mismatch'' = Some (Inr ())"
    by code_simp
  moreover have "fst (decide_radius_response (request_user_name example_packet) example_packet example_authorizer) = AccessAccept"
    by code_simp
  ultimately show ?thesis
    by (auto simp: handle_radius_access_request_bytes_with_authorizer_def encode_response_code split: prod.split)
qed

theorem radius_handlers_safe_witness:
  "(\<exists>rest. handle_radius_access_request_bytes_with_authorizer example_mac (encode_radius_packet example_packet) []
       example_authorizer = Some (Inr (radius_as_byte AccessAccept # rest))) \<and>
   (\<exists>request message timeout. parse_radius_packet (encode_radius_packet example_packet) = Some (Inr request) \<and>
      example_authorizer (request_user_name request) request = Accept message timeout)"
  using example_request_accepted
    radius_handlers_safe [of example_mac "encode_radius_packet example_packet" "[]" example_authorizer]
  by metis



text \<open>
  The response authenticator does not cover the code or the identifier of the response:
  all responses with the same attributes agree in every octet after the first two, the
  authenticator included, so a rejection becomes an acceptance by changing one octet.
\<close>

theorem response_authenticator_ignores_code:
  "\<exists>rest. \<forall>code identifier.
     encode_radius_response hmac identifier request_authenticator code attributes secret
       = Some (radius_as_byte code # identifier # rest)"
  unfolding encode_response_code by blast

end
