(* ===== verification/Qid_Handlers.thy ===== *)
theory Qid_Handlers
  imports Qid_Prelude
begin

text \<open>
  Request handlers as state transformers that stop at the first error. A handler takes the
  state of the service and returns a result with the state it leaves behind; an error keeps
  the changes made before it, as an early return of the code does.
\<close>

type_synonym ('s, 'a) handler = "'s \<Rightarrow> 'a result \<times> 's"

definition give :: "'a \<Rightarrow> ('s, 'a) handler" where
  "give a s = (Inr a, s)"

definition refuse :: "qid_error \<Rightarrow> ('s, 'a) handler" where
  "refuse e s = (Inl e, s)"

text \<open>The question-mark operator: an error ends the handler.\<close>

definition bind_act :: "('s, 'a) handler \<Rightarrow> ('a \<Rightarrow> ('s, 'b) handler) \<Rightarrow> ('s, 'b) handler" where
  "bind_act m f s = (case m s of (Inl e, s') \<Rightarrow> (Inl e, s') | (Inr a, s') \<Rightarrow> f a s')"

definition ignore_failure :: "('s, 'a) handler \<Rightarrow> ('s, unit) handler" where
  "ignore_failure m s = (Inr (), snd (m s))"

definition require :: "bool \<Rightarrow> qid_error \<Rightarrow> ('s, unit) handler" where
  "require b e = (if b then give () else refuse e)"

definition require_some :: "'a option \<Rightarrow> qid_error \<Rightarrow> ('s, 'a) handler" where
  "require_some x e = (case x of None \<Rightarrow> refuse e | Some a \<Rightarrow> give a)"

text \<open>A pure step that may fail, and a read of the state.\<close>

definition lift_result :: "'a result \<Rightarrow> ('s, 'a) handler" where
  "lift_result r s = (r, s)"

definition ask :: "('s \<Rightarrow> 'a result) \<Rightarrow> ('s, 'a) handler" where
  "ask f s = (f s, s)"

text \<open>A step whose error the caller inspects.\<close>

definition attempt :: "('s, 'a) handler \<Rightarrow> ('s, 'a result) handler" where
  "attempt m s = (Inr (fst (m s)), snd (m s))"

lemma bind_act_simps [simp]:
  "bind_act (give a) f s = f a s" "bind_act (refuse e) f s = (Inl e, s)"
  by (simp_all add: bind_act_def give_def refuse_def)

lemma bind_act_Inr:
  "bind_act m f s = (Inr b, s') \<longleftrightarrow> (\<exists>a s1. m s = (Inr a, s1) \<and> f a s1 = (Inr b, s'))"
  by (auto simp: bind_act_def split: prod.splits sum.splits)

lemma require_Inr [simp]: "require b e s = (Inr x, s') \<longleftrightarrow> b \<and> s' = s"
  by (auto simp: require_def give_def refuse_def)

lemma require_some_Inr [simp]: "require_some x e s = (Inr a, s') \<longleftrightarrow> x = Some a \<and> s' = s"
  by (auto simp: require_some_def give_def refuse_def split: option.splits)

lemma give_Inr [simp]: "give a s = (Inr b, s') \<longleftrightarrow> b = a \<and> s' = s"
  by (auto simp: give_def)

lemma refuse_Inr [simp]: "refuse e s \<noteq> (Inr b, s')"
  by (simp add: refuse_def)

lemma lift_result_Inr [simp]: "lift_result r s = (Inr a, s') \<longleftrightarrow> r = Inr a \<and> s' = s"
  by (auto simp: lift_result_def)

lemma ask_Inr [simp]: "ask f s = (Inr a, s') \<longleftrightarrow> f s = Inr a \<and> s' = s"
  by (auto simp: ask_def)

lemma attempt_Inr [simp]: "attempt m s = (Inr r, s') \<longleftrightarrow> m s = (r, s')"
  by (auto simp: attempt_def)

end
