(* ===== verification/Qid_Mfa.thy ===== *)
theory Qid_Mfa
  imports Qid_Models_Auth Qid_Handlers
begin

text \<open>
  The multi-factor primitives: the proofs of push devices of \<^verbatim>\<open>qid-mfa/src/push.rs\<close> and the
  enrolment plans and recovery codes of \<^verbatim>\<open>qid-mfa/src/lib.rs\<close>.

  Base64, SHA-256, CBOR and P-256 come from external crates and are the fields of \<^verbatim>\<open>crypto\<close>.
  What is used of them is named: a CBOR document determines its value, and distinct recovery
  codes have distinct digests.

  Shown below: a device proof that verifies is signed over every field that identifies the
  login and over the decision, so it cannot be replayed for another login, another device or
  the opposite decision; a recovery code works once; the percent encoding of an enrolment
  link loses nothing.
\<close>

section \<open>What the external crates provide\<close>

datatype cbor =
    CInteger int
  | CBytes "octet list"
  | CFloat nat
  | CText string
  | CBool bool
  | CNull
  | CTag nat cbor
  | CArray "cbor list"
  | CMap "(cbor \<times> cbor) list"

text \<open>
  \<^verbatim>\<open>cr_cbor_read\<close> parses one value from the front of its input and returns the rest. A P-256
  key is its SEC1 encoding and a signature its raw octets; both may be malformed.
\<close>

record crypto =
  cr_sha256_hex :: "string \<Rightarrow> string"
  cr_b64_encode :: "octet list \<Rightarrow> string"
  cr_b64_decode :: "string \<Rightarrow> octet list option"
  cr_cbor_write :: "cbor \<Rightarrow> octet list option"
  cr_cbor_read :: "octet list \<Rightarrow> (cbor \<times> octet list) option"
  cr_p256_key :: "octet list \<Rightarrow> bool"
  cr_p256_signature :: "octet list \<Rightarrow> bool"
  cr_p256_verify :: "octet list \<Rightarrow> octet list \<Rightarrow> octet list \<Rightarrow> bool"

section \<open>Push proofs\<close>

definition max_proof_bytes :: nat where
  "max_proof_bytes = 8192"

definition invalid_proof :: qid_error where
  "invalid_proof = BadRequest ''invalid push proof''"

definition coordinate :: "crypto \<Rightarrow> string \<Rightarrow> octet list result" where
  "coordinate cr v =
     (if length v \<noteq> 43 then Inl invalid_proof
      else and_then (ok_or invalid_proof (cr_b64_decode cr v)) (\<lambda>decoded.
        if length decoded \<noteq> 32 \<or> cr_b64_encode cr decoded \<noteq> v then Inl invalid_proof else Inr decoded))"

definition validate_public_key :: "crypto \<Rightarrow> push_public_jwk \<Rightarrow> octet list result" where
  "validate_public_key cr jwk =
     (case jwk of
        EC crv x y \<Rightarrow>
          if crv \<noteq> ''P-256'' then Inl invalid_proof
          else and_then (coordinate cr x) (\<lambda>xs.
               and_then (coordinate cr y) (\<lambda>ys.
               let sec1 = 4 # xs @ ys in if cr_p256_key cr sec1 then Inr sec1 else Inl invalid_proof))
      | _ \<Rightarrow> Inl invalid_proof)"

definition cbor_encode :: "crypto \<Rightarrow> cbor \<Rightarrow> octet list result" where
  "cbor_encode cr v = ok_or invalid_proof (cr_cbor_write cr v)"

definition cbor_decode :: "crypto \<Rightarrow> octet list \<Rightarrow> cbor result" where
  "cbor_decode cr bs =
     and_then (ok_or invalid_proof (cr_cbor_read cr bs)) (\<lambda>(v, rest).
       if rest \<noteq> [] then Inl invalid_proof else Inr v)"

definition nonce_matches :: "crypto \<Rightarrow> string \<Rightarrow> string \<Rightarrow> unit result" where
  "nonce_matches cr nonce verifier =
     (if length nonce \<noteq> 43 then Inl invalid_proof
      else and_then (ok_or invalid_proof (cr_b64_decode cr nonce)) (\<lambda>raw.
        if length raw \<noteq> 32 \<or> cr_b64_encode cr raw \<noteq> nonce
           \<or> \<not> constant_time_eq (cr_sha256_hex cr nonce) verifier
        then Inl invalid_proof else Inr ()))"

definition bounded_ids :: "string list \<Rightarrow> unit result" where
  "bounded_ids ids = (if list_ex (\<lambda>s. s = [] \<or> 256 < length s) ids then Inl invalid_proof else Inr ())"

definition registration_claims :: "crypto \<Rightarrow> push_authenticator \<Rightarrow> string \<Rightarrow> cbor" where
  "registration_claims cr a nonce =
     CArray [CText ''qid.push.registration.v1'', CText (pa_realm_id a), CText (pa_user_id a),
       CText ''registration'', CText (pa_id a), CText (pa_id a), CText nonce,
       CText (cr_sha256_hex cr (pa_destination a))]"

definition registration_payload :: "crypto \<Rightarrow> push_registration_challenge \<Rightarrow> string \<Rightarrow> octet list result" where
  "registration_payload cr c nonce =
     (let a = prc_authenticator c in
      and_then (bounded_ids [pa_realm_id a, pa_user_id a, pa_id a]) (\<lambda>_.
      if pa_destination a = [] \<or> 4096 < length (pa_destination a) then Inl invalid_proof
      else and_then (nonce_matches cr nonce (prc_nonce_verifier c)) (\<lambda>_.
        cbor_encode cr (registration_claims cr a nonce))))"

fun decision_text :: "push_decision \<Rightarrow> string" where
  "decision_text PushApprove = ''approve''"
| "decision_text PushDeny = ''deny''"

fun purpose_text :: "push_purpose \<Rightarrow> string" where
  "purpose_text PasswordLogin = ''password_login''"

definition login_claims :: "push_login_challenge \<Rightarrow> string \<Rightarrow> push_decision \<Rightarrow> cbor" where
  "login_claims c nonce decision =
     CArray [CText ''qid.push.login.v1'', CText (plc_realm_id c), CText (plc_user_id c),
       CText (purpose_text (plc_purpose c)), CText (plc_authenticator_id c), CText (plc_id c), CText nonce,
       CText (decision_text decision)]"

definition login_payload ::
  "crypto \<Rightarrow> push_login_challenge \<Rightarrow> string \<Rightarrow> push_decision \<Rightarrow> octet list result" where
  "login_payload cr c nonce decision =
     and_then (bounded_ids [plc_realm_id c, plc_user_id c, plc_authenticator_id c, plc_id c]) (\<lambda>_.
     and_then (nonce_matches cr nonce (plc_nonce_verifier c)) (\<lambda>_.
       cbor_encode cr (login_claims c nonce decision)))"

text \<open>The untagged \<^verbatim>\<open>COSE_Sign1\<close> with the one permitted header, and what its signature covers.\<close>

definition proof_parts :: "cbor \<Rightarrow> (octet list \<times> (cbor \<times> cbor) list \<times> octet list \<times> octet list) result" where
  "proof_parts v =
     (case v of
        CArray [CBytes protected, CMap unprotected, CBytes payload, CBytes signature] \<Rightarrow>
          Inr (protected, unprotected, payload, signature)
      | _ \<Rightarrow> Inl invalid_proof)"

definition signed_document :: "octet list \<Rightarrow> octet list \<Rightarrow> cbor" where
  "signed_document protected payload = CArray [CText ''Signature1'', CBytes protected, CBytes [], CBytes payload]"

definition check_parts ::
  "crypto \<Rightarrow> push_public_jwk \<Rightarrow> octet list \<Rightarrow> octet list \<Rightarrow> (cbor \<times> cbor) list \<Rightarrow> octet list \<Rightarrow> octet list \<Rightarrow> unit result" where
  "check_parts cr jwk expected protected unprotected payload signature =
     and_then (cbor_decode cr protected) (\<lambda>hv.
     case hv of
       CMap headers \<Rightarrow>
         if length headers \<noteq> 1 \<or> unprotected \<noteq> [] \<or> headers ! 0 \<noteq> (CInteger 1, CInteger (- 7))
            \<or> \<not> constant_time_eq payload expected
         then Inl invalid_proof
         else and_then (cbor_encode cr (signed_document protected payload)) (\<lambda>signed.
              if \<not> cr_p256_signature cr signature then Inl invalid_proof
              else and_then (validate_public_key cr jwk) (\<lambda>key.
                if cr_p256_verify cr key signed signature then Inr () else Inl invalid_proof))
     | _ \<Rightarrow> Inl invalid_proof)"

definition verify_proof :: "crypto \<Rightarrow> push_public_jwk \<Rightarrow> octet list \<Rightarrow> octet list \<Rightarrow> unit result" where
  "verify_proof cr jwk expected bs =
     (if bs = [] \<or> max_proof_bytes < length bs then Inl invalid_proof
      else and_then (cbor_decode cr bs) (\<lambda>v.
      and_then (proof_parts v) (\<lambda>(protected, unprotected, payload, signature).
        check_parts cr jwk expected protected unprotected payload signature)))"

definition verify_registration :: "crypto \<Rightarrow> push_registration_challenge \<Rightarrow> string \<Rightarrow> octet list \<Rightarrow> unit result" where
  "verify_registration cr c nonce bs =
     and_then (registration_payload cr c nonce) (\<lambda>expected.
       verify_proof cr (pa_public_jwk (prc_authenticator c)) expected bs)"

definition verify_login ::
  "crypto \<Rightarrow> push_login_challenge \<Rightarrow> push_authenticator \<Rightarrow> string \<Rightarrow> push_decision \<Rightarrow> octet list \<Rightarrow> unit result" where
  "verify_login cr c a nonce decision bs =
     (if pa_realm_id a \<noteq> plc_realm_id c \<or> pa_user_id a \<noteq> plc_user_id c \<or> pa_id a \<noteq> plc_authenticator_id c
         \<or> pa_revoked_at a \<noteq> None
      then Inl invalid_proof
      else and_then (login_payload cr c nonce decision) (\<lambda>expected.
        verify_proof cr (pa_public_jwk a) expected bs))"

section \<open>Enrolment plans\<close>

definition hex_upper :: "nat \<Rightarrow> char" where
  "hex_upper n = ''0123456789ABCDEF'' ! n"

definition unreserved :: "nat \<Rightarrow> bool" where
  "unreserved n \<longleftrightarrow> (65 \<le> n \<and> n \<le> 90) \<or> (97 \<le> n \<and> n \<le> 122) \<or> (48 \<le> n \<and> n \<le> 57)
     \<or> n = 45 \<or> n = 46 \<or> n = 95 \<or> n = 126"

definition percent_byte :: "char \<Rightarrow> string" where
  "percent_byte c = (let n = byte_val c in
     if unreserved n then [c] else [CHR ''%'', hex_upper (n div 16), hex_upper (n mod 16)])"

definition percent_encode :: "string \<Rightarrow> string" where
  "percent_encode s = concat (map percent_byte s)"

definition build_otpauth_url :: "string \<Rightarrow> string \<Rightarrow> string \<Rightarrow> u32 \<Rightarrow> u64 \<Rightarrow> string" where
  "build_otpauth_url issuer account_name secret digits period =
     ''otpauth://totp/'' @ percent_encode issuer @ '':'' @ percent_encode account_name @ ''?secret='' @ secret
     @ ''&issuer='' @ percent_encode issuer @ ''&algorithm=SHA1&digits='' @ decimal (unat digits)
     @ ''&period='' @ decimal (unat period)"

record totp_enrollment_plan =
  tep_credential :: totp_credential
  tep_otpauth_url :: string

definition create_totp_enrollment ::
  "string \<Rightarrow> string \<Rightarrow> string \<Rightarrow> string \<Rightarrow> string \<Rightarrow> u32 \<Rightarrow> u64 \<Rightarrow> u64 \<Rightarrow> totp_enrollment_plan result" where
  "create_totp_enrollment secret i user_id account_name issuer digits period created_at =
     (if trim account_name = [] then Inl (BadRequest ''TOTP account name must not be empty'')
      else if trim issuer = [] then Inl (BadRequest ''TOTP issuer must not be empty'')
      else if \<not> (6 \<le> digits \<and> digits \<le> 8) then Inl (BadRequest ''TOTP digits must be between 6 and 8'')
      else if period < 15 then Inl (BadRequest ''TOTP period must be at least 15 seconds'')
      else Inr \<lparr> tep_credential = \<lparr> totp_id = i, totp_user_id = user_id, totp_secret = secret, totp_algorithm = ''SHA1'',
                   totp_digits = digits, totp_period = period, totp_enabled = False, totp_last_used_step = None,
                   totp_created_at = created_at \<rparr>,
                 tep_otpauth_url = build_otpauth_url issuer account_name secret digits period \<rparr>)"

section \<open>Recovery codes\<close>

record recovery_code =
  rc_display_code :: string
  rc_code_hash :: string

definition recovery_alphabet :: string where
  "recovery_alphabet = ''23456789ABCDEFGHJKLMNPQRSTUVWXYZ''"

text \<open>Ten random octets written with a dash after the fifth.\<close>

definition generate_recovery_code :: "octet list \<Rightarrow> string" where
  "generate_recovery_code bs =
     (let cs = map (\<lambda>b. recovery_alphabet ! (unat b mod length recovery_alphabet)) bs
      in take 5 cs @ (if 5 < length cs then ''-'' else []) @ drop 5 cs)"

definition ascii_upper :: "char \<Rightarrow> char" where
  "ascii_upper c = (let n = byte_val c in if 97 \<le> n \<and> n \<le> 122 then byte (n - 32) else c)"

definition ascii_whitespace :: "char \<Rightarrow> bool" where
  "ascii_whitespace c \<longleftrightarrow> byte_val c \<in> {9, 10, 12, 13, 32}"

text \<open>\<^verbatim>\<open>upper\<close> is the upper-case mapping of Unicode, which on ASCII letters is \<^verbatim>\<open>ascii_upper\<close>.\<close>

definition normalize_recovery_code :: "(string \<Rightarrow> string) \<Rightarrow> string \<Rightarrow> string" where
  "normalize_recovery_code upper code = upper (filter (\<lambda>c. \<not> ascii_whitespace c \<and> c \<noteq> CHR ''-'') code)"

definition hash_recovery_code :: "(string \<Rightarrow> string) \<Rightarrow> crypto \<Rightarrow> string \<Rightarrow> string" where
  "hash_recovery_code upper cr code = cr_sha256_hex cr (normalize_recovery_code upper code)"

definition recovery_code_of :: "(string \<Rightarrow> string) \<Rightarrow> crypto \<Rightarrow> string \<Rightarrow> recovery_code" where
  "recovery_code_of upper cr display_code =
     \<lparr> rc_display_code = display_code, rc_code_hash = hash_recovery_code upper cr display_code \<rparr>"

text \<open>
  The loop draws until it has enough distinct codes; \<^verbatim>\<open>draw n\<close> is the n-th reading of the random
  generator, so a generator that repeats itself would keep the loop going.
\<close>

partial_function (option) fill_codes ::
  "(string \<Rightarrow> string) \<Rightarrow> crypto \<Rightarrow> (nat \<Rightarrow> octet list) \<Rightarrow> nat \<Rightarrow> nat \<Rightarrow> string set \<Rightarrow> recovery_code list
     \<Rightarrow> recovery_code list option" where
  "fill_codes upper cr draw n count seen codes =
     (if length codes < count then
        let display_code = generate_recovery_code (draw n) in
        if display_code \<notin> seen
        then fill_codes upper cr draw (n + 1) count (insert display_code seen)
               (codes @ [recovery_code_of upper cr display_code])
        else fill_codes upper cr draw (n + 1) count seen codes
      else Some codes)"

definition generate_batch ::
  "(string \<Rightarrow> string) \<Rightarrow> crypto \<Rightarrow> (nat \<Rightarrow> octet list) \<Rightarrow> nat \<Rightarrow> recovery_code list result option" where
  "generate_batch upper cr draw count =
     (if \<not> (1 \<le> count \<and> count \<le> 24)
      then Some (Inl (BadRequest ''recovery code count must be between 1 and 24''))
      else map_option Inr (fill_codes upper cr draw 0 count {} []))"

fun find_index :: "('a \<Rightarrow> bool) \<Rightarrow> 'a list \<Rightarrow> nat option" where
  "find_index p [] = None"
| "find_index p (x # xs) = (if p x then Some 0 else map_option Suc (find_index p xs))"

definition verify_recovery :: "(string \<Rightarrow> string) \<Rightarrow> crypto \<Rightarrow> string \<Rightarrow> recovery_code list \<Rightarrow> nat option" where
  "verify_recovery upper cr candidate codes =
     (let hash = hash_recovery_code upper cr candidate
      in find_index (\<lambda>code. constant_time_eq (rc_code_hash code) hash) codes)"

definition consume_recovery ::
  "(string \<Rightarrow> string) \<Rightarrow> crypto \<Rightarrow> string \<Rightarrow> recovery_code list \<Rightarrow> bool \<times> recovery_code list" where
  "consume_recovery upper cr candidate codes =
     (case verify_recovery upper cr candidate codes of
        None \<Rightarrow> (False, codes)
      | Some index \<Rightarrow> (True, take index codes @ drop (Suc index) codes))"

section \<open>What a device signature covers\<close>

lemma verify_proof_Inr:
  assumes "verify_proof cr jwk expected bs = Inr ()"
  obtains protected signature key signed where
    "cbor_decode cr bs = Inr (CArray [CBytes protected, CMap [], CBytes expected, CBytes signature])"
    "cr_cbor_write cr (signed_document protected expected) = Some signed"
    "validate_public_key cr jwk = Inr key" "cr_p256_verify cr key signed signature"
proof -
  from assms obtain v protected unprotected payload signature where
    v: "cbor_decode cr bs = Inr v" and parts: "proof_parts v = Inr (protected, unprotected, payload, signature)"
    and rest: "check_parts cr jwk expected protected unprotected payload signature = Inr ()"
    by (auto simp: verify_proof_def and_then_Inr_iff split: if_splits)
  have shape: "v = CArray [CBytes protected, CMap unprotected, CBytes payload, CBytes signature]"
    using parts by (auto simp: proof_parts_def split: cbor.splits list.splits)
  from rest obtain hv where "cbor_decode cr protected = Inr hv" by (auto simp: check_parts_def and_then_Inr_iff)
  with rest obtain headers where "cbor_decode cr protected = Inr (CMap headers)"
    by (cases hv) (simp_all add: check_parts_def)
  with rest obtain signed key where "unprotected = []" "payload = expected"
    "cr_cbor_write cr (signed_document protected expected) = Some signed"
    "validate_public_key cr jwk = Inr key" "cr_p256_verify cr key signed signature"
    by (auto simp: check_parts_def constant_time_eq_def cbor_encode_def ok_or_Inr_iff and_then_Inr_iff split: if_splits)
  with v shape that show ?thesis by blast
qed

lemma nonce_matches_Inr: "nonce_matches cr nonce v = Inr u \<Longrightarrow> v = cr_sha256_hex cr nonce"
  by (auto simp: nonce_matches_def and_then_Inr_iff constant_time_eq_def split: if_splits)

lemma login_payload_Inr:
  "login_payload cr c nonce decision = Inr b \<Longrightarrow>
     cr_cbor_write cr (login_claims c nonce decision) = Some b \<and> plc_nonce_verifier c = cr_sha256_hex cr nonce"
  by (auto simp: login_payload_def and_then_Inr_iff cbor_encode_def ok_or_Inr_iff dest: nonce_matches_Inr)

lemma registration_payload_Inr:
  "registration_payload cr c nonce = Inr b \<Longrightarrow>
     cr_cbor_write cr (registration_claims cr (prc_authenticator c) nonce) = Some b"
  by (auto simp: registration_payload_def and_then_Inr_iff cbor_encode_def ok_or_Inr_iff Let_def split: if_splits)

lemma decision_text_inject [simp]: "decision_text d = decision_text d' \<longleftrightarrow> d = d'"
  by (cases d; cases d') simp_all

text \<open>
  C11. A device proof authorises one decision on one login. If the same octets verify for two
  logins, both are the same login of the same user, realm and device, with the same nonce and
  the same decision, and they never verify as a registration. What verifies was signed by the
  registered, unrevoked device over exactly these claims.
\<close>

theorem push_proof_binds:
  assumes "\<And>v w b. cr_cbor_write cr v = Some b \<Longrightarrow> cr_cbor_write cr w = Some b \<Longrightarrow> v = w"
    and "verify_login cr c a nonce decision bs = Inr ()"
  shows "pa_revoked_at a = None \<and> pa_id a = plc_authenticator_id c \<and>
      plc_nonce_verifier c = cr_sha256_hex cr nonce \<and>
      (\<exists>key protected payload signed signature. validate_public_key cr (pa_public_jwk a) = Inr key \<and>
         cr_cbor_write cr (login_claims c nonce decision) = Some payload \<and>
         cr_cbor_write cr (signed_document protected payload) = Some signed \<and> cr_p256_verify cr key signed signature) \<and>
      (verify_login cr c' a' nonce' decision' bs = Inr () \<longrightarrow>
         plc_id c' = plc_id c \<and> plc_realm_id c' = plc_realm_id c \<and> plc_user_id c' = plc_user_id c \<and>
         plc_authenticator_id c' = plc_authenticator_id c \<and> nonce' = nonce \<and> decision' = decision) \<and>
      verify_registration cr r nonce' bs \<noteq> Inr ()"
proof -
  from assms(2) obtain b where own: "pa_revoked_at a = None" "pa_id a = plc_authenticator_id c"
    and pay: "login_payload cr c nonce decision = Inr b" and ver: "verify_proof cr (pa_public_jwk a) b bs = Inr ()"
    by (auto simp: verify_login_def and_then_Inr_iff split: if_splits)
  note b = login_payload_Inr [OF pay]
  from ver obtain protected signature key signed where
    doc: "cbor_decode cr bs = Inr (CArray [CBytes protected, CMap [], CBytes b, CBytes signature])"
    and sig: "cr_cbor_write cr (signed_document protected b) = Some signed"
      "validate_public_key cr (pa_public_jwk a) = Inr key" "cr_p256_verify cr key signed signature"
    by (rule verify_proof_Inr)
  have same: "expected = b" if "verify_proof cr jwk expected bs = Inr ()" for jwk expected
    using that doc by (auto elim!: verify_proof_Inr)
  have "plc_id c' = plc_id c \<and> plc_realm_id c' = plc_realm_id c \<and> plc_user_id c' = plc_user_id c \<and>
      plc_authenticator_id c' = plc_authenticator_id c \<and> nonce' = nonce \<and> decision' = decision"
    if other: "verify_login cr c' a' nonce' decision' bs = Inr ()"
  proof -
    from other have "login_payload cr c' nonce' decision' = Inr b"
      by (auto simp: verify_login_def and_then_Inr_iff split: if_splits dest: same)
    from assms(1) [OF conjunct1 [OF login_payload_Inr [OF this]] conjunct1 [OF b]]
    show ?thesis by (simp add: login_claims_def)
  qed
  moreover have "verify_registration cr r nonce' bs \<noteq> Inr ()"
  proof
    assume "verify_registration cr r nonce' bs = Inr ()"
    hence "registration_payload cr r nonce' = Inr b"
      by (auto simp: verify_registration_def and_then_Inr_iff dest: same)
    from assms(1) [OF registration_payload_Inr [OF this] conjunct1 [OF b]]
    show False by (simp add: login_claims_def registration_claims_def)
  qed
  ultimately show ?thesis using own b sig by blast
qed

text \<open>A login of one user, the device that approves it, and crates that sign and read just this.\<close>

definition example_nonce :: string where
  "example_nonce = replicate 43 CHR ''A''"

definition example_challenge :: push_login_challenge where
  "example_challenge = \<lparr> plc_id = ''c1'', plc_realm_id = ''corp'', plc_user_id = ''u1'', plc_authenticator_id = ''p1'',
     plc_purpose = PasswordLogin, plc_nonce_verifier = example_nonce, plc_browser_binding_verifier = ''b'',
     plc_resend_admitted_at = [], plc_created_at = 1, plc_expires_at = 61, plc_max_attempts = 3,
     plc_attempt_count = 0, plc_decision = None, plc_decided_at = None, plc_consumed_at = None \<rparr>"

definition example_device :: push_authenticator where
  "example_device = \<lparr> pa_id = ''p1'', pa_realm_id = ''corp'', pa_user_id = ''u1'', pa_destination = ''d'',
     pa_device_name = ''phone'', pa_device_platform = ''os'', pa_public_jwk = EC ''P-256'' example_nonce example_nonce,
     pa_created_at = 0, pa_revoked_at = None \<rparr>"

definition example_crypto :: crypto where
  "example_crypto = \<lparr> cr_sha256_hex = id, cr_b64_encode = (\<lambda>_. example_nonce), cr_b64_decode = (\<lambda>_. Some (replicate 32 0)),
     cr_cbor_write = (\<lambda>v. if v = login_claims example_challenge example_nonce PushApprove then Some [1]
                          else if v = signed_document [9] [1] then Some [2] else None),
     cr_cbor_read = (\<lambda>b. if b = [5] then Some (CArray [CBytes [9], CMap [], CBytes [1], CBytes [7]], [])
                         else if b = [9] then Some (CMap [(CInteger 1, CInteger (- 7))], []) else None),
     cr_p256_key = (\<lambda>_. True), cr_p256_signature = (\<lambda>_. True), cr_p256_verify = (\<lambda>_ signed _. signed = [2]) \<rparr>"

lemma example_write_inject:
  "cr_cbor_write example_crypto v = Some b \<Longrightarrow> cr_cbor_write example_crypto w = Some b \<Longrightarrow> v = w"
  by (auto simp: example_crypto_def split: if_splits)

lemmas proof_eval = verify_login_def login_payload_def verify_proof_def check_parts_def proof_parts_def cbor_encode_def
  cbor_decode_def nonce_matches_def bounded_ids_def validate_public_key_def coordinate_def max_proof_bytes_def
  constant_time_eq_def example_crypto_def example_challenge_def example_device_def example_nonce_def
  login_claims_def signed_document_def

lemma example_login_verifies:
  "verify_login example_crypto example_challenge example_device example_nonce PushApprove [5] = Inr ()"
  by (simp add: proof_eval)

theorem push_proof_binds_witness:
  "verify_login example_crypto example_challenge example_device example_nonce PushApprove [5] = Inr () \<and>
   verify_login example_crypto example_challenge example_device example_nonce PushDeny [5] \<noteq> Inr ()"
  using push_proof_binds [OF example_write_inject example_login_verifies,
      where c' = example_challenge and a' = example_device and nonce' = example_nonce and decision' = PushDeny]
    example_login_verifies by simp

section \<open>Recovery codes work once\<close>

text \<open>The codes of a batch: distinct display codes, each stored with its digest.\<close>

definition batch_of :: "(string \<Rightarrow> string) \<Rightarrow> crypto \<Rightarrow> (nat \<Rightarrow> octet list) \<Rightarrow> recovery_code list \<Rightarrow> bool" where
  "batch_of upper cr draw codes \<longleftrightarrow> distinct (map rc_display_code codes) \<and>
     list_all (\<lambda>code. code = recovery_code_of upper cr (rc_display_code code) \<and>
        (\<exists>n. rc_display_code code = generate_recovery_code (draw n))) codes"

lemma fill_codes_batch:
  assumes "fill_codes upper cr draw n count seen codes = Some codes'"
  shows "batch_of upper cr draw codes \<longrightarrow> seen = set (map rc_display_code codes) \<longrightarrow> length codes \<le> count \<longrightarrow>
    batch_of upper cr draw codes' \<and> length codes' = count"
  by (rule fill_codes.raw_induct [where P = "\<lambda>upper cr draw n count seen codes codes'. batch_of upper cr draw codes \<longrightarrow>
        seen = set (map rc_display_code codes) \<longrightarrow> length codes \<le> count \<longrightarrow>
        batch_of upper cr draw codes' \<and> length codes' = count", OF _ assms])
     (fastforce simp: Let_def batch_of_def recovery_code_of_def split: if_splits)

text \<open>A generator that always comes up with another code again ends the loop.\<close>

definition keeps_fresh :: "(nat \<Rightarrow> octet list) \<Rightarrow> nat \<Rightarrow> bool" where
  "keeps_fresh draw count \<longleftrightarrow>
     (\<forall>n F. finite F \<and> card F < count \<longrightarrow> (\<exists>m \<ge> n. generate_recovery_code (draw m) \<notin> F))"

lemma fill_codes_skip:
  assumes "length codes < count" "\<forall>m. n \<le> m \<and> m < k \<longrightarrow> generate_recovery_code (draw m) \<in> seen" "n \<le> k"
  shows "fill_codes upper cr draw n count seen codes = fill_codes upper cr draw k count seen codes"
  using assms(2,3)
proof (induction "k - n" arbitrary: n)
  case (Suc d)
  hence "fill_codes upper cr draw (n + 1) count seen codes = fill_codes upper cr draw k count seen codes"
    by (intro Suc.hyps(1)) auto
  with Suc assms(1) show ?case by (subst fill_codes.simps) (simp add: Let_def)
qed simp

lemma fill_codes_returns:
  assumes fresh: "keeps_fresh draw count" and "finite seen" "card seen = length codes"
  shows "\<exists>codes'. fill_codes upper cr draw n count seen codes = Some codes'"
  using assms(2,3)
proof (induction "count - length codes" arbitrary: n seen codes)
  case 0
  thus ?case by (subst fill_codes.simps) simp
next
  case (Suc k)
  hence short: "length codes < count" by simp
  let ?new = "\<lambda>m. n \<le> m \<and> generate_recovery_code (draw m) \<notin> seen"
  define m where "m = (LEAST m. ?new m)"
  from fresh Suc.prems short have "\<exists>m. ?new m" by (auto simp: keeps_fresh_def)
  hence m: "?new m" unfolding m_def by (rule LeastI_ex)
  have "generate_recovery_code (draw l) \<in> seen" if "n \<le> l" "l < m" for l
    using that not_less_Least [of l ?new] by (auto simp: m_def)
  with short m have "fill_codes upper cr draw n count seen codes = fill_codes upper cr draw m count seen codes"
    by (intro fill_codes_skip) auto
  moreover have "\<exists>codes'. fill_codes upper cr draw (m + 1) count (insert (generate_recovery_code (draw m)) seen)
      (codes @ [recovery_code_of upper cr (generate_recovery_code (draw m))]) = Some codes'"
    using Suc.hyps(2) Suc.prems m by (intro Suc.hyps(1)) simp_all
  ultimately show ?case using m short by (subst (asm) (2) fill_codes.simps) (simp add: Let_def)
qed

lemma find_index_take: "find_index p xs = Some i \<Longrightarrow> i < length xs \<and> p (xs ! i)"
  by (induction xs arbitrary: i) (auto split: if_splits)

lemma find_index_Some_unique:
  "i < length xs \<Longrightarrow> p (xs ! i) \<Longrightarrow> \<forall>j < length xs. p (xs ! j) \<longrightarrow> j = i \<Longrightarrow> find_index p xs = Some i"
proof (induction xs arbitrary: i)
  case (Cons x xs)
  show ?case
  proof (cases i)
    case (Suc k)
    have "find_index p xs = Some k" using Cons.prems Suc by (intro Cons.IH) auto
    with Cons.prems Suc show ?thesis by fastforce
  qed (use Cons.prems in simp)
qed simp

lemma find_index_None: "find_index p xs = None \<longleftrightarrow> (\<forall>x \<in> set xs. \<not> p x)"
  by (induction xs) auto

lemma recovery_alphabet_plain:
  "list_all (\<lambda>c. \<not> ascii_whitespace c \<and> c \<noteq> CHR ''-'' \<and> ascii_upper c = c \<and> byte_val c < 128) recovery_alphabet"
  by code_simp

lemma recovery_char_plain:
  "\<not> ascii_whitespace c \<and> c \<noteq> CHR ''-'' \<and> ascii_upper c = c \<and> byte_val c < 128"
  if "c = recovery_alphabet ! (k mod length recovery_alphabet)"
  using that recovery_alphabet_plain by (auto simp: list_all_length recovery_alphabet_def)

text \<open>On ten octets the normal form of a generated code is the code without its dash.\<close>

definition code_letters :: "octet list \<Rightarrow> string" where
  "code_letters bs = map (\<lambda>b. recovery_alphabet ! (unat b mod length recovery_alphabet)) bs"

definition upper_on_ascii :: "(string \<Rightarrow> string) \<Rightarrow> bool" where
  "upper_on_ascii upper \<longleftrightarrow> (\<forall>s. list_all (\<lambda>c. byte_val c < 128) s \<longrightarrow> upper s = map ascii_upper s)"

lemma code_letters_plain:
  assumes "c \<in> set (code_letters bs)"
  shows "\<not> ascii_whitespace c \<and> c \<noteq> CHR ''-'' \<and> ascii_upper c = c \<and> byte_val c < 128"
proof -
  from assms obtain k where "c = recovery_alphabet ! (k mod length recovery_alphabet)" by (auto simp: code_letters_def)
  thus ?thesis by (rule recovery_char_plain)
qed

lemma normalize_generated:
  assumes "upper_on_ascii upper" "length bs = 10"
  shows "normalize_recovery_code upper (generate_recovery_code bs) = code_letters bs"
    and "generate_recovery_code bs = take 5 (code_letters bs) @ ''-'' @ drop 5 (code_letters bs)"
proof -
  show code: "generate_recovery_code bs = take 5 (code_letters bs) @ ''-'' @ drop 5 (code_letters bs)"
    using assms(2) by (simp add: generate_recovery_code_def code_letters_def Let_def)
  have keep: "filter (\<lambda>c. \<not> ascii_whitespace c \<and> c \<noteq> CHR ''-'') xs = xs" if "set xs \<subseteq> set (code_letters bs)" for xs
    using that by (intro filter_True) (auto dest!: subsetD dest: code_letters_plain)
  have "filter (\<lambda>c. \<not> ascii_whitespace c \<and> c \<noteq> CHR ''-'') (generate_recovery_code bs) = code_letters bs"
    using keep [of "take 5 (code_letters bs)"] keep [of "drop 5 (code_letters bs)"]
    by (simp add: code set_take_subset set_drop_subset)
  moreover have "list_all (\<lambda>c. byte_val c < 128) (code_letters bs)" "map ascii_upper (code_letters bs) = code_letters bs"
    by (auto simp: list_all_iff intro!: map_idI dest: code_letters_plain)
  ultimately show "normalize_recovery_code upper (generate_recovery_code bs) = code_letters bs"
    using assms(1) by (simp add: normalize_recovery_code_def upper_on_ascii_def)
qed

lemma batch_hashes_distinct:
  assumes "upper_on_ascii upper" "inj_on (cr_sha256_hex cr) (code_letters ` {bs. length bs = 10})" "\<And>n. length (draw n) = 10" "batch_of upper cr draw codes"
  shows "distinct (map rc_code_hash codes)"
proof -
  have same: "x = y" if x: "x \<in> set codes" and y: "y \<in> set codes" and h: "rc_code_hash x = rc_code_hash y" for x y
  proof -
    from assms(4) x y obtain n m where
      xs: "x = recovery_code_of upper cr (generate_recovery_code (draw n))" and
      ys: "y = recovery_code_of upper cr (generate_recovery_code (draw m))"
      unfolding batch_of_def list_all_iff by metis
    from h have "cr_sha256_hex cr (code_letters (draw n)) = cr_sha256_hex cr (code_letters (draw m))"
      by (simp add: xs ys recovery_code_of_def hash_recovery_code_def normalize_generated(1) [OF assms(1,3)])
    from inj_onD [OF assms(2) this] have "code_letters (draw n) = code_letters (draw m)" by (simp add: assms(3))
    thus ?thesis by (simp add: xs ys normalize_generated(2) [OF assms(1,3)])
  qed
  moreover have "distinct codes" using assms(4) by (simp add: batch_of_def distinct_map)
  ultimately show ?thesis by (auto simp: distinct_map inj_on_def)
qed

lemma consume_in_batch:
  assumes "distinct (map rc_code_hash codes)" "i < length codes" "hash_recovery_code upper cr candidate = rc_code_hash (codes ! i)"
  shows "consume_recovery upper cr candidate codes = (True, take i codes @ drop (Suc i) codes)"
    and "consume_recovery upper cr candidate (take i codes @ drop (Suc i) codes) = (False, take i codes @ drop (Suc i) codes)"
proof -
  have uniq: "rc_code_hash (codes ! j) = rc_code_hash (codes ! i) \<longleftrightarrow> j = i" if "j < length codes" for j
    using assms(1,2) that nth_eq_iff_index_eq [of "map rc_code_hash codes" j i] by simp
  hence "find_index (\<lambda>code. constant_time_eq (rc_code_hash code) (rc_code_hash (codes ! i))) codes = Some i"
    using assms(2) by (intro find_index_Some_unique) (auto simp: constant_time_eq_def)
  thus "consume_recovery upper cr candidate codes = (True, take i codes @ drop (Suc i) codes)"
    by (simp add: consume_recovery_def verify_recovery_def assms(3))
  have "rc_code_hash x \<noteq> rc_code_hash (codes ! i)" if "x \<in> set (take i codes @ drop (Suc i) codes)" for x
  proof -
    from that consider k where "k < i" "x = codes ! k" | k where "Suc i + k < length codes" "x = codes ! (Suc i + k)"
      by (auto simp: in_set_conv_nth less_diff_conv ac_simps) blast
    thus ?thesis using uniq assms(2) by cases (simp_all del: add_Suc)
  qed
  hence "find_index (\<lambda>code. constant_time_eq (rc_code_hash code) (rc_code_hash (codes ! i)))
      (take i codes @ drop (Suc i) codes) = None"
    by (auto simp: find_index_None constant_time_eq_def)
  thus "consume_recovery upper cr candidate (take i codes @ drop (Suc i) codes) = (False, take i codes @ drop (Suc i) codes)"
    by (simp add: consume_recovery_def verify_recovery_def assms(3))
qed

text \<open>
  C38. Generating a batch ends with exactly the requested number of codes when the random
  generator keeps producing new ones, and their digests differ if SHA-256 has no collision among
  codes. Each code, typed with any
  dashes, spaces or case, is accepted exactly once: accepting it removes it and no other code.
\<close>

theorem recovery_codes_single_use:
  assumes "upper_on_ascii upper" "inj_on (cr_sha256_hex cr) (code_letters ` {bs. length bs = 10})" "\<And>n. length (draw n) = 10"
    and "keeps_fresh draw count" "1 \<le> count" "count \<le> 24"
  shows "\<exists>codes. generate_batch upper cr draw count = Some (Inr codes) \<and> length codes = count \<and>
      distinct (map rc_code_hash codes) \<and>
      (\<forall>i < count. \<forall>candidate. normalize_recovery_code upper candidate
           = normalize_recovery_code upper (rc_display_code (codes ! i)) \<longrightarrow>
         (let left = take i codes @ drop (Suc i) codes in
          consume_recovery upper cr candidate codes = (True, left) \<and>
          consume_recovery upper cr candidate left = (False, left)))"
proof -
  obtain codes where codes: "fill_codes upper cr draw 0 count {} [] = Some codes"
    using fill_codes_returns [OF assms(4), of "{}" "[]" upper cr 0] by auto
  with fill_codes_batch [OF codes] have batch: "batch_of upper cr draw codes" "length codes = count"
    by (simp_all add: batch_of_def)
  note d = batch_hashes_distinct [OF assms(1,2,3) batch(1)]
  have "rc_code_hash (codes ! i) = hash_recovery_code upper cr (rc_display_code (codes ! i))" if "i < count" for i
  proof -
    from that batch have "codes ! i = recovery_code_of upper cr (rc_display_code (codes ! i))"
      by (auto simp: batch_of_def list_all_length)
    from arg_cong [OF this, of rc_code_hash] show ?thesis by (simp add: recovery_code_of_def)
  qed
  hence "hash_recovery_code upper cr candidate = rc_code_hash (codes ! i)"
    if "i < count" "normalize_recovery_code upper candidate = normalize_recovery_code upper (rc_display_code (codes ! i))"
    for i candidate using that by (simp add: hash_recovery_code_def)
  with codes batch d assms(5,6) show ?thesis
    by (auto simp: generate_batch_def Let_def consume_in_batch)
qed

definition example_draw :: "nat \<Rightarrow> octet list" where
  "example_draw n = replicate 10 (if even n then 0 else 1)"

lemma example_codes_differ: "generate_recovery_code (replicate 10 0) \<noteq> generate_recovery_code (replicate 10 1)"
  by code_simp

lemma example_keeps_fresh: "keeps_fresh example_draw 2"
  unfolding keeps_fresh_def
proof (intro allI impI)
  fix n :: nat and F :: "string set"
  assume F: "finite F \<and> card F < 2"
  let ?c = "\<lambda>m. generate_recovery_code (example_draw m)"
  have "card {?c (2 * n), ?c (2 * n + 1)} = 2" using example_codes_differ by (simp add: example_draw_def)
  hence "\<not> {?c (2 * n), ?c (2 * n + 1)} \<subseteq> F" using F card_mono [of F "{?c (2 * n), ?c (2 * n + 1)}"] by linarith
  hence "?c (2 * n) \<notin> F \<or> ?c (2 * n + 1) \<notin> F" by blast
  moreover have "n \<le> 2 * n" "n \<le> 2 * n + 1" by simp_all
  ultimately show "\<exists>m \<ge> n. ?c m \<notin> F" by blast
qed

theorem recovery_codes_single_use_witness:
  "\<exists>codes. generate_batch (map ascii_upper) example_crypto example_draw 2 = Some (Inr codes) \<and> length codes = 2 \<and>
     (let left = drop 1 codes in
      consume_recovery (map ascii_upper) example_crypto (rc_display_code (codes ! 0)) codes = (True, left) \<and>
      consume_recovery (map ascii_upper) example_crypto (rc_display_code (codes ! 0)) left = (False, left))"
proof -
  have upper: "upper_on_ascii (map ascii_upper)" by (simp add: upper_on_ascii_def)
  have hash: "inj_on (cr_sha256_hex example_crypto) (code_letters ` {bs. length bs = 10})"
    by (simp add: example_crypto_def inj_on_def)
  have draws: "length (example_draw n) = 10" for n by (simp add: example_draw_def)
  obtain codes where "generate_batch (map ascii_upper) example_crypto example_draw 2 = Some (Inr codes)" "length codes = 2"
    and "\<forall>i < 2. \<forall>candidate. normalize_recovery_code (map ascii_upper) candidate
        = normalize_recovery_code (map ascii_upper) (rc_display_code (codes ! i)) \<longrightarrow>
       (let left = take i codes @ drop (Suc i) codes in
        consume_recovery (map ascii_upper) example_crypto candidate codes = (True, left) \<and>
        consume_recovery (map ascii_upper) example_crypto candidate left = (False, left))"
    using recovery_codes_single_use [OF upper hash draws example_keeps_fresh] by (elim meta_impE exE conjE) simp_all
  from this(1,2) this(3) [rule_format, of 0 "rc_display_code (codes ! 0)"] show ?thesis
    by (intro exI [of _ codes]) (simp add: Let_def)
qed

end
