(* ===== verification/Qid_Session.thy ===== *)
theory Qid_Session
  imports Qid_Repository Qid_Limits Qid_Mfa
begin

text \<open>
  Authentication and browser sessions: \<^verbatim>\<open>qid-session/src/auth.rs\<close>, \<^verbatim>\<open>browser.rs\<close>, \<^verbatim>\<open>push.rs\<close>,
  \<^verbatim>\<open>totp_api.rs\<close>, \<^verbatim>\<open>api/password.rs\<close>, \<^verbatim>\<open>api/push.rs\<close>, \<^verbatim>\<open>api/session.rs\<close> and \<^verbatim>\<open>api/mod.rs\<close>, with
  the TOTP validation of \<^verbatim>\<open>qid-mfa/src/lib.rs\<close> and \<^verbatim>\<open>qid-crypto/src/totp.rs\<close>, over the file
  repository and the limiters of the other theories.

  A handler is a state transformer over the service (the repository, the failure budget and
  the two limiters) that stops at the first error; an error reply is the error it renders.
  What a call reads from outside comes from a \<^verbatim>\<open>world\<close>: the n-th clock reading, the outcome
  of the n-th write to the repository file, and the n-th random secret of the handler.
  Deployment configuration and third-party functions (password hashing, HMAC, base32,
  and the \<^verbatim>\<open>crypto\<close> of the multi-factor theory, delivery of notifications) are parameters. The
  handlers run one after the other here; inside a handler no other request interleaves.
\<close>

section \<open>Handlers\<close>

record world =
  w_clock :: "nat \<Rightarrow> u64"
  w_io :: "nat \<Rightarrow> io"
  w_random :: "nat \<Rightarrow> string"

record service =
  sv_repo :: file_repository
  sv_budget :: failure_budget
  sv_password_limiter :: rate_limiter
  sv_totp_limiter :: rate_limiter

type_synonym 'a act = "(service, 'a) handler"

definition repo_read :: "(file_repository \<Rightarrow> 'a result) \<Rightarrow> 'a act" where
  "repo_read f s = (f (sv_repo s), s)"

definition repo_op :: "(file_repository \<Rightarrow> 'a result \<times> file_repository) \<Rightarrow> 'a act" where
  "repo_op f s = (case f (sv_repo s) of (a, r) \<Rightarrow> (a, s\<lparr>sv_repo := r\<rparr>))"

section \<open>Browser sessions\<close>

record session_manager =
  sm_idle_timeout_seconds :: u64
  sm_absolute_timeout_seconds :: u64

definition session_manager_new :: "u64 \<Rightarrow> u64 \<Rightarrow> session_manager" where
  "session_manager_new idle_timeout_minutes absolute_timeout_hours =
     \<lparr> sm_idle_timeout_seconds = idle_timeout_minutes * 60,
       sm_absolute_timeout_seconds = absolute_timeout_hours * 60 * 60 \<rparr>"

definition create :: "world \<Rightarrow> session_manager \<Rightarrow> string \<Rightarrow> string \<Rightarrow> string \<Rightarrow> string list \<Rightarrow> session act" where
  "create w m realm_id user_id acr amr =
     (let now = w_clock w 10;
          ses = \<lparr> ses_id = ''sid_'' @ w_random w 10, ses_realm_id = realm_id, ses_user_id = user_id,
                  ses_auth_time = now, ses_acr = Some acr, ses_amr = amr,
                  ses_idle_expires_at = now + sm_idle_timeout_seconds m,
                  ses_absolute_expires_at = now + sm_absolute_timeout_seconds m,
                  ses_revoked = False, ses_created_at = now, ses_cnf = None \<rparr>
      in bind_act (repo_op (create_session (w_io w 10) ses)) (\<lambda>_. give ses))"

definition create_with_regeneration ::
  "world \<Rightarrow> session_manager \<Rightarrow> string \<Rightarrow> string \<Rightarrow> string \<Rightarrow> string list \<Rightarrow> string option \<Rightarrow> session act" where
  "create_with_regeneration w m realm_id user_id acr amr old_session_id =
     bind_act (case old_session_id of
                 None \<Rightarrow> give ()
               | Some old_id \<Rightarrow> ignore_failure (repo_op (revoke_session (w_io w 9) old_id (Some realm_id))))
       (\<lambda>_. create w m realm_id user_id acr amr)"

definition session_get :: "world \<Rightarrow> string \<Rightarrow> session option act" where
  "session_get w i = bind_act (repo_read (get_session i)) (\<lambda>ses.
     give (opt_filter (\<lambda>ses. is_active ses (w_clock w 0)) ses))"

definition session_cache_ttl :: "session \<Rightarrow> u64 \<Rightarrow> u64 option" where
  "session_cache_ttl ses now =
     (if \<not> is_active ses now then None
      else let ttl = sat_sub (min (ses_idle_expires_at ses) (ses_absolute_expires_at ses)) now
           in if ttl = 0 then None else Some ttl)"

section \<open>Configuration and request parsing\<close>

record push_policy =
  pp_ttl_seconds :: u64
  pp_max_attempts :: u32
  pp_max_issuances_per_window :: u32
  pp_issuance_window_seconds :: u64
  pp_resend_cooldown_seconds :: u64
  pp_max_destination_bytes :: nat
  pp_max_proof_bytes :: nat

record runtime_realm =
  rt_password_enabled :: bool
  rt_passwordless_only :: bool
  rt_password :: password_limits
  rt_totp_enabled :: bool
  rt_totp :: totp_limits
  rt_push_enabled :: bool
  rt_push :: push_policy
  rt_cookie_name :: string
  rt_idle_timeout_minutes :: u64
  rt_absolute_timeout_hours :: u64

definition accepts_password_authentication :: "runtime_realm \<Rightarrow> bool" where
  "accepts_password_authentication rt \<longleftrightarrow> rt_password_enabled rt \<and> \<not> rt_passwordless_only rt"

definition accepts_totp :: "runtime_realm \<Rightarrow> bool" where
  "accepts_totp rt = rt_totp_enabled rt"

text \<open>The password credentials of a realm: \<^verbatim>\<open>verify\<close> answers valid and rehash-required.\<close>

record password_credentials =
  pwv_verify :: "string \<Rightarrow> password_credential \<Rightarrow> bool \<times> bool"
  pwv_hash :: "string \<Rightarrow> string result"

record deployment =
  dp_realms :: "(string \<times> runtime_realm) list"
  dp_secure_base :: bool
  dp_notification :: bool
  dp_transport :: bool
  dp_slot_free :: bool
  dp_delivered :: bool
  dp_password_context :: "string \<Rightarrow> password_credentials result"
  dp_crypto :: crypto
  dp_base32_decode :: "string \<Rightarrow> string + octet list"
  dp_hmac_sha1 :: "octet list \<Rightarrow> octet list \<Rightarrow> octet list"

definition require_realm :: "deployment \<Rightarrow> string \<Rightarrow> runtime_realm act" where
  "require_realm d realm = require_some (map_of (dp_realms d) realm) (NotFound (''realm '' @ realm))"

fun split_on :: "char \<Rightarrow> string \<Rightarrow> string list" where
  "split_on c [] = [[]]"
| "split_on c (x # xs) =
     (if x = c then [] # split_on c xs else case split_on c xs of p # ps \<Rightarrow> (x # p) # ps | [] \<Rightarrow> [[x]])"

fun split_once :: "char \<Rightarrow> string \<Rightarrow> (string \<times> string) option" where
  "split_once c [] = None"
| "split_once c (x # xs) =
     (if x = c then Some ([], xs) else map_option (\<lambda>(a, b). (x # a, b)) (split_once c xs))"

definition cookie_value :: "string \<Rightarrow> string \<Rightarrow> string option" where
  "cookie_value name pair =
     (case split_once (CHR ''='') (trim pair) of
        None \<Rightarrow> None
      | Some (key, val) \<Rightarrow> if trim key = name then Some (trim val) else None)"

definition extract_cookie :: "string option \<Rightarrow> string \<Rightarrow> string option" where
  "extract_cookie header name =
     (case header of
        None \<Rightarrow> None
      | Some text \<Rightarrow>
          (case find (\<lambda>pair. cookie_value name pair \<noteq> None) (split_on (CHR '';'') text) of
             None \<Rightarrow> None
           | Some pair \<Rightarrow> cookie_value name pair))"

definition load_browser_session ::
  "world \<Rightarrow> deployment \<Rightarrow> string \<Rightarrow> string option \<Rightarrow> (runtime_realm \<times> string \<times> session) act" where
  "load_browser_session w d realm cookie =
     bind_act (require_realm d realm) (\<lambda>rt.
     bind_act (require_some (extract_cookie cookie (rt_cookie_name rt)) (Unauthorized ''missing session cookie'')) (\<lambda>sid s.
       case session_get w sid s of
         (Inr (Some ses), s') \<Rightarrow>
           bind_act (require (ses_realm_id ses = realm) (Unauthorized ''session realm does not match request realm''))
             (\<lambda>_. give (rt, sid, ses)) s'
       | (_, s') \<Rightarrow> refuse (Unauthorized ''invalid or expired session'') s'))"

definition manager_of :: "runtime_realm \<Rightarrow> session_manager" where
  "manager_of rt = session_manager_new (rt_idle_timeout_minutes rt) (rt_absolute_timeout_hours rt)"

text \<open>Refreshing and revoking the session of the request's cookie; the reply is the status code.\<close>

definition session_refresh :: "world \<Rightarrow> deployment \<Rightarrow> string \<Rightarrow> string option \<Rightarrow> nat act" where
  "session_refresh w d realm cookie =
     bind_act (load_browser_session w d realm cookie) (\<lambda>(rt, sid, _).
       let new_idle = w_clock w 1 + rt_idle_timeout_minutes rt * 60
       in bind_act (repo_op (update_session_idle_expiry (w_io w 1) sid new_idle (Some realm))) (\<lambda>ok.
            give (if ok then 200 else 401)))"

definition session_revoke :: "world \<Rightarrow> deployment \<Rightarrow> string \<Rightarrow> string option \<Rightarrow> nat act" where
  "session_revoke w d realm cookie =
     bind_act (load_browser_session w d realm cookie) (\<lambda>(rt, sid, _).
       bind_act (repo_op (revoke_session (w_io w 1) sid (Some realm))) (\<lambda>ok.
         give (if ok then 200 else 401)))"

section \<open>Password authentication\<close>

record auth_result =
  ar_user :: user
  ar_acr :: string
  ar_amr :: "string list"
  ar_session_id :: "string option"

definition push_factor_satisfied :: "string \<Rightarrow> string \<Rightarrow> string list \<Rightarrow> bool act" where
  "push_factor_satisfied realm_id user_id amr =
     (let password_authenticated = list_ex (\<lambda>m. m \<in> {''pwd'', ''password''}) amr;
          already_has_second_factor = list_ex (\<lambda>m. m \<in> {''webauthn'', ''totp'', ''push''}) amr
      in if \<not> password_authenticated \<or> already_has_second_factor then give True
         else bind_act (repo_read (list_push_authenticators realm_id user_id)) (\<lambda>as.
                give (\<not> list_ex (\<lambda>a. pa_revoked_at a = None) as)))"

definition record_failed_attempt :: "world \<Rightarrow> password_limits \<Rightarrow> string \<Rightarrow> user \<Rightarrow> u64 \<Rightarrow> unit act" where
  "record_failed_attempt w policy realm u now s =
     (let attempts = usr_failed_login_attempts u + 1;
          u = u\<lparr>usr_failed_login_attempts := attempts\<rparr>;
          u = (if max_failed_attempts policy \<le> attempts
               then u\<lparr>usr_locked_until := Some (now + lockout_duration_seconds policy)\<rparr> else u);
          (_, b) = record_failure (w_clock w 3) realm (max_failed_attempts_per_realm policy)
                     (lockout_duration_seconds policy) (sv_budget s)
      in repo_op (update_user (w_io w 3) u (Some realm)) (s\<lparr>sv_budget := b\<rparr>))"

definition reset_attempts :: "user \<Rightarrow> user" where
  "reset_attempts u = u\<lparr>usr_failed_login_attempts := 0, usr_locked_until := None\<rparr>"

definition argon2id_algorithm :: string where
  "argon2id_algorithm = ''argon2id''"

definition check_lockout :: "world \<Rightarrow> string \<Rightarrow> user \<Rightarrow> u64 \<Rightarrow> unit act" where
  "check_lockout w realm u now =
     (case usr_locked_until u of
        None \<Rightarrow> give ()
      | Some locked_until \<Rightarrow>
          if now < locked_until then refuse (TooManyRequests ''account is temporarily locked'')
          else repo_op (update_user (w_io w 2) (reset_attempts u) (Some realm)))"

definition fail_login :: "world \<Rightarrow> password_limits \<Rightarrow> string \<Rightarrow> user \<Rightarrow> u64 \<Rightarrow> auth_result act" where
  "fail_login w policy realm u now =
     bind_act (record_failed_attempt w policy realm u now) (\<lambda>_. refuse (Unauthorized ''invalid credentials''))"

definition finish_login ::
  "world \<Rightarrow> password_credentials \<Rightarrow> string \<Rightarrow> string \<Rightarrow> user \<Rightarrow> bool \<Rightarrow> auth_result act" where
  "finish_login w creds realm password u rehash_required =
     bind_act (if rehash_required
         then bind_act (\<lambda>s. (pwv_hash creds password, s)) (\<lambda>hash.
           repo_op (update_password_credential_in_realm (w_io w 4)
             \<lparr> pwc_user_id = usr_id u, pwc_hash = hash, pwc_algorithm = argon2id_algorithm \<rparr> realm))
         else give ()) (\<lambda>_.
     bind_act (if 0 < usr_failed_login_attempts u \<or> usr_locked_until u \<noteq> None
         then repo_op (update_user (w_io w 5) (reset_attempts u) (Some realm))
         else give ()) (\<lambda>_.
     give \<lparr> ar_user = u, ar_acr = ''urn:qid:acr:password'', ar_amr = [''pwd''], ar_session_id = None \<rparr>))"

text \<open>
  The user record read at the start is the one a failure is counted on and the one a success
  returns, also when the lockout check has meanwhile stored a reset copy.
\<close>

definition authenticate_password ::
  "world \<Rightarrow> password_limits \<Rightarrow> password_credentials option \<Rightarrow> string \<Rightarrow> string \<Rightarrow> string \<Rightarrow> auth_result act" where
  "authenticate_password w policy credentials realm email password =
     bind_act (require_some credentials
         (Config ''configured password pepper requires a resolved credential context'')) (\<lambda>creds.
     bind_act (\<lambda>s. require (\<not> exhausted (w_clock w 1) realm (max_failed_attempts_per_realm policy)
                          (lockout_duration_seconds policy) (sv_budget s))
         (AttemptBudgetSpent ''too many failed password attempts for this realm'') s) (\<lambda>_.
     bind_act (repo_read (get_user_by_email realm email)) (\<lambda>found.
     bind_act (require_some found (Unauthorized ''invalid credentials'')) (\<lambda>u.
     let now = w_clock w 2 in
     bind_act (check_lockout w realm u now) (\<lambda>_.
     bind_act (repo_read (get_password_credential (usr_id u))) (\<lambda>cred.
     case cred of
       None \<Rightarrow> fail_login w policy realm u now
     | Some cred \<Rightarrow>
         (case pwv_verify creds password cred of (valid, rehash_required) \<Rightarrow>
            if \<not> valid then fail_login w policy realm u now
            else finish_login w creds realm password u rehash_required)))))))"

text \<open>What a login handler answers: a session, or the challenge of a second factor.\<close>

datatype login_reply =
    Session_Reply session
  | Push_Required push_login_challenge

section \<open>The push factor\<close>

definition push_invalid :: qid_error where
  "push_invalid = Unauthorized ''push authentication is not available''"

definition available :: "deployment \<Rightarrow> string \<Rightarrow> runtime_realm act" where
  "available d realm = bind_act (require_realm d realm) (\<lambda>rt.
     if \<not> rt_push_enabled rt \<or> \<not> accepts_password_authentication rt \<or> \<not> dp_secure_base d
        \<or> \<not> dp_notification d \<or> \<not> dp_transport d
     then refuse push_invalid else give rt)"

definition destination_ok :: "push_policy \<Rightarrow> push_authenticator \<Rightarrow> bool" where
  "destination_ok policy a \<longleftrightarrow> pa_destination a \<noteq> [] \<and> length (pa_destination a) \<le> pp_max_destination_bytes policy"

definition prepare :: "world \<Rightarrow> deployment \<Rightarrow> string \<Rightarrow> string \<Rightarrow> string \<Rightarrow> push_login_challenge act" where
  "prepare w d realm_id user_id browser_binding_verifier =
     bind_act (available d realm_id) (\<lambda>rt.
     let policy = rt_push rt in
     bind_act (require (dp_notification d) push_invalid) (\<lambda>_.
     bind_act (require (dp_slot_free d) push_invalid) (\<lambda>_.
     bind_act (repo_read (list_push_authenticators realm_id user_id)) (\<lambda>as.
     bind_act (require_some (find (\<lambda>a. pa_revoked_at a = None) as) push_invalid) (\<lambda>a.
     bind_act (require (destination_ok policy a) push_invalid) (\<lambda>_.
     let now = w_clock w 6; nonce = w_random w 0;
         c = \<lparr> plc_id = w_random w 1, plc_realm_id = realm_id, plc_user_id = user_id,
               plc_authenticator_id = pa_id a, plc_purpose = PasswordLogin,
               plc_nonce_verifier = cr_sha256_hex (dp_crypto d) nonce,
               plc_browser_binding_verifier = browser_binding_verifier, plc_resend_admitted_at = [],
               plc_created_at = now, plc_expires_at = now + pp_ttl_seconds policy,
               plc_max_attempts = pp_max_attempts policy, plc_attempt_count = 0, plc_decision = None,
               plc_decided_at = None, plc_consumed_at = None \<rparr>
     in bind_act (repo_op (try_issue_push_login (w_io w 6) (w_clock w 7) c (pp_max_issuances_per_window policy)
                    (pp_issuance_window_seconds policy))) (\<lambda>admitted.
        bind_act (require admitted push_invalid) (\<lambda>_. give c))))))))"

definition send :: "deployment \<Rightarrow> push_login_challenge \<Rightarrow> push_login_challenge act" where
  "send d c = bind_act (require (dp_notification d \<and> dp_transport d) push_invalid) (\<lambda>_.
     bind_act (require (dp_delivered d) push_invalid) (\<lambda>_. give c))"

record decision_request =
  dr_realm_id :: string
  dr_user_id :: string
  dr_challenge_id :: string
  dr_nonce :: string
  dr_decision :: push_decision
  dr_proof :: string

definition record_decision :: "world \<Rightarrow> deployment \<Rightarrow> decision_request \<Rightarrow> unit act" where
  "record_decision w d req =
     bind_act (available d (dr_realm_id req)) (\<lambda>rt.
     let policy = rt_push rt in
     bind_act (repo_read (get_push_login (dr_realm_id req) (dr_user_id req) (dr_challenge_id req))) (\<lambda>found.
     bind_act (require_some found push_invalid) (\<lambda>c.
     bind_act (repo_read (get_push_authenticator (dr_realm_id req) (dr_user_id req) (plc_authenticator_id c))) (\<lambda>auth.
     bind_act (require_some auth push_invalid) (\<lambda>a.
     let proof = (if length (dr_proof req) \<le> (pp_max_proof_bytes policy + 2) div 3 * 4
                  then cr_b64_decode (dp_crypto d) (dr_proof req) else None);
         verified = (case proof of
                       None \<Rightarrow> False
                     | Some p \<Rightarrow> length p \<le> pp_max_proof_bytes policy
                                  \<and> verify_login (dp_crypto d) c a (dr_nonce req) (dr_decision req) p = Inr ())
     in bind_act (repo_op (attempt_push_login (w_io w 1) c (if verified then Some (dr_decision req) else None)
                    (w_clock w 1))) (\<lambda>accepted.
        require (accepted \<and> verified) push_invalid))))))"

definition record_decision_in_realm :: "world \<Rightarrow> deployment \<Rightarrow> string \<Rightarrow> decision_request \<Rightarrow> unit act" where
  "record_decision_in_realm w d realm req =
     bind_act (require (dr_realm_id req = realm) push_invalid) (\<lambda>_. record_decision w d req)"

definition complete_password ::
  "world \<Rightarrow> deployment \<Rightarrow> push_login_challenge \<Rightarrow> string \<Rightarrow> auth_result act" where
  "complete_password w d c browser_verifier =
     bind_act (available d (plc_realm_id c)) (\<lambda>_.
     bind_act (repo_read (get_user_by_id (plc_user_id c))) (\<lambda>found.
     bind_act (require_some (opt_filter (\<lambda>u. usr_realm_id u = plc_realm_id c) found) push_invalid) (\<lambda>u.
     bind_act (repo_op (redeem_push_login (w_io w 1) c browser_verifier (w_clock w 1))) (\<lambda>redeemed.
     bind_act (require redeemed push_invalid) (\<lambda>_.
       give \<lparr> ar_user = u, ar_acr = ''urn:qid:acr:password'', ar_amr = [''pwd'', ''push''], ar_session_id = None \<rparr>)))))"

definition resend ::
  "world \<Rightarrow> deployment \<Rightarrow> string \<Rightarrow> string \<Rightarrow> string \<Rightarrow> string \<Rightarrow> push_login_challenge act" where
  "resend w d realm_id user_id challenge_id browser_verifier =
     bind_act (available d realm_id) (\<lambda>rt.
     let policy = rt_push rt in
     bind_act (require (dp_notification d) push_invalid) (\<lambda>_.
     bind_act (require (dp_slot_free d) push_invalid) (\<lambda>_.
     bind_act (repo_read (get_push_login realm_id user_id challenge_id)) (\<lambda>found.
     bind_act (require_some found push_invalid) (\<lambda>c.
     bind_act (require (constant_time_eq (plc_browser_binding_verifier c) browser_verifier) push_invalid) (\<lambda>_.
     bind_act (repo_read (get_push_authenticator realm_id user_id (plc_authenticator_id c))) (\<lambda>auth.
     bind_act (require_some auth push_invalid) (\<lambda>a.
     bind_act (require (destination_ok policy a) push_invalid) (\<lambda>_.
     bind_act (repo_op (try_resend_push_login (w_io w 1) (w_clock w 1) c browser_verifier
         (cr_sha256_hex (dp_crypto d) (w_random w 0)) (pp_max_issuances_per_window policy)
         (pp_issuance_window_seconds policy) (pp_resend_cooldown_seconds policy))) (\<lambda>sent.
     bind_act (require_some sent push_invalid) (\<lambda>c'. send d c')))))))))))"

section \<open>The password handlers\<close>

definition push_cookie :: string where
  "push_cookie = ''__Host-qid-password-push''"

definition browser_verifier :: "deployment \<Rightarrow> string \<Rightarrow> string" where
  "browser_verifier d binding = cr_sha256_hex (dp_crypto d) (''qid:session:password-push:v1:'' @ binding)"

definition check_cookie :: "deployment \<Rightarrow> unit act" where
  "check_cookie d = require (\<not> list_ex (\<lambda>(_, rt). rt_cookie_name rt = push_cookie) (dp_realms d)) push_invalid"

definition push_start :: "world \<Rightarrow> deployment \<Rightarrow> auth_result \<Rightarrow> login_reply act" where
  "push_start w d auth =
     bind_act (check_cookie d) (\<lambda>_.
     bind_act (prepare w d (usr_realm_id (ar_user auth)) (usr_id (ar_user auth)) (browser_verifier d (w_random w 2))) (\<lambda>c.
     bind_act (send d c) (\<lambda>c. give (Push_Required c))))"

definition establish_session ::
  "world \<Rightarrow> deployment \<Rightarrow> string \<Rightarrow> string option \<Rightarrow> auth_result \<Rightarrow> session act" where
  "establish_session w d realm cookie auth =
     bind_act (require_realm d realm) (\<lambda>rt.
       create_with_regeneration w (manager_of rt) realm (usr_id (ar_user auth)) (ar_acr auth) (ar_amr auth)
         (extract_cookie cookie (rt_cookie_name rt)))"

definition password_auth ::
  "world \<Rightarrow> deployment \<Rightarrow> string \<Rightarrow> string option \<Rightarrow> string \<Rightarrow> string \<Rightarrow> login_reply act" where
  "password_auth w d realm cookie email password =
     bind_act (require_realm d realm) (\<lambda>rt.
     bind_act (require (accepts_password_authentication rt)
         (Unauthorized ''password authentication is disabled for this realm'')) (\<lambda>_.
     let policy = rt_password rt in
     bind_act (\<lambda>s. case password_admit (w_clock w 0) realm email policy (sv_password_limiter s) of
                 (ok, l) \<Rightarrow> (Inr ok, s\<lparr>sv_password_limiter := l\<rparr>)) (\<lambda>admitted.
     bind_act (require admitted (TooManyRequests ''too many login attempts, please wait and try again'')) (\<lambda>_.
     bind_act (\<lambda>s. (dp_password_context d realm, s)) (\<lambda>credentials.
     bind_act (authenticate_password w policy (Some credentials) realm email password) (\<lambda>auth.
     bind_act (\<lambda>s. (Inr (), s\<lparr>sv_password_limiter :=
                 password_succeeded (w_clock w 4) (w_clock w 5) realm email (sv_password_limiter s)\<rparr>)) (\<lambda>_.
     bind_act (push_factor_satisfied realm (usr_id (ar_user auth)) (ar_amr auth)) (\<lambda>satisfied.
       if satisfied then bind_act (establish_session w d realm cookie auth) (\<lambda>ses. give (Session_Reply ses))
       else push_start w d auth))))))))"

definition push_binding :: "deployment \<Rightarrow> string option \<Rightarrow> string option" where
  "push_binding d cookie =
     opt_filter (\<lambda>v. length v = 43 \<and> (case cr_b64_decode (dp_crypto d) v of None \<Rightarrow> False | Some b \<Rightarrow> length b = 32))
       (extract_cookie cookie push_cookie)"

definition push_finish ::
  "world \<Rightarrow> deployment \<Rightarrow> string \<Rightarrow> string option \<Rightarrow> string \<Rightarrow> string \<Rightarrow> session act" where
  "push_finish w d realm cookie user_id challenge_id =
     bind_act (check_cookie d) (\<lambda>_.
     bind_act (available d realm) (\<lambda>_.
     bind_act (require_some (push_binding d cookie) push_invalid) (\<lambda>binding.
     bind_act (repo_read (get_push_login realm user_id challenge_id)) (\<lambda>found.
     bind_act (require_some found push_invalid) (\<lambda>c.
     bind_act (complete_password w d c (browser_verifier d binding)) (\<lambda>auth.
       establish_session w d realm cookie auth))))))"

definition resend_bound ::
  "world \<Rightarrow> deployment \<Rightarrow> string \<Rightarrow> string option \<Rightarrow> string \<Rightarrow> string \<Rightarrow> push_login_challenge act" where
  "resend_bound w d realm cookie user_id challenge_id =
     bind_act (check_cookie d) (\<lambda>_.
     bind_act (require_some (push_binding d cookie) push_invalid) (\<lambda>binding.
       resend w d realm user_id challenge_id (browser_verifier d binding)))"

section \<open>One-time passwords\<close>

definition be64 :: "u64 \<Rightarrow> octet list" where
  "be64 c = map (\<lambda>i. ucast (drop_bit (8 * i) c)) [7, 6, 5, 4, 3, 2, 1, 0]"

definition compute_totp :: "deployment \<Rightarrow> string \<Rightarrow> u64 \<Rightarrow> u32 \<Rightarrow> u64 result" where
  "compute_totp d secret moving digits =
     (case dp_base32_decode d secret of
        Inl e \<Rightarrow> Inl (Crypto (''invalid base32 TOTP secret: '' @ e))
      | Inr key \<Rightarrow>
          let result = dp_hmac_sha1 d key (be64 moving);
              offset = unat (result ! 19) mod 16;
              code = (unat (result ! offset) mod 128) * 2 ^ 24 + unat (result ! (offset + 1)) * 2 ^ 16
                     + unat (result ! (offset + 2)) * 2 ^ 8 + unat (result ! (offset + 3))
          in Inr (of_nat code mod 10 ^ unat digits))"

definition generate_code :: "deployment \<Rightarrow> u32 \<Rightarrow> u64 \<Rightarrow> string \<Rightarrow> u64 \<Rightarrow> string result" where
  "generate_code d digits period secret timestamp =
     and_then (compute_totp d secret (timestamp div period) digits) (\<lambda>code.
       let text = decimal (unat code) in Inr (replicate (unat digits - length text) (CHR ''0'') @ text))"

fun try_candidates :: "deployment \<Rightarrow> totp_credential \<Rightarrow> string \<Rightarrow> u64 list \<Rightarrow> u64 option result" where
  "try_candidates d cred code [] = Inr None"
| "try_candidates d cred code (ts # rest) =
     (let step = ts div totp_period cred in
      if (case totp_last_used_step cred of None \<Rightarrow> False | Some last_step \<Rightarrow> step \<le> last_step)
      then try_candidates d cred code rest
      else and_then (generate_code d (totp_digits cred) (totp_period cred) (totp_secret cred) ts) (\<lambda>expected.
        if constant_time_eq code expected then Inr (Some step) else try_candidates d cred code rest))"

definition verify_totp_at_with_step :: "deployment \<Rightarrow> totp_credential \<Rightarrow> string \<Rightarrow> u64 \<Rightarrow> u64 option result" where
  "verify_totp_at_with_step d cred code timestamp =
     (if \<not> totp_enabled cred \<or> totp_algorithm cred \<noteq> ''SHA1'' then Inr None
      else try_candidates d cred code
             [timestamp, sat_sub timestamp (totp_period cred), sat_add timestamp (totp_period cred)])"

definition totp_unavailable :: "runtime_realm \<Rightarrow> unit act" where
  "totp_unavailable rt = require (accepts_totp rt) (Unauthorized ''TOTP is not enabled for this realm'')"

definition admit_totp :: "world \<Rightarrow> string \<Rightarrow> string \<Rightarrow> totp_limits \<Rightarrow> unit act" where
  "admit_totp w realm user_id policy =
     bind_act (\<lambda>s. case totp_admit (w_clock w 1) realm user_id policy (sv_totp_limiter s) of
                 (ok, l) \<Rightarrow> (Inr ok, s\<lparr>sv_totp_limiter := l\<rparr>)) (\<lambda>admitted.
     require admitted (TooManyRequests ''too many TOTP attempts, please wait and try again''))"

text \<open>Verify a code against a credential and claim the step; a claim that wins gives its admission back.\<close>

definition claim_totp ::
  "world \<Rightarrow> deployment \<Rightarrow> string \<Rightarrow> string \<Rightarrow> totp_credential \<Rightarrow> totp_credential \<Rightarrow> string \<Rightarrow> u64 act" where
  "claim_totp w d realm user_id probe cred code =
     bind_act (\<lambda>s. (verify_totp_at_with_step d probe code (w_clock w 2), s)) (\<lambda>found.
     bind_act (require_some found (BadRequest ''invalid or already-used TOTP code'')) (\<lambda>step.
     bind_act (repo_op (consume_totp_step (w_io w 2) cred step)) (\<lambda>won.
     bind_act (require won (BadRequest ''invalid or already-used TOTP code'')) (\<lambda>_ s.
       (Inr step, s\<lparr>sv_totp_limiter := totp_succeeded (w_clock w 3) realm user_id (sv_totp_limiter s)\<rparr>)))))"

definition totp_enroll :: "world \<Rightarrow> deployment \<Rightarrow> string \<Rightarrow> string option \<Rightarrow> string act" where
  "totp_enroll w d realm cookie =
     bind_act (load_browser_session w d realm cookie) (\<lambda>(rt, _, ses).
     bind_act (totp_unavailable rt) (\<lambda>_.
     bind_act (repo_read (get_user_by_id (ses_user_id ses))) (\<lambda>found.
     bind_act (require_some found (NotFound (''user '' @ ses_user_id ses))) (\<lambda>u.
     bind_act (require (usr_realm_id u = realm) (Unauthorized ''session user does not belong to request realm'')) (\<lambda>_.
     let secret = w_random w 0 in
     bind_act (repo_op (store_totp_credential (w_io w 1)
         \<lparr> totp_id = w_random w 1, totp_user_id = ses_user_id ses, totp_secret = secret,
           totp_algorithm = ''SHA1'', totp_digits = 6, totp_period = 30, totp_enabled = False,
           totp_last_used_step = None, totp_created_at = w_clock w 1 \<rparr>)) (\<lambda>_. give secret))))))"

definition totp_verify :: "world \<Rightarrow> deployment \<Rightarrow> string \<Rightarrow> string option \<Rightarrow> string \<Rightarrow> unit act" where
  "totp_verify w d realm cookie code =
     bind_act (load_browser_session w d realm cookie) (\<lambda>(rt, _, ses).
     bind_act (totp_unavailable rt) (\<lambda>_.
     bind_act (repo_read (get_totp_credential (ses_user_id ses))) (\<lambda>found.
     bind_act (require_some found (NotFound (''totp credential for user '' @ ses_user_id ses))) (\<lambda>cred.
     bind_act (admit_totp w realm (ses_user_id ses) (rt_totp rt)) (\<lambda>_.
     bind_act (claim_totp w d realm (ses_user_id ses) (cred\<lparr>totp_enabled := True\<rparr>) cred code) (\<lambda>step.
       repo_op (store_totp_credential (w_io w 3)
         (cred\<lparr>totp_enabled := True, totp_last_used_step := Some step\<rparr>))))))))"

definition totp_authenticate ::
  "world \<Rightarrow> deployment \<Rightarrow> string \<Rightarrow> string option \<Rightarrow> string \<Rightarrow> string \<Rightarrow> session act" where
  "totp_authenticate w d realm cookie user_id code =
     bind_act (require_realm d realm) (\<lambda>rt.
     bind_act (totp_unavailable rt) (\<lambda>_.
     bind_act (repo_read (get_user_by_id user_id)) (\<lambda>found.
     bind_act (require_some found (NotFound (''user '' @ user_id))) (\<lambda>u.
     bind_act (require (usr_realm_id u = realm) (Unauthorized ''TOTP user does not belong to request realm'')) (\<lambda>_.
     bind_act (repo_read (get_totp_credential (usr_id u))) (\<lambda>found_cred.
     bind_act (require_some found_cred (NotFound (''totp credential for user '' @ usr_id u))) (\<lambda>cred.
     bind_act (require (totp_enabled cred) (BadRequest ''TOTP not enabled for this user'')) (\<lambda>_.
     bind_act (admit_totp w realm (usr_id u) (rt_totp rt)) (\<lambda>_.
     bind_act (claim_totp w d realm (usr_id u) cred cred code) (\<lambda>_.
       create_with_regeneration w (manager_of rt) realm (usr_id u) ''urn:qid:acr:totp'' [''totp'']
         (extract_cookie cookie (rt_cookie_name rt))))))))))))"

section \<open>What a handler may do to the repository\<close>

lemma repo_read_Inr [simp]: "repo_read f s = (Inr a, s') \<longleftrightarrow> f (sv_repo s) = Inr a \<and> s' = s"
  by (auto simp: repo_read_def)

lemma repo_op_Inr:
  "repo_op f s = (Inr a, s') \<longleftrightarrow> fst (f (sv_repo s)) = Inr a \<and> s' = s\<lparr>sv_repo := snd (f (sv_repo s))\<rparr>"
  by (auto simp: repo_op_def split: prod.splits)

definition acts :: "(file_repository \<Rightarrow> file_repository \<Rightarrow> bool) \<Rightarrow> 'a act \<Rightarrow> bool" where
  "acts rel m \<longleftrightarrow> (\<forall>s. rel (sv_repo s) (sv_repo (snd (m s))))"

text \<open>A preorder on repositories, and the handlers that stay inside it.\<close>

locale repo_relation =
  fixes rel :: "file_repository \<Rightarrow> file_repository \<Rightarrow> bool"
  assumes rel_refl: "rel r r"
    and rel_trans: "rel r1 r2 \<Longrightarrow> rel r2 r3 \<Longrightarrow> rel r1 r3"
begin

lemma acts_give: "acts rel (give a)"
  by (simp add: acts_def give_def rel_refl)

lemma acts_refuse: "acts rel (refuse e)"
  by (simp add: acts_def refuse_def rel_refl)

lemma acts_require: "acts rel (require b e)"
  by (simp add: require_def acts_give acts_refuse)

lemma acts_require_some: "acts rel (require_some x e)"
  by (simp add: require_some_def acts_give acts_refuse split: option.split)

lemma acts_read: "acts rel (repo_read f)"
  by (simp add: acts_def repo_read_def rel_refl)

lemma acts_op: "(\<And>r. rel r (snd (f r))) \<Longrightarrow> acts rel (repo_op f)"
  by (simp add: acts_def repo_op_def split: prod.split) (metis snd_conv)

lemma acts_ignore: "acts rel m \<Longrightarrow> acts rel (ignore_failure m)"
  by (simp add: acts_def ignore_failure_def)

lemma acts_elsewhere: "(\<And>s. sv_repo (snd (m s)) = sv_repo s) \<Longrightarrow> acts rel m"
  by (simp add: acts_def rel_refl)

lemma acts_pure: "acts rel (\<lambda>s. (v, s))" "acts rel (\<lambda>s. require (p s) e s)"
  by (auto intro!: acts_elsewhere simp: require_def give_def refuse_def)

lemma acts_cases:
  "acts rel x \<Longrightarrow> acts rel y \<Longrightarrow> acts rel (if b then x else y)"
  "acts rel x \<Longrightarrow> (\<And>a. acts rel (g a)) \<Longrightarrow> acts rel (case v of None \<Rightarrow> x | Some a \<Rightarrow> g a)"
  "(\<And>a b. acts rel (h a b)) \<Longrightarrow> acts rel (case pr of (a, b) \<Rightarrow> h a b)"
  by (simp_all split: option.split prod.split)

lemma acts_bind:
  assumes "acts rel m" "\<And>a. acts rel (f a)"
  shows "acts rel (bind_act m f)"
  unfolding acts_def
proof
  fix s
  obtain a s1 where m: "m s = (a, s1)" by fastforce
  have "rel (sv_repo s) (sv_repo s1)" using assms(1) m by (metis acts_def snd_conv)
  moreover have "rel (sv_repo s1) (sv_repo (snd (f b s1)))" for b using assms(2) by (simp add: acts_def)
  ultimately show "rel (sv_repo s) (sv_repo (snd (bind_act m f s)))"
    using m rel_trans by (auto simp: bind_act_def split: sum.split)
qed

lemma acts_attempt: "acts rel m \<Longrightarrow> acts rel (attempt m)"
  by (simp add: acts_def attempt_def)

lemma acts_lift: "acts rel (lift_result x)"
  by (simp add: acts_def lift_result_def rel_refl)

lemmas acts_basic = acts_give acts_refuse acts_require acts_require_some acts_read acts_lift acts_ignore acts_attempt
  acts_pure acts_cases acts_bind

end

text \<open>
  A preorder that the operations the session handlers call respect. Sessions may be created
  under the identifiers \<^verbatim>\<open>fresh\<close> allows.
\<close>

locale handler_relation = repo_relation +
  fixes fresh :: "string \<Rightarrow> bool"
  assumes rel_update_user: "rel r (snd (update_user io u realm r))"
    and rel_update_credential: "rel r (snd (update_password_credential_in_realm io cred owner r))"
    and rel_create_session: "fresh (ses_id ses) \<Longrightarrow> rel r (snd (create_session io ses r))"
    and rel_revoke_session: "rel r (snd (revoke_session io sid scope r))"
    and rel_idle_expiry: "rel r (snd (update_session_idle_expiry io sid tm scope r))"
    and rel_store_totp: "rel r (snd (store_totp_credential io totp r))"
    and rel_consume_totp: "rel r (snd (consume_totp_step io totp step r))"
    and rel_attempt_login: "rel r (snd (attempt_push_login io login decision tm r))"
    and rel_redeem_login: "rel r (snd (redeem_push_login io login binding tm r))"
    and rel_issue_login: "rel r (snd (try_issue_push_login io tm login n window r))"
    and rel_resend_login: "rel r (snd (try_resend_push_login io tm login binding nonce n window cooldown r))"
begin

lemmas acts_ops =
  rel_update_user [THEN acts_op] rel_update_credential [THEN acts_op] rel_revoke_session [THEN acts_op]
  rel_idle_expiry [THEN acts_op] rel_store_totp [THEN acts_op] rel_consume_totp [THEN acts_op]
  rel_attempt_login [THEN acts_op] rel_redeem_login [THEN acts_op] rel_issue_login [THEN acts_op]
  rel_resend_login [THEN acts_op]

lemma acts_record_failed: "acts rel (record_failed_attempt w policy realm u now)"
  unfolding acts_def
proof
  fix s
  let ?u = "let attempts = usr_failed_login_attempts u + 1; u = u\<lparr>usr_failed_login_attempts := attempts\<rparr>
    in if max_failed_attempts policy \<le> attempts
       then u\<lparr>usr_locked_until := Some (now + lockout_duration_seconds policy)\<rparr> else u"
  have "sv_repo (snd (record_failed_attempt w policy realm u now s)) = snd (update_user (w_io w 3) ?u (Some realm) (sv_repo s))"
    by (simp add: record_failed_attempt_def repo_op_def Let_def split: prod.split)
  thus "rel (sv_repo s) (sv_repo (snd (record_failed_attempt w policy realm u now s)))"
    using rel_update_user by simp
qed

lemmas acts_rules = acts_basic acts_ops acts_record_failed

lemma acts_authenticate: "acts rel (authenticate_password w policy creds realm email password)"
  unfolding authenticate_password_def check_lockout_def fail_login_def finish_login_def Let_def
  by (intro acts_rules)

lemma acts_require_realm: "acts rel (require_realm d realm)"
  unfolding require_realm_def by (intro acts_rules)

lemma acts_load: "acts rel (load_browser_session w d realm cookie)"
  unfolding load_browser_session_def
proof (intro acts_bind acts_require_realm acts_require_some acts_elsewhere)
  fix rt sid s
  have "session_get w sid s = (Inr (opt_filter (\<lambda>ses. is_active ses (w_clock w 0)) (hm_get (st_sessions (repo_store (sv_repo s))) sid)), s)"
    by (simp add: session_get_def bind_act_def repo_read_def get_session_def map_get_def give_def)
  thus "sv_repo (snd (case session_get w sid s of
      (Inl e, s') \<Rightarrow> refuse (Unauthorized ''invalid or expired session'') s'
    | (Inr None, s') \<Rightarrow> refuse (Unauthorized ''invalid or expired session'') s'
    | (Inr (Some ses), s') \<Rightarrow> bind_act (require (ses_realm_id ses = realm)
        (Unauthorized ''session realm does not match request realm'')) (\<lambda>_. give (rt, sid, ses)) s')) = sv_repo s"
    by (auto simp: refuse_def require_def bind_act_def give_def split: option.split)
qed

lemma acts_available: "acts rel (available d realm)"
  unfolding available_def by (intro acts_rules acts_require_realm)

lemma acts_push:
  "acts rel (prepare w d realm user binding)" "acts rel (send d c)" "acts rel (push_start w d auth)"
  "acts rel (record_decision_in_realm w d realm req)" "acts rel (resend_bound w d realm cookie user i)"
  "acts rel (complete_password w d c binding)"
  unfolding prepare_def send_def push_start_def record_decision_in_realm_def record_decision_def resend_bound_def
    resend_def complete_password_def check_cookie_def Let_def
  by (intro acts_rules acts_available)+

lemma acts_push_factor: "acts rel (push_factor_satisfied realm user amr)"
  unfolding push_factor_satisfied_def Let_def by (intro acts_rules)

lemma acts_totp_parts:
  "acts rel (admit_totp w realm user policy)" "acts rel (claim_totp w d realm user probe cred code)"
  "acts rel (totp_unavailable rt)"
  unfolding admit_totp_def claim_totp_def totp_unavailable_def
  by (intro acts_rules acts_elsewhere; simp split: prod.split)+

lemma acts_totp:
  "acts rel (totp_enroll w d realm cookie)" "acts rel (totp_verify w d realm cookie code)"
  unfolding totp_enroll_def totp_verify_def Let_def
  by (intro acts_rules acts_totp_parts acts_load)+

lemma acts_session:
  "acts rel (session_refresh w d realm cookie)" "acts rel (session_revoke w d realm cookie)"
  unfolding session_refresh_def session_revoke_def Let_def
  by (intro acts_rules acts_load)+

lemma acts_create:
  assumes "fresh (''sid_'' @ w_random w 10)"
  shows "acts rel (create_with_regeneration w m realm user acr amr old)"
  unfolding create_with_regeneration_def create_def Let_def
  by (intro acts_rules acts_op rel_create_session) (use assms in simp)

lemma acts_establish:
  assumes "fresh (''sid_'' @ w_random w 10)"
  shows "acts rel (establish_session w d realm cookie auth)"
  unfolding establish_session_def by (intro acts_rules acts_require_realm acts_create assms)

lemma acts_logins:
  assumes "fresh (''sid_'' @ w_random w 10)"
  shows "acts rel (password_auth w d realm cookie email password)"
    "acts rel (push_finish w d realm cookie user i)"
    "acts rel (totp_authenticate w d realm cookie user code)"
proof -
  show "acts rel (password_auth w d realm cookie email password)"
    unfolding password_auth_def Let_def
    by (intro acts_rules acts_require_realm acts_authenticate acts_push_factor acts_establish acts_push assms acts_elsewhere;
        simp split: prod.split)
  show "acts rel (push_finish w d realm cookie user i)"
    unfolding push_finish_def check_cookie_def
    by (intro acts_rules acts_available acts_push acts_establish assms)
  show "acts rel (totp_authenticate w d realm cookie user code)"
    unfolding totp_authenticate_def
    by (intro acts_rules acts_require_realm acts_totp_parts acts_create assms)
qed

end

section \<open>Requests\<close>

text \<open>Every request the session routes serve.\<close>

inductive request_step :: "deployment \<Rightarrow> world \<Rightarrow> service \<Rightarrow> service \<Rightarrow> bool" where
  req_password: "request_step d w s (snd (password_auth w d realm cookie email password s))"
| req_push_finish: "request_step d w s (snd (push_finish w d realm cookie user i s))"
| req_push_resend: "request_step d w s (snd (resend_bound w d realm cookie user i s))"
| req_push_decision: "request_step d w s (snd (record_decision_in_realm w d realm req s))"
| req_totp: "request_step d w s (snd (totp_authenticate w d realm cookie user code s))"
| req_totp_enroll: "request_step d w s (snd (totp_enroll w d realm cookie s))"
| req_totp_verify: "request_step d w s (snd (totp_verify w d realm cookie code s))"
| req_refresh: "request_step d w s (snd (session_refresh w d realm cookie s))"
| req_revoke: "request_step d w s (snd (session_revoke w d realm cookie s))"

text \<open>
  The two relations of interest: the steps that do not issue a given session anew, and the
  changes that add no session at all.
\<close>

abbreviation sessions_of :: "file_repository \<Rightarrow> (string, session) hash_map" where
  "sessions_of r \<equiv> st_sessions (repo_store r)"

definition adds_no_session :: "file_repository \<Rightarrow> file_repository \<Rightarrow> bool" where
  "adds_no_session r r' \<longleftrightarrow> dom (hm_get (sessions_of r')) \<subseteq> dom (hm_get (sessions_of r))"

lemma grant_step_tokens:
  "grant_issue k \<noteq> IssueSession (ses_id ses) \<Longrightarrow> grant_step k r (snd (create_session io ses r))"
  "grant_step k r (snd (revoke_session io i scope r))"
  "grant_step k r (snd (update_session_idle_expiry io i tm scope r))"
proof -
  have quiet: "grant_step k r r'" if "token_step IssueNothing r r'" for r'
    using repo_step.token [OF that] by (cases k) (force simp: grant_step_def)+
  show "grant_issue k \<noteq> IssueSession (ses_id ses) \<Longrightarrow> grant_step k r (snd (create_session io ses r))"
    using repo_step.token [OF token_step.intros(1) [of ses r io]] by (force simp: grant_step_def)
  show "grant_step k r (snd (revoke_session io i scope r))"
    "grant_step k r (snd (update_session_idle_expiry io i tm scope r))"
    by (rule quiet, rule token_step.intros)+
qed

lemma grant_step_others:
  "grant_step k r (snd (update_user io u realm r))"
  "grant_step k r (snd (update_password_credential_in_realm io cred owner r))"
  "grant_step k r (snd (store_totp_credential io totp r))"
  "grant_step k r (snd (consume_totp_step io totp step r))"
  "grant_step k r (snd (attempt_push_login io login decision tm r))"
  "grant_step k r (snd (redeem_push_login io login binding tm r))"
  "grant_step k r (snd (try_issue_push_login io tm login n window r))"
  "grant_step k r (snd (try_resend_push_login io tm login binding nonce n window cooldown r))"
  unfolding grant_step_def
  by (cases k; auto intro!: exI repo_step.intros identity_step.intros credential_step.intros push_step.intros)+

interpretation unrevived: handler_relation "(grant_step k)\<^sup>*\<^sup>*" "\<lambda>i. grant_issue k \<noteq> IssueSession i"
  for k
  by unfold_locales (auto intro: grant_step_tokens grant_step_others)

lemma push_only_sessions: "push_only s s' \<Longrightarrow> st_sessions s' = st_sessions s"
  unfolding push_only_def by (erule ssubst) simp

lemma adds_no_session_push:
  assumes "push_step ev r r'"
  shows "adds_no_session r r'"
  using push_only_sessions [OF push_step_frame [OF assms]] by (simp add: adds_no_session_def)

lemma sessions_unchanged:
  "sessions_of (snd (update_user io u realm r)) = sessions_of r"
  "sessions_of (snd (update_password_credential_in_realm io cred owner r)) = sessions_of r"
  "sessions_of (snd (store_totp_credential io totp r)) = sessions_of r"
  "sessions_of (snd (consume_totp_step io totp step r)) = sessions_of r"
proof -
  show "sessions_of (snd (update_user io u realm r)) = sessions_of r"
    "sessions_of (snd (update_password_credential_in_realm io cred owner r)) = sessions_of r"
    "sessions_of (snd (store_totp_credential io totp r)) = sessions_of r"
    unfolding update_user_def update_password_credential_in_realm_def store_totp_credential_def
    by (rule try_write_relates [where rel = "\<lambda>s s'. st_sessions s' = st_sessions s"];
        auto simp: Let_def split: if_splits option.splits)+
  show "sessions_of (snd (consume_totp_step io totp step r)) = sessions_of r"
    by (simp add: consume_totp_step_def Let_def split: option.split)
qed

lemma adds_no_session_tokens:
  "adds_no_session r (snd (revoke_session io i scope r))"
  "adds_no_session r (snd (update_session_idle_expiry io i tm scope r))"
  by (auto simp: adds_no_session_def revoke_session_def update_session_idle_expiry_def session_in_scope_def Let_def
      split: option.splits if_splits)

lemma adds_no_session_same: "sessions_of r' = sessions_of r \<Longrightarrow> adds_no_session r r'"
  by (simp add: adds_no_session_def)

lemma adds_no_session_trans: "adds_no_session r1 r2 \<Longrightarrow> adds_no_session r2 r3 \<Longrightarrow> adds_no_session r1 r3"
  unfolding adds_no_session_def by (rule subset_trans)

interpretation quiet: handler_relation adds_no_session "\<lambda>_. False"
  by unfold_locales
     (blast intro: adds_no_session_same adds_no_session_same [OF sessions_unchanged(1)]
        adds_no_session_same [OF sessions_unchanged(2)] adds_no_session_same [OF sessions_unchanged(3)]
        adds_no_session_same [OF sessions_unchanged(4)] adds_no_session_trans adds_no_session_tokens
        adds_no_session_push push_step.intros)+

text \<open>A session that appears during a handler appears in its last step.\<close>

definition new_session :: "string \<Rightarrow> session \<Rightarrow> service \<Rightarrow> service \<Rightarrow> bool" where
  "new_session sid ses s s' \<longleftrightarrow>
     hm_get (sessions_of (sv_repo s)) sid = None \<and> hm_get (sessions_of (sv_repo s')) sid = Some ses"

lemma quiet_no_new: "acts adds_no_session m \<Longrightarrow> \<not> new_session sid ses s (snd (m s))"
  by (fastforce simp: acts_def adds_no_session_def new_session_def)

lemma new_session_bind:
  assumes "new_session sid ses s (snd (bind_act m f s))" "acts adds_no_session m"
  obtains a s1 where "m s = (Inr a, s1)" "new_session sid ses s1 (snd (f a s1))"
proof -
  obtain x s1 where m: "m s = (x, s1)" by fastforce
  have none: "hm_get (sessions_of (sv_repo s1)) sid = None"
    using assms m unfolding acts_def adds_no_session_def new_session_def
    by (metis domIff snd_conv subsetD)
  show ?thesis
  proof (cases x)
    case (Inl e)
    hence "snd (bind_act m f s) = s1" using m by (simp add: bind_act_def)
    thus ?thesis using assms(1) none by (simp add: new_session_def)
  next
    case (Inr a)
    thus ?thesis using that [of a s1] m none assms(1) by (simp add: bind_act_def new_session_def)
  qed
qed

lemma new_session_create:
  assumes "new_session sid ses s (snd (create_with_regeneration w m realm user acr amr old s))"
  shows "sid = ''sid_'' @ w_random w 10 \<and> ses_id ses = sid \<and> ses_realm_id ses = realm \<and> ses_user_id ses = user \<and>
    ses_acr ses = Some acr \<and> ses_amr ses = amr \<and> \<not> ses_revoked ses"
proof -
  have "acts adds_no_session (case old of None \<Rightarrow> give () | Some old_id \<Rightarrow>
      ignore_failure (repo_op (revoke_session (w_io w 9) old_id (Some realm))))"
    by (intro quiet.acts_rules)
  from assms [unfolded create_with_regeneration_def] this obtain s1
    where "new_session sid ses s1 (snd (create w m realm user acr amr s1))"
    by (rule new_session_bind) blast
  moreover obtain x where x: "x = \<lparr> ses_id = ''sid_'' @ w_random w 10, ses_realm_id = realm, ses_user_id = user,
      ses_auth_time = w_clock w 10, ses_acr = Some acr, ses_amr = amr,
      ses_idle_expires_at = w_clock w 10 + sm_idle_timeout_seconds m,
      ses_absolute_expires_at = w_clock w 10 + sm_absolute_timeout_seconds m,
      ses_revoked = False, ses_created_at = w_clock w 10, ses_cnf = None \<rparr>" by blast
  moreover have "sv_repo (snd (create w m realm user acr amr s1)) = snd (create_session (w_io w 10) x (sv_repo s1))"
    by (simp add: create_def x Let_def bind_act_def repo_op_def give_def split: prod.split sum.split)
  moreover have "hm_get (sessions_of (snd (create_session (w_io w 10) x (sv_repo s1)))) sid =
      hm_get (sessions_of (sv_repo s1)) sid \<or>
    sid = ses_id x \<and> hm_get (sessions_of (snd (create_session (w_io w 10) x (sv_repo s1)))) sid = Some x"
    by (auto simp: create_session_def try_write_store split: sum.splits)
  ultimately have "ses = x" "sid = ses_id x" by (auto simp: new_session_def)
  thus ?thesis using x by simp
qed

section \<open>What stands behind a session\<close>

lemma account_frame:
  "st_push (repo_store (snd (update_user io u realm r))) = st_push (repo_store r)"
  "st_credentials_password (repo_store (snd (update_user io u realm r))) = st_credentials_password (repo_store r)"
  "st_push (repo_store (snd (update_password_credential_in_realm io cred owner r))) = st_push (repo_store r)"
proof -
  show "st_push (repo_store (snd (update_user io u realm r))) = st_push (repo_store r)"
    "st_push (repo_store (snd (update_password_credential_in_realm io cred owner r))) = st_push (repo_store r)"
    unfolding update_user_def update_password_credential_in_realm_def
    by (rule try_write_relates [where rel = "\<lambda>s s'. st_push s' = st_push s"];
        auto simp: Let_def split: if_splits option.splits)+
  show "st_credentials_password (repo_store (snd (update_user io u realm r))) = st_credentials_password (repo_store r)"
    unfolding update_user_def
    by (rule try_write_relates [where rel = "\<lambda>s s'. st_credentials_password s' = st_credentials_password s"];
        auto simp: Let_def split: if_splits option.splits)
qed

definition password_verified :: "deployment \<Rightarrow> world \<Rightarrow> service \<Rightarrow> string \<Rightarrow> string \<Rightarrow> string \<Rightarrow> user \<Rightarrow> bool" where
  "password_verified d w s realm email password u \<longleftrightarrow>
     get_user_by_email realm email (sv_repo s) = Inr (Some u) \<and>
     none_or (usr_locked_until u) (\<lambda>locked. locked \<le> w_clock w 2) \<and>
     (\<exists>creds cred. dp_password_context d realm = Inr creds \<and>
        hm_get (st_credentials_password (repo_store (sv_repo s))) (usr_id u) = Some cred \<and>
        fst (pwv_verify creds password cred))"

lemma check_lockout_Inr:
  assumes "check_lockout w realm u now s = (Inr x, s')"
  shows "none_or (usr_locked_until u) (\<lambda>locked. locked \<le> now)"
    "st_push (repo_store (sv_repo s')) = st_push (repo_store (sv_repo s))"
    "st_credentials_password (repo_store (sv_repo s')) = st_credentials_password (repo_store (sv_repo s))"
  using assms by (cases "usr_locked_until u";
    auto simp: check_lockout_def repo_op_Inr account_frame not_less split: if_splits)+

lemma finish_login_Inr:
  assumes "finish_login w creds realm password u rehash s = (Inr auth, s')"
  shows "ar_user auth = u" "ar_amr auth = [''pwd'']"
    "st_push (repo_store (sv_repo s')) = st_push (repo_store (sv_repo s))"
  using assms unfolding finish_login_def bind_act_Inr
  by (auto simp: repo_op_Inr account_frame bind_act_Inr split: if_splits)

lemma authenticate_sound:
  assumes "authenticate_password w policy (Some creds) realm email password s = (Inr auth, s')"
    and ctx: "dp_password_context d realm = Inr creds"
  shows "password_verified d w s realm email password (ar_user auth)" "ar_amr auth = [''pwd'']"
    "st_push (repo_store (sv_repo s')) = st_push (repo_store (sv_repo s))"
proof -
  obtain u cred s1 where u: "get_user_by_email realm email (sv_repo s) = Inr (Some u)"
    and lock: "check_lockout w realm u (w_clock w 2) s = (Inr (), s1)"
    and cred: "get_password_credential (usr_id u) (sv_repo s1) = Inr (Some cred)"
    and valid: "fst (pwv_verify creds password cred)"
    and fin: "finish_login w creds realm password u (snd (pwv_verify creds password cred)) s1 = (Inr auth, s')"
    using assms(1) unfolding authenticate_password_def Let_def
    by (auto simp: bind_act_Inr fail_login_def case_prod_unfold split: option.splits if_splits)
  show "password_verified d w s realm email password (ar_user auth)"
    using u cred valid ctx check_lockout_Inr [OF lock]
    by (auto simp: password_verified_def finish_login_Inr(1) [OF fin] get_password_credential_def)
  show "ar_amr auth = [''pwd'']" "st_push (repo_store (sv_repo s')) = st_push (repo_store (sv_repo s))"
    using finish_login_Inr [OF fin] check_lockout_Inr [OF lock] by simp_all
qed

lemma list_push_authenticators_cong:
  "st_push (repo_store r') = st_push (repo_store r) \<Longrightarrow>
     list_push_authenticators realm user r' = list_push_authenticators realm user r"
  by (simp add: list_push_authenticators_def)

lemma push_factor_sound:
  assumes "push_factor_satisfied realm user [''pwd''] s = (Inr True, s')"
  shows "\<exists>as. list_push_authenticators realm user (sv_repo s) = Inr as \<and> (\<forall>a\<in>set as. pa_revoked_at a \<noteq> None)"
  using assms by (auto simp: push_factor_satisfied_def bind_act_Inr list_ex_iff)

text \<open>The three proofs: a password without an enrolled device, an approved push, an unused code.\<close>

definition password_proof :: "deployment \<Rightarrow> world \<Rightarrow> service \<Rightarrow> session \<Rightarrow> bool" where
  "password_proof d w s ses \<longleftrightarrow> ses_amr ses = [''pwd''] \<and>
     (\<exists>rt email password u as. map_of (dp_realms d) (ses_realm_id ses) = Some rt \<and>
        accepts_password_authentication rt \<and>
        fst (password_admit (w_clock w 0) (ses_realm_id ses) email (rt_password rt) (sv_password_limiter s)) \<and>
        password_verified d w s (ses_realm_id ses) email password u \<and> usr_id u = ses_user_id ses \<and>
        list_push_authenticators (ses_realm_id ses) (ses_user_id ses) (sv_repo s) = Inr as \<and>
        (\<forall>a\<in>set as. pa_revoked_at a \<noteq> None))"

definition push_proof :: "deployment \<Rightarrow> world \<Rightarrow> service \<Rightarrow> session \<Rightarrow> bool" where
  "push_proof d w s ses \<longleftrightarrow> ses_amr ses = [''pwd'', ''push''] \<and>
     (\<exists>c u binding. hm_get (ps_logins (st_push (repo_store (sv_repo s)))) (plc_id c) = Some c \<and>
        plc_realm_id c = ses_realm_id ses \<and> plc_decision c = Some PushApprove \<and> plc_consumed_at c = None \<and>
        plc_browser_binding_verifier c = browser_verifier d binding \<and>
        hm_get (st_users (repo_store (sv_repo s))) (plc_user_id c) = Some u \<and>
        usr_id u = ses_user_id ses \<and> usr_realm_id u = ses_realm_id ses)"

definition totp_proof :: "deployment \<Rightarrow> world \<Rightarrow> service \<Rightarrow> session \<Rightarrow> bool" where
  "totp_proof d w s ses \<longleftrightarrow> ses_amr ses = [''totp''] \<and>
     (\<exists>cred stored code step. get_totp_credential (ses_user_id ses) (sv_repo s) = Inr (Some cred) \<and> totp_enabled cred \<and>
        verify_totp_at_with_step d cred code (w_clock w 2) = Inr (Some step) \<and>
        hm_get (st_totp_credentials (repo_store (sv_repo s))) (totp_id cred) = Some stored \<and>
        \<not> opt_le (Some step) (totp_last_used_step stored))"

lemma new_session_establish:
  assumes "new_session sid ses s (snd (establish_session w d realm cookie auth s))"
  shows "ses_realm_id ses = realm" "ses_user_id ses = usr_id (ar_user auth)" "ses_amr ses = ar_amr auth"
proof -
  from assms [unfolded establish_session_def] quiet.acts_require_realm obtain rt s1
    where "new_session sid ses s1 (snd (create_with_regeneration w (manager_of rt) realm (usr_id (ar_user auth))
      (ar_acr auth) (ar_amr auth) (extract_cookie cookie (rt_cookie_name rt)) s1))"
    by (rule new_session_bind) blast
  from new_session_create [OF this]
  show "ses_realm_id ses = realm" "ses_user_id ses = usr_id (ar_user auth)" "ses_amr ses = ar_amr auth" by simp_all
qed

lemma snd_bind_give: "snd (bind_act m (\<lambda>a. give (g a)) s) = snd (m s)"
  by (simp add: bind_act_def give_def split: prod.split sum.split)

lemmas new_session_elims =
  new_session_bind [OF _ quiet.acts_require_realm] new_session_bind [OF _ quiet.acts_require]
  new_session_bind [OF _ quiet.acts_require_some] new_session_bind [OF _ quiet.acts_read]
  new_session_bind [OF _ quiet.acts_authenticate] new_session_bind [OF _ quiet.acts_push_factor]
  new_session_bind [OF _ quiet.acts_available] new_session_bind [OF _ quiet.acts_push(6)]
  new_session_bind [OF _ quiet.acts_totp_parts(1)] new_session_bind [OF _ quiet.acts_totp_parts(2)]
  new_session_bind [OF _ quiet.acts_totp_parts(3)]
  new_session_bind [OF _ quiet.acts_pure(1)] new_session_bind [OF _ quiet.acts_elsewhere]

lemma password_session:
  assumes "new_session sid ses s (snd (password_auth w d realm cookie email password s))"
  shows "password_proof d w s ses"
proof -
  obtain rt lim creds auth s2 s3 s4 sat where
    rt: "map_of (dp_realms d) realm = Some rt" "accepts_password_authentication rt"
    and adm: "fst (password_admit (w_clock w 0) realm email (rt_password rt) (sv_password_limiter s))"
    and ctx: "dp_password_context d realm = Inr creds"
    and auth: "authenticate_password w (rt_password rt) (Some creds) realm email password
      (s\<lparr>sv_password_limiter := lim\<rparr>) = (Inr auth, s2)"
    and sat: "push_factor_satisfied realm (usr_id (ar_user auth)) (ar_amr auth) s3 = (Inr sat, s4)" "sv_repo s3 = sv_repo s2"
    and new: "new_session sid ses s4 (snd ((if sat then bind_act (establish_session w d realm cookie auth)
      (\<lambda>ses. give (Session_Reply ses)) else push_start w d auth) s4))"
    using assms unfolding password_auth_def Let_def
    by (elim new_session_elims) (auto simp: require_realm_def case_prod_unfold)
  have "sat" using new quiet_no_new [OF quiet.acts_push(3)] by (cases sat) auto
  hence est: "new_session sid ses s4 (snd (establish_session w d realm cookie auth s4))"
    using new by (simp add: snd_bind_give)
  note sound = authenticate_sound [OF auth ctx]
  have "\<exists>as. list_push_authenticators realm (usr_id (ar_user auth)) (sv_repo s) = Inr as \<and> (\<forall>a\<in>set as. pa_revoked_at a \<noteq> None)"
    using push_factor_sound [of realm "usr_id (ar_user auth)" s3 s4] sat \<open>sat\<close> sound(2,3)
      list_push_authenticators_cong [of "sv_repo s2" "sv_repo s" realm "usr_id (ar_user auth)"]
    by simp
  moreover have "password_verified d w s realm email password (ar_user auth)"
    using sound(1) by (simp add: password_verified_def)
  ultimately show ?thesis
    using rt adm new_session_establish [OF est] sound(2) unfolding password_proof_def by auto
qed

lemma redeem_push_login_approved:
  assumes "fst (redeem_push_login io c binding now r) = Inr True"
  shows "\<exists>stored. hm_get (ps_logins (st_push (repo_store r))) (plc_id c) = Some stored \<and> plc_id stored = plc_id c \<and>
    plc_realm_id stored = plc_realm_id c \<and> plc_user_id stored = plc_user_id c \<and>
    plc_decision stored = Some PushApprove \<and> plc_consumed_at stored = None \<and>
    plc_browser_binding_verifier stored = binding"
proof -
  obtain s where "change_login (redeem c binding now) c (repo_store r) = Inr (s, True)"
    using assms unfolding redeem_push_login_def mutate_push_def mutate_push_value_def
    by (auto simp: Let_def with_current_def write_store_content_def split: sum.splits option.splits if_splits prod.splits)
  then obtain stored c' where stored: "hm_get (ps_logins (st_push (repo_store r))) (plc_id c) = Some stored"
    "redeem c binding now stored = Some c'" "plc_id stored = plc_id c"
    by (auto simp: change_login_def Let_def split: option.splits if_splits)
  have "same_login stored c" using stored(2) by (auto simp: redeem_def split: if_splits)
  note same = this [unfolded same_login_def]
  have "plc_realm_id stored = plc_realm_id c" "plc_user_id stored = plc_user_id c"
    using arg_cong [OF same, of plc_realm_id] arg_cong [OF same, of plc_user_id] by simp_all
  thus ?thesis using stored by (auto simp: redeem_def constant_time_eq_def split: if_splits)
qed

lemma push_session:
  assumes "new_session sid ses s (snd (push_finish w d realm cookie user i s))"
  shows "push_proof d w s ses"
proof -
  obtain binding c auth s1 where
    c: "get_push_login realm user i (sv_repo s) = Inr (Some c)"
    and auth: "complete_password w d c (browser_verifier d binding) s = (Inr auth, s1)"
    and new: "new_session sid ses s1 (snd (establish_session w d realm cookie auth s1))"
    using assms unfolding push_finish_def check_cookie_def
    by (elim new_session_elims) (auto simp: available_def require_realm_def bind_act_Inr split: if_splits)
  have realm: "plc_realm_id c = realm"
    using c by (auto simp: get_push_login_def Let_def split: option.splits if_splits)
  obtain u where u: "hm_get (st_users (repo_store (sv_repo s))) (plc_user_id c) = Some u" "usr_realm_id u = plc_realm_id c"
    "ar_user auth = u" "ar_amr auth = [''pwd'', ''push'']"
    and red: "fst (redeem_push_login (w_io w 1) c (browser_verifier d binding) (w_clock w 1) (sv_repo s)) = Inr True"
    using auth unfolding complete_password_def
    by (auto simp: bind_act_Inr available_def require_realm_def get_user_by_id_def map_get_def repo_op_Inr split: if_splits)
  obtain stored where stored: "hm_get (ps_logins (st_push (repo_store (sv_repo s)))) (plc_id stored) = Some stored"
    "plc_realm_id stored = plc_realm_id c" "plc_user_id stored = plc_user_id c" "plc_decision stored = Some PushApprove"
    "plc_consumed_at stored = None" "plc_browser_binding_verifier stored = browser_verifier d binding"
    using redeem_push_login_approved [OF red] by metis
  show ?thesis unfolding push_proof_def
  proof (intro conjI exI)
    show "hm_get (ps_logins (st_push (repo_store (sv_repo s)))) (plc_id stored) = Some stored" by (rule stored(1))
    show "hm_get (st_users (repo_store (sv_repo s))) (plc_user_id stored) = Some u" using u(1) stored(3) by simp
    show "plc_browser_binding_verifier stored = browser_verifier d binding" by (rule stored(6))
  qed (use stored u realm new_session_establish [OF new] in simp_all)
qed

lemma claim_totp_Inr:
  assumes "claim_totp w d realm user probe cred code s = (Inr step, s')"
  shows "verify_totp_at_with_step d probe code (w_clock w 2) = Inr (Some step)"
    "\<exists>stored. hm_get (st_totp_credentials (repo_store (sv_repo s))) (totp_id cred) = Some stored \<and>
       \<not> opt_le (Some step) (totp_last_used_step stored)"
  using assms unfolding claim_totp_def bind_act_Inr
  by (auto simp: repo_op_Inr consume_totp_step_def Let_def split: option.splits if_splits)

lemma admit_totp_repo: "admit_totp w realm user policy s = (Inr x, s') \<Longrightarrow> sv_repo s' = sv_repo s"
  by (auto simp: admit_totp_def bind_act_Inr case_prod_unfold)

lemma totp_session:
  assumes "new_session sid ses s (snd (totp_authenticate w d realm cookie user code s))"
  shows "totp_proof d w s ses"
proof -
  obtain rt :: runtime_realm and u :: user and cred s1 s2 step where
    cred: "get_totp_credential (usr_id u) (sv_repo s) = Inr (Some cred)" "totp_enabled cred"
    and adm: "admit_totp w realm (usr_id u) (rt_totp rt) s = (Inr (), s1)"
    and claim: "claim_totp w d realm (usr_id u) cred cred code s1 = (Inr step, s2)"
    and new: "new_session sid ses s2 (snd (create_with_regeneration w (manager_of rt) realm (usr_id u)
      ''urn:qid:acr:totp'' [''totp''] (extract_cookie cookie (rt_cookie_name rt)) s2))"
    using assms unfolding totp_authenticate_def
    by (elim new_session_elims) (auto simp: require_realm_def totp_unavailable_def)
  have "ses_user_id ses = usr_id u" "ses_amr ses = [''totp'']" using new_session_create [OF new] by simp_all
  thus ?thesis
    using cred claim_totp_Inr [OF claim] admit_totp_repo [OF adm] unfolding totp_proof_def by auto
qed


section \<open>Logout\<close>

text \<open>A request that does not happen to draw the identifier of the session.\<close>

definition serves_other :: "deployment \<Rightarrow> string \<Rightarrow> service \<Rightarrow> service \<Rightarrow> bool" where
  "serves_other d sid s s' \<longleftrightarrow> (\<exists>w. request_step d w s s' \<and> ''sid_'' @ w_random w 10 \<noteq> sid)"

lemma request_step_grant:
  assumes "request_step d w s s'" "grant_issue k \<noteq> IssueSession (''sid_'' @ w_random w 10)"
  shows "(grant_step k)\<^sup>*\<^sup>* (sv_repo s) (sv_repo s')"
proof -
  note acts = unrevived.acts_logins [of k w, OF assms(2)] unrevived.acts_push(4,5) [of k]
    unrevived.acts_totp [of k] unrevived.acts_session [of k]
  from assms(1) show ?thesis by cases (use acts in \<open>auto simp: acts_def\<close>)
qed

lemma serves_others_grant:
  "(serves_other d sid)\<^sup>*\<^sup>* s s' \<Longrightarrow> (grant_step (SessionGrant sid))\<^sup>*\<^sup>* (sv_repo s) (sv_repo s')"
  by (induction rule: rtranclp_induct)
     (auto simp: serves_other_def dest!: request_step_grant [where k = "SessionGrant sid"])

lemma load_dead_session:
  assumes "hm_get (dp_realms d) realm = Some rt" "extract_cookie cookie (rt_cookie_name rt) = Some sid"
    and "\<not> grant_live (SessionGrant sid) (sv_repo s)"
  shows "load_browser_session w d realm cookie s = (Inl (Unauthorized ''invalid or expired session''), s)"
  using assms
  by (auto simp: load_browser_session_def require_realm_def require_some_def session_get_def repo_read_def bind_act_def
      give_def refuse_def get_session_def map_get_def is_active_def split: option.splits)

lemma load_browser_session_Inr:
  "load_browser_session w d realm cookie s = (Inr (rt, sid, ses), s') \<longleftrightarrow>
     hm_get (dp_realms d) realm = Some rt \<and> extract_cookie cookie (rt_cookie_name rt) = Some sid \<and>
     hm_get (sessions_of (sv_repo s)) sid = Some ses \<and> is_active ses (w_clock w 0) \<and> ses_realm_id ses = realm \<and> s' = s"
proof -
  have get: "session_get w i s =
      (Inr (opt_filter (\<lambda>ses. is_active ses (w_clock w 0)) (hm_get (sessions_of (sv_repo s)) i)), s)" for i
    by (simp add: session_get_def bind_act_def repo_read_def get_session_def map_get_def give_def)
  show ?thesis
    unfolding load_browser_session_def require_realm_def bind_act_Inr
    by (auto simp: get opt_filter_def bind_act_Inr intro!: exI [of _ sid] split: option.splits if_splits)
qed

lemma session_revoke_dead:
  assumes "session_revoke w d realm cookie s = (Inr 200, s')"
    and "hm_get (dp_realms d) realm = Some rt" "extract_cookie cookie (rt_cookie_name rt) = Some sid"
  shows "sv_repo s' = revoke_grant (w_io w 1) realm (SessionGrant sid) (sv_repo s)"
    "\<not> grant_live (SessionGrant sid) (sv_repo s')"
proof -
  from assms(1) obtain rt' sid' ses s1 ok where load: "load_browser_session w d realm cookie s = (Inr (rt', sid', ses), s1)"
    and op: "repo_op (revoke_session (w_io w 1) sid' (Some realm)) s1 = (Inr ok, s')"
    unfolding session_revoke_def by (auto simp: bind_act_Inr)
  from load assms(2,3) have at: "rt' = rt" "sid' = sid" "s1 = s" "grant_in_realm realm (SessionGrant sid) (sv_repo s)"
    by (simp_all add: load_browser_session_Inr)
  show repo: "sv_repo s' = revoke_grant (w_io w 1) realm (SessionGrant sid) (sv_repo s)"
    using op at by (simp add: repo_op_Inr)
  show "\<not> grant_live (SessionGrant sid) (sv_repo s')"
    unfolding repo by (rule revoke_grant_dead) (rule at(4))
qed

text \<open>
  C17. Logout is final: once \<^const>\<open>session_revoke\<close> has answered 200, no sequence of
  requests, logins by password, push or one-time code included, brings the session back. Any
  later request that presents its identifier, in whatever realm and at whatever time, is answered
  with an unauthorized error and changes nothing. The requests in between are assumed not to draw
  the same random session identifier.
\<close>

theorem logout_is_final:
  assumes "repo_wf (sv_repo s)"
    and "hm_get (dp_realms d) realm = Some rt" "extract_cookie cookie (rt_cookie_name rt) = Some sid"
    and "session_revoke w d realm cookie s = (Inr 200, s1)"
    and "(serves_other d sid)\<^sup>*\<^sup>* s1 s2"
    and "hm_get (dp_realms d) realm' = Some rt'" "extract_cookie cookie' (rt_cookie_name rt') = Some sid"
  shows "load_browser_session w' d realm' cookie' s2 = (Inl (Unauthorized ''invalid or expired session''), s2)"
proof -
  note revoked = session_revoke_dead [OF assms(4,2,3)]
  have "repo_wf (sv_repo s1)"
    unfolding revoked(1) using revoke_grant_step repo_step_wf assms(1) by blast
  with grant_steps_dead [OF serves_others_grant [OF assms(5)]] revoked(2)
  have "\<not> grant_live (SessionGrant sid) (sv_repo s2)" by blast
  with assms(6,7) show ?thesis by (rule load_dead_session)
qed

section \<open>Failed logins\<close>

lemma try_write_Inr:
  "f (repo_store r) = Inr (s, a) \<Longrightarrow>
     fst (try_write None f r) = Inr a \<and> repo_store (snd (try_write None f r)) = s"
  by (simp add: try_write_def commit_def save_def flush_store_def write_store_content_def split: file_flush_mode.split)

definition counted :: "world \<Rightarrow> password_limits \<Rightarrow> user \<Rightarrow> user" where
  "counted w policy u =
     (if max_failed_attempts policy \<le> usr_failed_login_attempts u + 1
      then u\<lparr>usr_failed_login_attempts := usr_failed_login_attempts u + 1,
             usr_locked_until := Some (w_clock w 2 + lockout_duration_seconds policy)\<rparr>
      else u\<lparr>usr_failed_login_attempts := usr_failed_login_attempts u + 1\<rparr>)"

lemma user_by_email:
  assumes "get_user_by_email realm email r = Inr (Some u)" "keyed usr_id (st_users (repo_store r))"
  shows "hm_get (st_users (repo_store r)) (usr_id u) = Some u" "usr_realm_id u = realm" "usr_email u = Some email"
    "\<forall>v \<in> ran (hm_get (st_users (repo_store r))). usr_realm_id v = realm \<and> usr_email v = Some email \<longrightarrow> v = u"
proof -
  let ?p = "\<lambda>u. usr_realm_id u = realm \<and> usr_email u = Some email"
  have wf: "hm_wf (st_users (repo_store r))" using assms(2) by (simp add: keyed_def)
  have one: "filter ?p (hm_values (st_users (repo_store r))) = [u]"
    using assms(1) by (auto simp: get_user_by_email_def unique_match_def reject_duplicate_id_def
        split: list.splits if_splits)
  have "set (filter ?p (hm_values (st_users (repo_store r)))) = {u}" unfolding one by simp
  hence mem: "v \<in> set (hm_values (st_users (repo_store r))) \<and> ?p v \<longleftrightarrow> v = u" for v by auto
  from mem [of u] obtain k where k: "map_of (st_users (repo_store r)) k = Some u"
    unfolding hm_values_iff [OF wf] by auto
  with assms(2) show "hm_get (st_users (repo_store r)) (usr_id u) = Some u" by (auto simp: keyed_def)
  show "usr_realm_id u = realm" "usr_email u = Some email" using mem [of u] by blast+
  show "\<forall>v \<in> ran (hm_get (st_users (repo_store r))). usr_realm_id v = realm \<and> usr_email v = Some email \<longrightarrow> v = u"
    using mem unfolding hm_values_iff [OF wf] ran_def by blast
qed

text \<open>A user record that keeps its key, realm and address can always be written over the stored one.\<close>

lemma update_user_same:
  assumes "keyed usr_id (st_users (repo_store r))"
    and "hm_get (st_users (repo_store r)) (usr_id u) = Some v" "usr_realm_id v = realm" "usr_email v = Some email"
    and only: "\<forall>x \<in> ran (hm_get (st_users (repo_store r))). usr_realm_id x = realm \<and> usr_email x = Some email \<longrightarrow> x = v"
    and "usr_realm_id u = realm" "usr_email u = Some email"
  shows "fst (update_user None u (Some realm) r) = Inr () \<and>
    repo_store (snd (update_user None u (Some realm) r)) =
      (repo_store r)\<lparr>st_users := hm_insert (usr_id u) u (st_users (repo_store r))\<rparr>"
proof -
  have wf: "hm_wf (st_users (repo_store r))" and key: "usr_id v = usr_id u"
    using assms(1,2) by (auto simp: keyed_def)
  have same: "u\<lparr>usr_realm_id := realm\<rparr> = u" using assms(6) by simp
  have "email_held_by_another (repo_store r) u = None"
    using only key by (auto simp: email_held_by_another_def assms(6,7) list_ex_iff hm_values_iff [OF wf] ran_def)
  thus ?thesis
    unfolding update_user_def
    by (intro try_write_Inr) (simp add: assms(2,3) same Let_def none_or_def)
qed

lemma check_lockout_passes:
  assumes "keyed usr_id (st_users (repo_store (sv_repo s)))"
    and "get_user_by_email realm email (sv_repo s) = Inr (Some u)"
    and "none_or (usr_locked_until u) (\<lambda>locked. locked \<le> w_clock w 2)" "w_io w 2 = None"
  obtains s1 v where "check_lockout w realm u (w_clock w 2) s = (Inr (), s1)" "sv_budget s1 = sv_budget s"
    "usr_id v = usr_id u" "usr_realm_id v = realm" "usr_email v = Some email"
    "st_users (repo_store (sv_repo s1)) = hm_insert (usr_id u) v (st_users (repo_store (sv_repo s)))"
proof (cases "usr_locked_until u")
  case None
  note found = user_by_email [OF assms(2,1)]
  show ?thesis
  proof (rule that)
    show "check_lockout w realm u (w_clock w 2) s = (Inr (), s)" using None by (simp add: check_lockout_def give_def)
    show "st_users (repo_store (sv_repo s)) = hm_insert (usr_id u) u (st_users (repo_store (sv_repo s)))"
      using update_triv [OF found(1)] by (rule sym)
  qed (use found(2,3) in simp_all)
next
  case (Some t)
  note found = user_by_email [OF assms(2,1)]
  let ?r = "update_user None (reset_attempts u) (Some realm) (sv_repo s)"
  have same: "usr_id (reset_attempts u) = usr_id u" "usr_realm_id (reset_attempts u) = realm"
    "usr_email (reset_attempts u) = Some email" using found(2,3) by (simp_all add: reset_attempts_def)
  have upd: "fst ?r = Inr ()" "repo_store (snd ?r) =
      (repo_store (sv_repo s))\<lparr>st_users := hm_insert (usr_id u) (reset_attempts u) (st_users (repo_store (sv_repo s)))\<rparr>"
    using update_user_same [OF assms(1) _ found(2,3,4) same(2,3)] found(1) unfolding same(1) by blast+
  show ?thesis
  proof (rule that)
    show "check_lockout w realm u (w_clock w 2) s = (Inr (), s\<lparr>sv_repo := snd ?r\<rparr>)"
      using Some assms(3,4) upd(1) by (simp add: check_lockout_def repo_op_Inr not_less none_or_def)
    show "st_users (repo_store (sv_repo (s\<lparr>sv_repo := snd ?r\<rparr>))) =
        hm_insert (usr_id u) (reset_attempts u) (st_users (repo_store (sv_repo s)))" by (simp add: upd(2))
  qed (use same in simp_all)
qed

lemma fail_login_records:
  assumes "keyed usr_id (st_users (repo_store (sv_repo s)))" "w_io w 3 = None"
    and "hm_get (st_users (repo_store (sv_repo s))) (usr_id u) = Some v" "usr_realm_id v = realm" "usr_email v = Some email"
    and "\<forall>x \<in> ran (hm_get (st_users (repo_store (sv_repo s)))).
      usr_realm_id x = realm \<and> usr_email x = Some email \<longrightarrow> x = v"
    and "usr_realm_id u = realm" "usr_email u = Some email"
  shows "fst (fail_login w policy realm u (w_clock w 2) s) = Inl (Unauthorized ''invalid credentials'')"
    "repo_store (sv_repo (snd (fail_login w policy realm u (w_clock w 2) s))) =
       (repo_store (sv_repo s))\<lparr>st_users := hm_insert (usr_id u) (counted w policy u) (st_users (repo_store (sv_repo s)))\<rparr>"
proof -
  obtain b where rec: "record_failed_attempt w policy realm u (w_clock w 2) s =
      repo_op (update_user None (counted w policy u) (Some realm)) (s\<lparr>sv_budget := b\<rparr>)"
    by (simp add: record_failed_attempt_def counted_def Let_def assms(2) case_prod_unfold)
  have same: "usr_id (counted w policy u) = usr_id u" "usr_realm_id (counted w policy u) = realm"
    "usr_email (counted w policy u) = Some email" using assms(7,8) by (simp_all add: counted_def)
  have "fst (update_user None (counted w policy u) (Some realm) (sv_repo s)) = Inr () \<and>
    repo_store (snd (update_user None (counted w policy u) (Some realm) (sv_repo s))) =
      (repo_store (sv_repo s))\<lparr>st_users := hm_insert (usr_id u) (counted w policy u) (st_users (repo_store (sv_repo s)))\<rparr>"
    using update_user_same [OF assms(1) _ assms(4,5,6) same(2,3)] assms(3) unfolding same(1) by blast
  thus "fst (fail_login w policy realm u (w_clock w 2) s) = Inl (Unauthorized ''invalid credentials'')"
    "repo_store (sv_repo (snd (fail_login w policy realm u (w_clock w 2) s))) =
       (repo_store (sv_repo s))\<lparr>st_users := hm_insert (usr_id u) (counted w policy u) (st_users (repo_store (sv_repo s)))\<rparr>"
    by (simp_all add: fail_login_def rec bind_act_def repo_op_def refuse_def case_prod_unfold)
qed

lemma keyed_insert: "keyed key m \<Longrightarrow> key v = k \<Longrightarrow> keyed key (hm_insert k v m)"
  by (auto simp: keyed_def update_conv')

lemma sole_holder_insert:
  assumes "keyed usr_id m" "usr_id v = usr_id u"
    and "\<forall>x \<in> ran (hm_get m). usr_realm_id x = realm \<and> usr_email x = Some email \<longrightarrow> x = u"
  shows "\<forall>x \<in> ran (hm_get (hm_insert (usr_id u) v m)). usr_realm_id x = realm \<and> usr_email x = Some email \<longrightarrow> x = v"
  using assms by (auto simp: ran_def update_conv' keyed_def split: if_splits)


section \<open>A service\<close>

definition example_world :: world where
  "example_world = \<lparr> w_clock = (\<lambda>_. 200), w_io = (\<lambda>_. None), w_random = (\<lambda>_. ''r'') \<rparr>"

definition example_realm :: runtime_realm where
  "example_realm = \<lparr> rt_password_enabled = True, rt_passwordless_only = False,
     rt_password = \<lparr> max_failed_attempts = 3, max_failed_attempts_per_realm = 5, lockout_duration_seconds = 60 \<rparr>,
     rt_totp_enabled = True, rt_totp = \<lparr> totp_max_failed_attempts = 3, failed_attempt_window_seconds = 60 \<rparr>,
     rt_push_enabled = False,
     rt_push = \<lparr> pp_ttl_seconds = 60, pp_max_attempts = 3, pp_max_issuances_per_window = 3, pp_issuance_window_seconds = 60,
       pp_resend_cooldown_seconds = 5, pp_max_destination_bytes = 9, pp_max_proof_bytes = 9 \<rparr>,
     rt_cookie_name = ''qid'', rt_idle_timeout_minutes = 1, rt_absolute_timeout_hours = 1 \<rparr>"

definition example_credentials :: password_credentials where
  "example_credentials = \<lparr> pwv_verify = (\<lambda>p c. (p = pwc_hash c, False)), pwv_hash = Inr \<rparr>"

definition example_deployment :: deployment where
  "example_deployment = \<lparr> dp_realms = [(''corp'', example_realm)], dp_secure_base = True, dp_notification = False,
     dp_transport = False, dp_slot_free = False, dp_delivered = False, dp_password_context = (\<lambda>_. Inr example_credentials),
     dp_crypto = example_crypto,
     dp_base32_decode = (\<lambda>_. Inl []), dp_hmac_sha1 = (\<lambda>_ b. b) \<rparr>"

text \<open>An account whose lock ended at 100, after three failures.\<close>

definition example_account :: user where
  "example_account = (example_user ''alice'' ''corp'')\<lparr>usr_email := Some ''a@x'', usr_failed_login_attempts := 3,
     usr_locked_until := Some 100\<rparr>"

definition example_service :: service where
  "example_service = \<lparr> sv_repo = \<lparr>repo_store = empty_store\<lparr>st_users := [(''alice'', example_account)],
         st_credentials_password := [(''alice'', \<lparr>pwc_user_id = ''alice'', pwc_hash = ''pw'', pwc_algorithm = ''argon2id''\<rparr>)],
         st_sessions := [(''s1'', (example_session ''s1'' ''corp'' ''alice'')\<lparr>ses_idle_expires_at := 900,
           ses_absolute_expires_at := 900\<rparr>)]\<rparr>,
       repo_disk = None, repo_dirty = False, repo_flush_mode = Immediate\<rparr>,
     sv_budget = failure_budget_new, sv_password_limiter = with_capacity default_rate_limit_config 4,
     sv_totp_limiter = with_capacity default_rate_limit_config 4 \<rparr>"


definition example_opened :: session where
  "example_opened = \<lparr> ses_id = ''sid_r'', ses_realm_id = ''corp'', ses_user_id = ''alice'', ses_auth_time = 200,
     ses_acr = Some ''urn:qid:acr:password'', ses_amr = [''pwd''], ses_idle_expires_at = 260,
     ses_absolute_expires_at = 3800, ses_revoked = False, ses_created_at = 200, ses_cnf = None \<rparr>"


text \<open>The session is refreshed once more after the logout, in vain.\<close>

theorem logout_is_final_witness:
  "let s1 = snd (session_revoke example_world example_deployment ''corp'' (Some ''qid=s1'') example_service);
       s2 = snd (session_refresh example_world example_deployment ''corp'' (Some ''qid=s1'') s1)
   in fst (load_browser_session example_world example_deployment ''corp'' (Some ''qid=s1'') example_service)
        = Inr (example_realm, ''s1'', (example_session ''s1'' ''corp'' ''alice'')\<lparr>ses_idle_expires_at := 900,
           ses_absolute_expires_at := 900\<rparr>) \<and>
      load_browser_session example_world example_deployment ''corp'' (Some ''qid=s1'') s2
        = (Inl (Unauthorized ''invalid or expired session''), s2)"
proof -
  let ?r = "session_revoke example_world example_deployment ''corp'' (Some ''qid=s1'') example_service"
  let ?s2 = "snd (session_refresh example_world example_deployment ''corp'' (Some ''qid=s1'') (snd ?r))"
  have wf: "repo_wf (sv_repo example_service)"
    by (simp add: repo_wf_def hm_wf_def example_service_def empty_store_def push_valid_def)
  have realm: "hm_get (dp_realms example_deployment) ''corp'' = Some example_realm"
    by (simp add: example_deployment_def)
  have cookie: "extract_cookie (Some ''qid=s1'') (rt_cookie_name example_realm) = Some ''s1''" by code_simp
  have revoked: "?r = (Inr 200, snd ?r)"
    by (rule prod_eqI) (code_simp, simp)
  have "request_step example_deployment example_world (snd ?r) ?s2" by (rule req_refresh)
  hence "(serves_other example_deployment ''s1'')\<^sup>*\<^sup>* (snd ?r) ?s2"
    by (intro r_into_rtranclp) (auto simp: serves_other_def example_world_def intro!: exI [of _ example_world])
  from logout_is_final [OF wf realm cookie revoked this realm cookie]
  have "load_browser_session example_world example_deployment ''corp'' (Some ''qid=s1'') ?s2
      = (Inl (Unauthorized ''invalid or expired session''), ?s2)" .
  moreover have "fst (load_browser_session example_world example_deployment ''corp'' (Some ''qid=s1'') example_service)
        = Inr (example_realm, ''s1'', (example_session ''s1'' ''corp'' ''alice'')\<lparr>ses_idle_expires_at := 900,
           ses_absolute_expires_at := 900\<rparr>)" by code_simp
  ultimately show ?thesis by (simp add: Let_def)
qed

end
