(* ===== verification/Qid_OAuth.thy ===== *)
theory Qid_OAuth
  imports Qid_Session
begin

text \<open>
  Issuing OAuth tokens: the audience and scope rules of \<^verbatim>\<open>qid-core/src/oauth.rs\<close>, the PKCE check of
  \<^verbatim>\<open>qid-core/src/pkce.rs\<close>, the claims of \<^verbatim>\<open>qid-core/src/jwt.rs\<close>, and the issuance helpers of
  \<^verbatim>\<open>qid-oauth/src/endpoints/token_issue.rs\<close> and \<^verbatim>\<open>mod.rs\<close>.

  The handlers run on the same service state and read the same \<^verbatim>\<open>world\<close> as the session handlers.
  The signer of tokens is the trait of \<^verbatim>\<open>qid-core/src/jwt.rs\<close> and a parameter here, like SHA-256,
  HMAC and the URL parser.
\<close>

section \<open>Text and JSON\<close>

text \<open>\<^verbatim>\<open>str::split_whitespace\<close>: every step consumes an octet, so the length of the text bounds the loop.\<close>

definition word_of :: "string \<Rightarrow> string list" where
  "word_of acc = (if acc = [] then [] else [acc])"

fun split_words :: "nat \<Rightarrow> string \<Rightarrow> string \<Rightarrow> string list" where
  "split_words 0 acc s = word_of acc"
| "split_words (Suc n) acc s =
     (case strip_one white_space s of
        Some r \<Rightarrow> word_of acc @ split_words n [] r
      | None \<Rightarrow> (case s of [] \<Rightarrow> word_of acc | c # cs \<Rightarrow> split_words n (acc @ [c]) cs))"

definition split_whitespace :: "string \<Rightarrow> string list" where
  "split_whitespace s = split_words (Suc (length s)) [] s"

fun join_space :: "string list \<Rightarrow> string" where
  "join_space [] = []"
| "join_space [s] = s"
| "join_space (s # t # ss) = s @ '' '' @ join_space (t # ss)"

fun json_get :: "json \<Rightarrow> string \<Rightarrow> json option" where
  "json_get (JObject obj) k = map_of obj k"
| "json_get _ k = None"

fun json_str :: "json \<Rightarrow> string option" where
  "json_str (JString s) = Some s"
| "json_str _ = None"

definition json_get_str :: "json \<Rightarrow> string \<Rightarrow> string option" where
  "json_get_str v k = Option.bind (json_get v k) json_str"

section \<open>Realm configuration\<close>

record resource_server =
  rsv_audience :: string
  rsv_resources :: "string list"
  rsv_scopes :: "string list"
  rsv_introspection_client_ids :: "string list"
  rsv_require_sender_constraint :: bool
  rsv_high_risk :: bool

record token_ttl_config =
  ttl_access_token_ttl_seconds :: u64
  ttl_refresh_token_ttl_seconds :: u64
  ttl_id_token_ttl_seconds :: u64
  ttl_auth_code_ttl_seconds :: u64
  ttl_par_request_ttl_seconds :: u64
  ttl_device_code_ttl_seconds :: u64
  ttl_access_token_format :: token_format

definition default_token_ttl :: token_ttl_config where
  "default_token_ttl = \<lparr> ttl_access_token_ttl_seconds = 3600, ttl_refresh_token_ttl_seconds = 86400,
     ttl_id_token_ttl_seconds = 3600, ttl_auth_code_ttl_seconds = 300, ttl_par_request_ttl_seconds = 300,
     ttl_device_code_ttl_seconds = 1800, ttl_access_token_format = Jwt \<rparr>"

text \<open>What the handlers read of a realm, from its configuration and from the plan compiled from it.\<close>

record oauth_realm =
  orl_issuer :: string
  orl_default_scope :: string
  orl_oidc_default_scope :: string
  orl_cookie_name :: string
  orl_token_ttl :: token_ttl_config
  orl_resource_servers :: "resource_server list"
  orl_device_authorization_enabled :: bool
  orl_ciba_enabled :: bool
  orl_revocation_enabled :: bool
  orl_introspection_enabled :: bool
  orl_jwt_response :: bool
  orl_dpop_enabled :: bool
  orl_dpop_nonce :: bool
  orl_mtls_enabled :: bool
  orl_private_key_jwt_enabled :: bool

section \<open>Claims and the signer\<close>

datatype audience = Single string | Multiple "string list"

definition audience_from_values :: "string list \<Rightarrow> audience option" where
  "audience_from_values vs = (case vs of [] \<Rightarrow> None | [v] \<Rightarrow> Some (Single v) | _ \<Rightarrow> Some (Multiple vs))"

fun audience_contains :: "audience \<Rightarrow> string \<Rightarrow> bool" where
  "audience_contains (Single v) a \<longleftrightarrow> v = a"
| "audience_contains (Multiple vs) a \<longleftrightarrow> a \<in> set vs"

fun audience_primary :: "audience \<Rightarrow> string option" where
  "audience_primary (Single v) = Some v"
| "audience_primary (Multiple vs) = (case vs of [] \<Rightarrow> None | v # _ \<Rightarrow> Some v)"

record jwt_claims =
  jc_iss :: "string option"
  jc_sub :: "string option"
  jc_aud :: "audience option"
  jc_exp :: "u64 option"
  jc_nbf :: "u64 option"
  jc_iat :: "u64 option"
  jc_jti :: "string option"
  jc_extra :: "(string, json) hash_map"

definition aud_contains :: "jwt_claims \<Rightarrow> string \<Rightarrow> bool" where
  "aud_contains c a = (case jc_aud c of None \<Rightarrow> False | Some aud \<Rightarrow> audience_contains aud a)"

definition audiences :: "jwt_claims \<Rightarrow> string list" where
  "audiences c = (case jc_aud c of None \<Rightarrow> [] | Some (Single v) \<Rightarrow> [v] | Some (Multiple vs) \<Rightarrow> vs)"

text \<open>
  The signer: signing and decoding answer an error text or a value, and decoding depends on the
  time because an expired token is refused. \<^verbatim>\<open>au_half_hash\<close> and \<^verbatim>\<open>au_hmac_half\<close> encode the first sixteen
  octets of a SHA-256 digest and of an HMAC; \<^verbatim>\<open>au_url_host\<close> is the host of a URL that parses.
\<close>

record authority =
  au_realms :: "(string \<times> oauth_realm) list"
  au_sign :: "jwt_claims \<Rightarrow> string + string"
  au_sign_with_typ :: "jwt_claims \<Rightarrow> string \<Rightarrow> string + string"
  au_decode :: "u64 \<Rightarrow> string \<Rightarrow> string + jwt_claims"
  au_sha256_base64url :: "string \<Rightarrow> string"
  au_half_hash :: "string \<Rightarrow> string"
  au_hmac_half :: "string \<Rightarrow> string \<Rightarrow> string"
  au_url_host :: "string \<Rightarrow> string option"
  au_client_secret_hash :: "string \<Rightarrow> string"
  au_public_base_url :: string
  au_device_verification_path :: string

definition sign_claims :: "authority \<Rightarrow> jwt_claims \<Rightarrow> string \<Rightarrow> string result" where
  "sign_claims au c what =
     (case au_sign au c of Inl e \<Rightarrow> Inl (Crypto (''failed to sign '' @ what @ '': '' @ e)) | Inr t \<Rightarrow> Inr t)"

section \<open>Realm lookups\<close>

definition token_ttl :: "authority \<Rightarrow> string \<Rightarrow> token_ttl_config" where
  "token_ttl au realm_id =
     (case map_of (au_realms au) realm_id of None \<Rightarrow> default_token_ttl | Some rl \<Rightarrow> orl_token_ttl rl)"

definition oauth_feature_enabled :: "authority \<Rightarrow> string \<Rightarrow> (oauth_realm \<Rightarrow> bool) \<Rightarrow> bool" where
  "oauth_feature_enabled au realm_id feature =
     (case map_of (au_realms au) realm_id of None \<Rightarrow> False | Some rl \<Rightarrow> feature rl)"

definition find_client_across_realms_with_messages ::
  "authority \<Rightarrow> string \<Rightarrow> string \<Rightarrow> string \<Rightarrow> client act" where
  "find_client_across_realms_with_messages au client_id ambiguous_message unknown_message =
     bind_act (repo_read (find_clients_by_client_id (map fst (au_realms au)) client_id)) (\<lambda>clients.
       case clients of
         [c] \<Rightarrow> give c
       | [] \<Rightarrow> refuse (Unauthorized unknown_message)
       | _ \<Rightarrow> refuse (Unauthorized ambiguous_message))"

definition find_client_across_realms :: "authority \<Rightarrow> string \<Rightarrow> client act" where
  "find_client_across_realms au client_id =
     find_client_across_realms_with_messages au client_id ''client realm is ambiguous'' ''unknown client''"

section \<open>Audiences and scopes\<close>

definition indexed_error :: "nat \<Rightarrow> string \<Rightarrow> qid_error" where
  "indexed_error idx what = BadRequest (''authorization_details['' @ decimal idx @ '']'' @ what)"

fun validate_entries :: "nat \<Rightarrow> json list \<Rightarrow> unit result" where
  "validate_entries idx [] = Inr ()"
| "validate_entries idx (entry # rest) =
     (case entry of
        JObject obj \<Rightarrow>
          (case Option.bind (map_of obj ''type'') json_str of
             None \<Rightarrow> Inl (indexed_error idx ''.type is required'')
           | Some t \<Rightarrow> if trim t = [] then Inl (indexed_error idx ''.type must not be empty'')
                       else validate_entries (idx + 1) rest)
      | _ \<Rightarrow> Inl (indexed_error idx '' must be an object''))"

definition validate_authorization_details :: "json \<Rightarrow> unit result" where
  "validate_authorization_details details =
     (case details of
        JArray entries \<Rightarrow> if entries = [] then Inl (BadRequest ''authorization_details must not be empty'')
                          else validate_entries 0 entries
      | _ \<Rightarrow> Inl (BadRequest ''authorization_details must be an array''))"

definition resource_server_by_audience :: "resource_server list \<Rightarrow> string \<Rightarrow> resource_server option" where
  "resource_server_by_audience servers a = find (\<lambda>server. rsv_audience server = a) servers"

definition resource_server_by_resource :: "resource_server list \<Rightarrow> string \<Rightarrow> resource_server option" where
  "resource_server_by_resource servers resource = find (\<lambda>server. resource \<in> set (rsv_resources server)) servers"

definition require_sender_constraint :: "resource_server \<Rightarrow> json option \<Rightarrow> unit result" where
  "require_sender_constraint server cnf =
     (if (rsv_require_sender_constraint server \<or> rsv_high_risk server) \<and> cnf = None
      then Inl (Unauthorized (''sender-constrained token is required for audience '' @ rsv_audience server))
      else Inr ())"

definition scope_allowed :: "resource_server \<Rightarrow> string \<Rightarrow> unit result" where
  "scope_allowed server scope =
     (if scope \<notin> set (rsv_scopes server)
      then Inl (BadRequest (''requested scope '' @ scope @ '' is not allowed for resource server '' @ rsv_audience server))
      else Inr ())"

definition validate_scopes_per_target :: "string list \<Rightarrow> resource_server list \<Rightarrow> unit result" where
  "validate_scopes_per_target scopes servers =
     try_each (\<lambda>server. if rsv_scopes server = [] then Inr () else try_each (scope_allowed server) scopes) servers"

definition server_of_audience :: "resource_server list \<Rightarrow> string \<Rightarrow> resource_server result" where
  "server_of_audience servers a =
     ok_or (Unauthorized (''unknown resource server audience: '' @ a)) (resource_server_by_audience servers a)"

definition server_of_resource :: "resource_server list \<Rightarrow> string list \<Rightarrow> string \<Rightarrow> resource_server result" where
  "server_of_resource servers requested_audiences resource =
     and_then (ok_or (Unauthorized (''unknown resource indicator: '' @ resource))
         (resource_server_by_resource servers resource)) (\<lambda>server.
       if requested_audiences \<noteq> [] \<and> rsv_audience server \<notin> set requested_audiences
       then Inl (Unauthorized (''resource indicator '' @ resource @ '' is not allowed for requested audience ''
              @ join_space requested_audiences))
       else Inr server)"

text \<open>The ordered set of audiences is the sorted list without repetitions.\<close>

definition resolve_authorization_audience ::
  "oauth_realm \<Rightarrow> string list \<Rightarrow> string list \<Rightarrow> string list \<Rightarrow> string list result" where
  "resolve_authorization_audience rl requested_audiences resources scopes =
     (let servers = orl_resource_servers rl in
      if servers = [] then
        (case resources of
           resource # _ \<Rightarrow> Inl (Unauthorized (''unknown resource indicator: '' @ resource))
         | [] \<Rightarrow> Inr requested_audiences)
      else and_then (try_map (server_of_audience servers) requested_audiences) (\<lambda>by_audience.
           and_then (try_map (server_of_resource servers requested_audiences) resources) (\<lambda>by_resource.
           let auds = sort (remdups (requested_audiences @ map rsv_audience by_resource)) in
           if auds = []
           then Inl (BadRequest ''audience or resource is required when OAuth resource servers are configured'')
           else and_then (validate_scopes_per_target scopes (by_audience @ by_resource)) (\<lambda>_. Inr auds))))"

definition constrained_audience :: "resource_server list \<Rightarrow> json option \<Rightarrow> string \<Rightarrow> unit result" where
  "constrained_audience servers cnf a =
     (case resource_server_by_audience servers a of
        Some server \<Rightarrow> require_sender_constraint server cnf
      | None \<Rightarrow> Inr ())"

definition resolve_token_audience ::
  "oauth_realm \<Rightarrow> string list \<Rightarrow> string list \<Rightarrow> string list \<Rightarrow> json option \<Rightarrow> string list result" where
  "resolve_token_audience rl requested_audiences resources scopes cnf =
     (if orl_resource_servers rl = [] then Inr requested_audiences
      else and_then (resolve_authorization_audience rl requested_audiences resources scopes) (\<lambda>auds.
           and_then (try_each (constrained_audience (orl_resource_servers rl) cnf) auds) (\<lambda>_. Inr auds)))"

section \<open>PKCE\<close>

definition verify_code_verifier :: "authority \<Rightarrow> string option \<Rightarrow> string option \<Rightarrow> string \<Rightarrow> bool" where
  "verify_code_verifier au code_challenge code_challenge_method text =
     (case code_challenge of
        None \<Rightarrow> True
      | Some challenge \<Rightarrow>
          (case code_challenge_method of None \<Rightarrow> ''plain'' | Some m \<Rightarrow> m) = ''S256''
          \<and> au_sha256_base64url au text = challenge)"

section \<open>Issuing tokens\<close>

record token_issue_claims =
  tic_audience :: "string list option"
  tic_resource :: "string list option"
  tic_authorization_details :: "json option"
  tic_cnf :: "json option"
  tic_auth_time :: "u64 option"
  tic_acr :: "string option"
  tic_amr :: "string list option"
  tic_nonce :: "string option"
  tic_act :: "json option"
  tic_authorization_code :: "string option"
  tic_access_token :: "string option"
  tic_access_expires_at :: "u64 option"
  tic_session_id :: "string option"

definition default_issue_claims :: token_issue_claims where
  "default_issue_claims = \<lparr> tic_audience = None, tic_resource = None, tic_authorization_details = None, tic_cnf = None,
     tic_auth_time = None, tic_acr = None, tic_amr = None, tic_nonce = None, tic_act = None,
     tic_authorization_code = None, tic_access_token = None, tic_access_expires_at = None, tic_session_id = None \<rparr>"

record token_pair =
  tp_access_token :: string
  tp_refresh_token :: string
  tp_access_jti :: string
  tp_refresh_jti :: string
  tp_expires_in :: u64

definition nonempty_or :: "'a list \<Rightarrow> 'a list option \<Rightarrow> 'a list" where
  "nonempty_or d v = (case v of None \<Rightarrow> d | Some xs \<Rightarrow> if xs = [] then d else xs)"

definition token_audience :: "string \<Rightarrow> token_issue_claims \<Rightarrow> string list" where
  "token_audience client_id claims = nonempty_or [client_id] (tic_audience claims)"

definition token_resource :: "token_issue_claims \<Rightarrow> string list" where
  "token_resource claims = nonempty_or [] (tic_resource claims)"

definition token_amr :: "token_issue_claims \<Rightarrow> string list" where
  "token_amr claims = nonempty_or [] (tic_amr claims)"

definition generate_jti :: "world \<Rightarrow> nat \<Rightarrow> string" where
  "generate_jti w n = ''oat_'' @ w_random w n"

definition access_token_type_for_cnf :: "json option \<Rightarrow> string" where
  "access_token_type_for_cnf cnf =
     (case Option.bind cnf (\<lambda>v. json_get v ''jkt'') of None \<Rightarrow> ''Bearer'' | Some _ \<Rightarrow> ''DPoP'')"

definition insert_some :: "string \<Rightarrow> json option \<Rightarrow> (string, json) hash_map \<Rightarrow> (string, json) hash_map" where
  "insert_some k v m = (case v of None \<Rightarrow> m | Some j \<Rightarrow> hm_insert k j m)"

definition json_strings :: "string list \<Rightarrow> json" where
  "json_strings xs = JArray (map JString xs)"

definition json_u64 :: "u64 \<Rightarrow> json" where
  "json_u64 n = JNumber (PosInt n)"

definition nonempty_json :: "string list option \<Rightarrow> json option" where
  "nonempty_json v = map_option json_strings (opt_filter (\<lambda>xs. xs \<noteq> []) v)"

definition access_token_extra :: "string \<Rightarrow> string list \<Rightarrow> token_issue_claims \<Rightarrow> (string, json) hash_map" where
  "access_token_extra client_id scopes claims =
     insert_some ''act'' (tic_act claims)
     (insert_some ''cnf'' (tic_cnf claims)
     (insert_some ''nonce'' (map_option JString (tic_nonce claims))
     (insert_some ''amr'' (nonempty_json (tic_amr claims))
     (insert_some ''acr'' (map_option JString (tic_acr claims))
     (insert_some ''auth_time'' (map_option json_u64 (tic_auth_time claims))
     (insert_some ''resource'' (nonempty_json (tic_resource claims))
     (insert_some ''authorization_details'' (tic_authorization_details claims)
     (hm_insert ''token_type'' (JString (access_token_type_for_cnf (tic_cnf claims)))
     (hm_insert ''client_id'' (JString client_id)
     (hm_insert ''scope'' (JString (join_space scopes)) []))))))))))"

definition sign_access_token ::
  "authority \<Rightarrow> u64 \<Rightarrow> string \<Rightarrow> string \<Rightarrow> user \<Rightarrow> string \<Rightarrow> string \<Rightarrow> string list \<Rightarrow> token_issue_claims \<Rightarrow> string result" where
  "sign_access_token au now issuer jti u client_id realm_id scopes claims =
     (let c = \<lparr> jc_iss = Some issuer, jc_sub = Some (usr_id u),
                jc_aud = audience_from_values (token_audience client_id claims),
                jc_exp = Some (min (sat_add now (ttl_access_token_ttl_seconds (token_ttl au realm_id)))
                           (case tic_access_expires_at claims of None \<Rightarrow> - 1 | Some t \<Rightarrow> t)),
                jc_nbf = Some now, jc_iat = Some now, jc_jti = Some jti,
                jc_extra = access_token_extra client_id scopes claims \<rparr>
      in case au_sign_with_typ au c ''at+jwt'' of
           Inl e \<Rightarrow> Inl (Crypto (''failed to sign access token: '' @ e))
         | Inr t \<Rightarrow> Inr t)"

definition encode_opaque_access_token :: "string \<Rightarrow> string" where
  "encode_opaque_access_token jti = ''oat_'' @ jti"

definition decode_opaque_access_token :: "string \<Rightarrow> string option" where
  "decode_opaque_access_token token = strip_prefix ''oat_'' token"

definition format_access_token ::
  "authority \<Rightarrow> u64 \<Rightarrow> string \<Rightarrow> string \<Rightarrow> user \<Rightarrow> string \<Rightarrow> string \<Rightarrow> string list \<Rightarrow> token_issue_claims \<Rightarrow> string result" where
  "format_access_token au now issuer jti u client_id realm_id scopes claims =
     (case ttl_access_token_format (token_ttl au realm_id) of
        Jwt \<Rightarrow> sign_access_token au now issuer jti u client_id realm_id scopes claims
      | Opaque \<Rightarrow> Inr (encode_opaque_access_token jti))"

definition sign_refresh_token ::
  "authority \<Rightarrow> u64 \<Rightarrow> string \<Rightarrow> string \<Rightarrow> user \<Rightarrow> string \<Rightarrow> string \<Rightarrow> string option \<Rightarrow> u64 \<Rightarrow> string result" where
  "sign_refresh_token au now issuer jti u client_id realm_id family_id refresh_expires_at =
     sign_claims au
       \<lparr> jc_iss = Some issuer, jc_sub = Some (usr_id u), jc_aud = Some (Single client_id),
         jc_exp = Some (min (sat_add now (ttl_refresh_token_ttl_seconds (token_ttl au realm_id))) refresh_expires_at),
         jc_nbf = Some now, jc_iat = Some now, jc_jti = Some jti,
         jc_extra = insert_some ''family_id'' (map_option JString family_id) [] \<rparr>
       ''refresh token''"

definition id_token_extra :: "authority \<Rightarrow> user \<Rightarrow> string list \<Rightarrow> token_issue_claims \<Rightarrow> (string, json) hash_map" where
  "id_token_extra au u scopes claims =
     insert_some ''c_hash'' (map_option (\<lambda>code. JString (au_half_hash au code)) (tic_authorization_code claims))
     (insert_some ''at_hash'' (map_option (\<lambda>access. JString (au_half_hash au access)) (tic_access_token claims))
     (insert_some ''amr'' (nonempty_json (tic_amr claims))
     (insert_some ''acr'' (map_option JString (tic_acr claims))
     (insert_some ''auth_time'' (map_option json_u64 (tic_auth_time claims))
     (insert_some ''nonce'' (map_option JString (tic_nonce claims))
     (insert_some ''email'' (if ''email'' \<in> set scopes then map_option JString (usr_email u) else None) []))))))"

definition issue_id_token ::
  "authority \<Rightarrow> u64 \<Rightarrow> string \<Rightarrow> string \<Rightarrow> user \<Rightarrow> string \<Rightarrow> string \<Rightarrow> string list \<Rightarrow> token_issue_claims
     \<Rightarrow> string option \<Rightarrow> string result" where
  "issue_id_token au now jti issuer u client_id realm_id scopes claims sub_override =
     sign_claims au
       \<lparr> jc_iss = Some issuer, jc_sub = Some (case sub_override of None \<Rightarrow> usr_id u | Some sub \<Rightarrow> sub),
         jc_aud = Some (Single client_id),
         jc_exp = Some (now + ttl_id_token_ttl_seconds (token_ttl au realm_id)),
         jc_nbf = Some now, jc_iat = Some now, jc_jti = Some jti, jc_extra = id_token_extra au u scopes claims \<rparr>
       ''id token''"

text \<open>Pairwise subjects: the host the client's subject identifiers are scoped to.\<close>

definition sector_identifier_for_client :: "authority \<Rightarrow> client \<Rightarrow> string" where
  "sector_identifier_for_client au c =
     (case Option.bind (cl_sector_identifier_uri c) (au_url_host au) of
        Some host \<Rightarrow> host
      | None \<Rightarrow>
          (case cl_redirect_uris c of
             uri # _ \<Rightarrow> (case au_url_host au uri of Some host \<Rightarrow> host | None \<Rightarrow> cl_client_id c)
           | [] \<Rightarrow> cl_client_id c))"

definition compute_pairwise_sub :: "authority \<Rightarrow> string \<Rightarrow> string \<Rightarrow> string \<Rightarrow> string" where
  "compute_pairwise_sub au public_sub sector_identifier issuer =
     au_hmac_half au issuer (public_sub @ ''|'' @ sector_identifier)"

definition sub_override :: "authority \<Rightarrow> client \<Rightarrow> user \<Rightarrow> string \<Rightarrow> string option" where
  "sub_override au c u issuer =
     (if cl_subject_type c = Some ''pairwise''
      then Some (compute_pairwise_sub au (usr_id u) (sector_identifier_for_client au c) issuer)
      else None)"

text \<open>A family with its first access token, and the two tokens the client receives.\<close>

definition issued_family ::
  "authority \<Rightarrow> world \<Rightarrow> user \<Rightarrow> string \<Rightarrow> string \<Rightarrow> string list \<Rightarrow> token_issue_claims \<Rightarrow> token_family" where
  "issued_family au w u client_id realm_id scopes claims =
     \<lparr> tf_id = generate_jti w 22, tf_user_id = usr_id u, tf_client_id = client_id, tf_realm_id = realm_id,
       tf_current_refresh_hash = au_sha256_base64url au (generate_jti w 21), tf_scopes = scopes,
       tf_auth_time = tic_auth_time claims, tf_acr = tic_acr claims, tf_amr = token_amr claims,
       tf_audience = token_audience client_id claims, tf_resource = token_resource claims,
       tf_authorization_details = tic_authorization_details claims, tf_sender_constraint = tic_cnf claims,
       tf_issued_at = w_clock w 20,
       tf_refresh_expires_at =
         Some (sat_add (w_clock w 20) (ttl_refresh_token_ttl_seconds (token_ttl au realm_id))),
       tf_session_id = tic_session_id claims, tf_revoked = False \<rparr>"

definition issued_access_token ::
  "authority \<Rightarrow> string \<Rightarrow> string option \<Rightarrow> user \<Rightarrow> string \<Rightarrow> string \<Rightarrow> string list \<Rightarrow> token_issue_claims \<Rightarrow> u64 option
     \<Rightarrow> u64 \<Rightarrow> u64 \<Rightarrow> access_token" where
  "issued_access_token au jti family_id u client_id realm_id scopes claims auth_time expires_at now =
     \<lparr> at_jti = jti, at_family_id = family_id, at_user_id = usr_id u, at_client_id = client_id,
       at_realm_id = realm_id, at_scopes = scopes, at_audience = token_audience client_id claims,
       at_resource = token_resource claims, at_authorization_details = tic_authorization_details claims,
       at_cnf = tic_cnf claims, at_auth_time = auth_time, at_acr = tic_acr claims, at_amr = token_amr claims,
       at_nonce = tic_nonce claims, at_sender_constraint = tic_cnf claims,
       at_token_format = ttl_access_token_format (token_ttl au realm_id), at_expires_at = expires_at,
       at_revoked = False, at_issued_at = now \<rparr>"

definition issue_token_pair ::
  "authority \<Rightarrow> world \<Rightarrow> string \<Rightarrow> user \<Rightarrow> string \<Rightarrow> string \<Rightarrow> string list \<Rightarrow> token_issue_claims \<Rightarrow> token_pair act" where
  "issue_token_pair au w issuer u client_id realm_id scopes claims =
     (let now = w_clock w 20;
          access_jti = generate_jti w 20;
          refresh_jti = generate_jti w 21;
          family = issued_family au w u client_id realm_id scopes claims;
          refresh_expires_at = sat_add now (ttl_refresh_token_ttl_seconds (token_ttl au realm_id));
          access_expires_at = min (sat_add now (ttl_access_token_ttl_seconds (token_ttl au realm_id))) refresh_expires_at
      in bind_act (repo_op (create_token_family (w_io w 20) family)) (\<lambda>_.
         bind_act (repo_op (create_access_token (w_io w 21)
             (issued_access_token au access_jti (Some (tf_id family)) u client_id realm_id scopes claims
               (tic_auth_time claims) access_expires_at now))) (\<lambda>_.
         bind_act (lift_result (format_access_token au (w_clock w 21) issuer access_jti u client_id realm_id scopes
             (claims\<lparr>tic_access_expires_at := Some refresh_expires_at\<rparr>))) (\<lambda>access.
         bind_act (lift_result (sign_refresh_token au (w_clock w 22) issuer refresh_jti u client_id realm_id
             (Some (tf_id family)) refresh_expires_at)) (\<lambda>refresh.
         give \<lparr> tp_access_token = access, tp_refresh_token = refresh, tp_access_jti = access_jti,
                tp_refresh_jti = refresh_jti, tp_expires_in = sat_sub access_expires_at now \<rparr>)))))"

definition issue_access_token ::
  "authority \<Rightarrow> world \<Rightarrow> string \<Rightarrow> user \<Rightarrow> string \<Rightarrow> string \<Rightarrow> string list \<Rightarrow> token_issue_claims \<Rightarrow> (string \<times> u64) act" where
  "issue_access_token au w issuer u client_id realm_id scopes claims =
     (let now = w_clock w 20;
          access_jti = generate_jti w 20;
          expires_in = ttl_access_token_ttl_seconds (token_ttl au realm_id)
      in bind_act (repo_op (create_access_token (w_io w 21)
             (issued_access_token au access_jti None u client_id realm_id scopes claims
               (case tic_auth_time claims of None \<Rightarrow> Some now | t \<Rightarrow> t) (now + expires_in) now))) (\<lambda>_.
         bind_act (lift_result (format_access_token au (w_clock w 21) issuer access_jti u client_id realm_id scopes claims))
           (\<lambda>access. give (access, expires_in))))"

section \<open>Scopes stay under every ceiling\<close>

lemma try_each_Inr: "try_each f xs = Inr () \<longleftrightarrow> (\<forall>x \<in> set xs. f x = Inr ())"
  by (induction xs) (auto simp: and_then_Inr_iff)

lemma try_map_Inr: "try_map f xs = Inr ys \<longleftrightarrow> list_all2 (\<lambda>x y. f x = Inr y) xs ys"
  by (induction xs arbitrary: ys) (auto simp: and_then_Inr_iff list_all2_Cons1)


lemma list_all2_covers: "list_all2 P xs ys \<Longrightarrow> x \<in> set xs \<Longrightarrow> \<exists>y \<in> set ys. P x y"
  by (induction rule: list_all2_induct) auto

lemma list_all2_covered: "list_all2 P xs ys \<Longrightarrow> y \<in> set ys \<Longrightarrow> \<exists>x \<in> set xs. P x y"
  by (induction rule: list_all2_induct) auto

lemma server_of_audience_Inr:
  "server_of_audience servers a = Inr server \<longleftrightarrow> resource_server_by_audience servers a = Some server"
  by (simp add: server_of_audience_def ok_or_Inr_iff)

lemma resource_server_by_audience_Some:
  "resource_server_by_audience servers a = Some server \<Longrightarrow> server \<in> set servers \<and> rsv_audience server = a"
  by (auto simp: resource_server_by_audience_def find_Some_iff)

lemma resource_server_by_audience_ex:
  "server \<in> set servers \<Longrightarrow> \<exists>first. resource_server_by_audience servers (rsv_audience server) = Some first"
  by (cases "resource_server_by_audience servers (rsv_audience server)")
     (auto simp: resource_server_by_audience_def find_None_iff)

lemma server_of_resource_Inr:
  assumes "server_of_resource servers req resource = Inr server"
  shows "server \<in> set servers" "resource \<in> set (rsv_resources server)" "req = [] \<or> rsv_audience server \<in> set req"
  using assms
  by (auto simp: server_of_resource_def and_then_Inr_iff ok_or_Inr_iff resource_server_by_resource_def find_Some_iff
      split: if_splits)

definition within_ceiling :: "string list \<Rightarrow> resource_server \<Rightarrow> bool" where
  "within_ceiling scopes server \<longleftrightarrow> rsv_scopes server = [] \<or> set scopes \<subseteq> set (rsv_scopes server)"

lemma validate_scopes_per_target_Inr:
  "validate_scopes_per_target scopes servers = Inr () \<longleftrightarrow> (\<forall>server \<in> set servers. within_ceiling scopes server)"
  by (auto simp: validate_scopes_per_target_def try_each_Inr scope_allowed_def within_ceiling_def split: if_splits)

lemma resolve_authorization_audience_Inr:
  assumes "orl_resource_servers rl \<noteq> []" "resolve_authorization_audience rl req resources scopes = Inr auds"
  obtains by_audience by_resource where
    "list_all2 (\<lambda>a server. resource_server_by_audience (orl_resource_servers rl) a = Some server) req by_audience"
    "list_all2 (\<lambda>r server. server_of_resource (orl_resource_servers rl) req r = Inr server) resources by_resource"
    "auds = sort (remdups (req @ map rsv_audience by_resource))" "auds \<noteq> []"
    "\<forall>server \<in> set (by_audience @ by_resource). within_ceiling scopes server"
  using assms
  by (auto simp: resolve_authorization_audience_def Let_def and_then_Inr_iff try_map_Inr server_of_audience_Inr
      validate_scopes_per_target_Inr split: if_splits)

lemma resolved_server:
  assumes "list_all2 (\<lambda>a server. resource_server_by_audience servers a = Some server) req by_audience"
    and "list_all2 (\<lambda>r server. server_of_resource servers req r = Inr server) resources by_resource"
    and "a \<in> set (req @ map rsv_audience by_resource)"
  shows "\<exists>server \<in> set (by_audience @ by_resource). server \<in> set servers \<and> rsv_audience server = a"
proof (cases "a \<in> set req")
  case True
  with list_all2_covers [OF assms(1)] show ?thesis by (auto dest: resource_server_by_audience_Some)
next
  case False
  with assms(3) obtain server where "server \<in> set by_resource" "rsv_audience server = a" by auto
  with list_all2_covered [OF assms(2)] show ?thesis by (auto dest: server_of_resource_Inr(1))
qed

text \<open>
  C37. Tokens name only audiences whose resource servers accept them. In a realm with resource
  servers, the audiences of a token are at least one, each that of a configured server whose scope
  ceiling covers every scope of the token; a server that asks for sender-constrained tokens, or is
  high-risk, gets one. They are exactly the requested audiences where the client named any, and
  cover every requested resource.
\<close>

theorem token_audience_respects_servers:
  assumes "orl_resource_servers rl \<noteq> []" "resolve_token_audience rl req resources scopes cnf = Inr auds"
  shows "auds \<noteq> [] \<and> distinct auds \<and> sorted auds \<and> set req \<subseteq> set auds \<and> (req \<noteq> [] \<longrightarrow> set auds = set req) \<and>
    (\<forall>a \<in> set auds. \<exists>server \<in> set (orl_resource_servers rl). rsv_audience server = a \<and> within_ceiling scopes server) \<and>
    (\<forall>a \<in> set auds. \<exists>server. resource_server_by_audience (orl_resource_servers rl) a = Some server \<and>
       (rsv_require_sender_constraint server \<or> rsv_high_risk server \<longrightarrow> cnf \<noteq> None)) \<and>
    (\<forall>r \<in> set resources. \<exists>server \<in> set (orl_resource_servers rl). r \<in> set (rsv_resources server) \<and>
       rsv_audience server \<in> set auds \<and> within_ceiling scopes server)"
proof -
  let ?servers = "orl_resource_servers rl"
  from assms have resolved: "resolve_authorization_audience rl req resources scopes = Inr auds"
    and constrained: "\<forall>a \<in> set auds. constrained_audience ?servers cnf a = Inr ()"
    by (auto simp: resolve_token_audience_def and_then_Inr_iff try_each_Inr)
  from assms(1) resolved obtain by_audience by_resource where
    found: "list_all2 (\<lambda>a server. resource_server_by_audience ?servers a = Some server) req by_audience"
      "list_all2 (\<lambda>r server. server_of_resource ?servers req r = Inr server) resources by_resource"
    and auds: "auds = sort (remdups (req @ map rsv_audience by_resource))" "auds \<noteq> []"
    and ceiling: "\<forall>server \<in> set (by_audience @ by_resource). within_ceiling scopes server"
    by (rule resolve_authorization_audience_Inr)
  have each: "\<exists>server \<in> set ?servers. rsv_audience server = a \<and> within_ceiling scopes server" if "a \<in> set auds" for a
    using resolved_server [OF found, of a] that ceiling by (auto simp: auds)
  have sender: "\<exists>server. resource_server_by_audience ?servers a = Some server \<and>
      (rsv_require_sender_constraint server \<or> rsv_high_risk server \<longrightarrow> cnf \<noteq> None)" if "a \<in> set auds" for a
  proof -
    from each [OF that] resource_server_by_audience_ex obtain server where
      "resource_server_by_audience ?servers a = Some server" by blast
    with constrained that show ?thesis
      by (auto simp: constrained_audience_def require_sender_constraint_def split: if_splits)
  qed
  have covered: "\<exists>server \<in> set ?servers. r \<in> set (rsv_resources server) \<and> rsv_audience server \<in> set auds \<and>
      within_ceiling scopes server" if "r \<in> set resources" for r
  proof -
    from found(2) that obtain server where "server \<in> set by_resource" "server_of_resource ?servers req r = Inr server"
      by (blast dest: list_all2_covers)
    moreover from this have "server \<in> set ?servers" "r \<in> set (rsv_resources server)"
      using server_of_resource_Inr by blast+
    ultimately show ?thesis using ceiling by (intro bexI [of _ server]) (simp_all add: auds)
  qed
  have "rsv_audience server \<in> set req" if "req \<noteq> []" "server \<in> set by_resource" for server
    using list_all2_covered [OF found(2) that(2)] that(1) by (auto dest: server_of_resource_Inr(3))
  hence "req \<noteq> [] \<Longrightarrow> set auds = set req" by (auto simp: auds)
  moreover have "distinct auds" "sorted auds" "set req \<subseteq> set auds" by (auto simp: auds)
  ultimately show ?thesis using auds(2) each sender covered by (intro conjI ballI impI) simp_all
qed

text \<open>A realm with two servers, of which one wants sender-constrained tokens.\<close>

definition example_servers :: oauth_realm where
  "example_servers = \<lparr> orl_issuer = ''https://corp'', orl_default_scope = ''read'', orl_oidc_default_scope = ''openid'',
     orl_cookie_name = ''qid'', orl_token_ttl = default_token_ttl,
     orl_resource_servers =
       [\<lparr> rsv_audience = ''files'', rsv_resources = [''https://files''], rsv_scopes = [''read'', ''write''],
          rsv_introspection_client_ids = [], rsv_require_sender_constraint = False, rsv_high_risk = False \<rparr>,
        \<lparr> rsv_audience = ''bank'', rsv_resources = [''https://bank''], rsv_scopes = [],
          rsv_introspection_client_ids = [], rsv_require_sender_constraint = False, rsv_high_risk = True \<rparr>],
     orl_device_authorization_enabled = True, orl_ciba_enabled = True, orl_revocation_enabled = True,
     orl_introspection_enabled = True, orl_jwt_response = False, orl_dpop_enabled = False,
     orl_dpop_nonce = False, orl_mtls_enabled = False, orl_private_key_jwt_enabled = False \<rparr>"

theorem token_audience_respects_servers_witness:
  "let auds = [''bank'', ''files''] in
   resolve_token_audience example_servers [] [''https://files'', ''https://bank''] [''read''] (Some JNull) = Inr auds \<and>
   (\<forall>a \<in> set auds. \<exists>server \<in> set (orl_resource_servers example_servers). rsv_audience server = a \<and>
      within_ceiling [''read''] server)"
proof -
  have "orl_resource_servers example_servers \<noteq> []" by (simp add: example_servers_def)
  moreover have run: "resolve_token_audience example_servers [] [''https://files'', ''https://bank''] [''read''] (Some JNull)
      = Inr [''bank'', ''files'']" by code_simp
  ultimately show ?thesis
    using token_audience_respects_servers [of example_servers "[]" "[''https://files'', ''https://bank'']" "[''read'']"
        "Some JNull" "[''bank'', ''files'']"] by (simp only: Let_def) blast
qed

end
