(* ===== verification/Qid_Grants.thy ===== *)
theory Qid_Grants
  imports Qid_OAuth
begin

text \<open>
  The grants of the token endpoint: authorization codes, client credentials and refresh tokens of
  \<^verbatim>\<open>qid-oauth/src/endpoints/token_grant.rs\<close>, and device codes and backchannel requests of
  \<^verbatim>\<open>device_flow.rs\<close> and \<^verbatim>\<open>ciba.rs\<close>.

  Every handler is the whole handler of the source up to its answer: an approval answers with the
  fields of its own request and notifies the client over the network, which is left out. Index 20 and above of the world's readings
  belong to issuance, 30 to client credentials, 40 to refresh, 50 to codes, 60 to device codes and
  70 to backchannel requests.
\<close>

section \<open>Requests and responses\<close>

record token_request =
  tr_grant_type :: string
  tr_code :: "string option"
  tr_redirect_uri :: "string option"
  tr_code_verifier :: "string option"
  tr_client_id :: "string option"
  tr_client_secret :: "string option"
  tr_scope :: "string option"
  tr_refresh_token :: "string option"
  tr_client_assertion :: "string option"
  tr_client_assertion_type :: "string option"
  tr_device_code :: "string option"
  tr_auth_req_id :: "string option"
  tr_assertion :: "string option"
  tr_subject_token :: "string option"
  tr_subject_token_type :: "string option"
  tr_actor_token :: "string option"
  tr_actor_token_type :: "string option"
  tr_requested_token_type :: "string option"
  tr_audience :: "string option"
  tr_resource :: "string option"
  tr_authorization_details :: "json option"

record token_response =
  tres_access_token :: string
  tres_token_type :: string
  tres_expires_in :: u64
  tres_refresh_token :: "string option"
  tres_id_token :: "string option"
  tres_scope :: "string option"
  tres_issued_token_type :: "string option"

definition config_realm :: "authority \<Rightarrow> string \<Rightarrow> oauth_realm act" where
  "config_realm au realm_id = require_some (map_of (au_realms au) realm_id) (NotFound (''realm '' @ realm_id))"

definition grant_user :: "string \<Rightarrow> string \<Rightarrow> string \<Rightarrow> user act" where
  "grant_user user_id realm_id mismatch =
     bind_act (repo_read (get_user_by_id user_id)) (\<lambda>found.
     bind_act (require_some found (NotFound ''user'')) (\<lambda>u.
     bind_act (require (usr_realm_id u = realm_id) (Unauthorized mismatch)) (\<lambda>_. give u)))"

section \<open>Authorization codes\<close>

definition code_matches :: "authorization_code \<Rightarrow> u64 \<Rightarrow> string \<Rightarrow> client \<Rightarrow> bool" where
  "code_matches code now redirect_uri c \<longleftrightarrow>
     \<not> code_used code \<and> now < code_expires_at code \<and> code_redirect_uri code = redirect_uri
     \<and> code_client_id code = cl_client_id c \<and> code_realm_id code = cl_realm_id c"

definition code_issue_claims :: "authorization_code \<Rightarrow> string \<Rightarrow> json option \<Rightarrow> string list \<Rightarrow> token_issue_claims" where
  "code_issue_claims code text cnf auds = default_issue_claims\<lparr>
     tic_audience := Some auds, tic_resource := Some (code_resource code),
     tic_authorization_details := code_authorization_details code, tic_cnf := cnf,
     tic_auth_time := code_auth_time code, tic_acr := code_acr code, tic_amr := Some (code_amr code),
     tic_nonce := code_nonce code, tic_authorization_code := Some text, tic_session_id := code_session_id code\<rparr>"

definition code_id_claims :: "authorization_code \<Rightarrow> string \<Rightarrow> json option \<Rightarrow> string \<Rightarrow> token_issue_claims" where
  "code_id_claims code text cnf access = default_issue_claims\<lparr>
     tic_resource := Some (code_resource code), tic_authorization_details := code_authorization_details code,
     tic_cnf := cnf, tic_auth_time := code_auth_time code, tic_acr := code_acr code, tic_amr := Some (code_amr code),
     tic_nonce := code_nonce code, tic_authorization_code := Some text, tic_access_token := Some access\<rparr>"

text \<open>What follows once the code is marked used: audience, tokens and the ID token.\<close>

definition issue_for_code ::
  "authority \<Rightarrow> world \<Rightarrow> authorization_code \<Rightarrow> string \<Rightarrow> client \<Rightarrow> json option \<Rightarrow> token_response act" where
  "issue_for_code au w code text c cnf =
     bind_act (grant_user (code_user_id code) (code_realm_id code) ''authorization code user realm mismatch'') (\<lambda>u.
     bind_act (config_realm au (code_realm_id code)) (\<lambda>rl.
     bind_act (lift_result (resolve_token_audience rl [] (code_resource code) (code_scopes code) cnf)) (\<lambda>auds.
     bind_act (issue_token_pair au w (orl_issuer rl) u (code_client_id code) (code_realm_id code) (code_scopes code)
         (code_issue_claims code text cnf auds)) (\<lambda>pair.
     bind_act (lift_result (issue_id_token au (w_clock w 23) (generate_jti w 23) (orl_issuer rl) u (code_client_id code)
         (code_realm_id code) (code_scopes code) (code_id_claims code text cnf (tp_access_token pair))
         (sub_override au c u (orl_issuer rl)))) (\<lambda>id_token.
     give \<lparr> tres_access_token = tp_access_token pair, tres_token_type = access_token_type_for_cnf cnf,
            tres_expires_in = tp_expires_in pair, tres_refresh_token = Some (tp_refresh_token pair),
            tres_id_token = Some id_token, tres_scope = Some (join_space (code_scopes code)),
            tres_issued_token_type = None \<rparr>)))))"

definition authorization_code_grant ::
  "authority \<Rightarrow> world \<Rightarrow> token_request \<Rightarrow> client \<Rightarrow> json option \<Rightarrow> token_response act" where
  "authorization_code_grant au w req c cnf =
     bind_act (require_some (tr_code req) (BadRequest ''code required'')) (\<lambda>text.
     bind_act (require_some (tr_redirect_uri req) (BadRequest ''redirect_uri required'')) (\<lambda>redirect_uri.
     bind_act (repo_read (get_authorization_code (au_sha256_base64url au text))) (\<lambda>found.
     bind_act (require_some found (Unauthorized ''invalid code'')) (\<lambda>code.
     bind_act (require (code_matches code (w_clock w 50) redirect_uri c) (Unauthorized ''invalid code'')) (\<lambda>_.
     bind_act (require (verify_code_verifier au (code_code_challenge code) (code_code_challenge_method code)
         (case tr_code_verifier req of None \<Rightarrow> [] | Some v \<Rightarrow> v)) (Unauthorized ''invalid code_verifier'')) (\<lambda>_.
     bind_act (repo_op (mark_authorization_code_used (w_io w 50) code)) (\<lambda>_.
     issue_for_code au w code text c cnf)))))))"

section \<open>Client credentials\<close>

definition service_account_for :: "world \<Rightarrow> string \<Rightarrow> string \<Rightarrow> service_account act" where
  "service_account_for w realm_id client_id =
     bind_act (repo_read (get_service_account_by_client_id realm_id client_id)) (\<lambda>found.
     case found of
       Some sa \<Rightarrow> give sa
     | None \<Rightarrow>
         let sa = \<lparr> sa_id = ''service:'' @ client_id, sa_client_id = client_id, sa_realm_id = realm_id,
                    sa_description = None, sa_created_at = w_clock w 30 \<rparr>;
             sa2 = sa\<lparr>sa_id := ''service2:'' @ decimal (length realm_id) @ '':'' @ realm_id @ '':'' @ client_id\<rparr>
         in bind_act (attempt (repo_op (create_service_account (w_io w 30) sa))) (\<lambda>made.
            case made of
              Inr _ \<Rightarrow> give sa
            | Inl (Conflict _) \<Rightarrow>
                bind_act (repo_read (get_service_account_by_client_id realm_id client_id)) (\<lambda>existing.
                case existing of
                  Some sa \<Rightarrow> give sa
                | None \<Rightarrow>
                    bind_act (attempt (repo_op (create_service_account (w_io w 31) sa2))) (\<lambda>made.
                    case made of
                      Inr _ \<Rightarrow> give sa2
                    | Inl (Conflict m) \<Rightarrow>
                        bind_act (repo_read (get_service_account_by_client_id realm_id client_id))
                          (\<lambda>existing. require_some existing (Conflict m))
                    | Inl e \<Rightarrow> refuse e))
            | Inl e \<Rightarrow> refuse e))"

definition service_user :: "service_account \<Rightarrow> user" where
  "service_user sa = \<lparr> usr_id = sa_id sa, usr_realm_id = sa_realm_id sa, usr_email = None, usr_email_verified = False,
     usr_display_name = sa_description sa, usr_failed_login_attempts = 0, usr_locked_until = None, usr_org = None \<rparr>"

definition ensure_user :: "world \<Rightarrow> user \<Rightarrow> unit act" where
  "ensure_user w u =
     bind_act (repo_read (get_user_by_id (usr_id u))) (\<lambda>found.
       case found of None \<Rightarrow> repo_op (create_user (w_io w 32) u) | Some _ \<Rightarrow> give ())"

definition requested_scopes :: "token_request \<Rightarrow> string \<Rightarrow> string list" where
  "requested_scopes req default_scope =
     (case tr_scope req of None \<Rightarrow> [default_scope] | Some s \<Rightarrow> split_on (CHR '' '') s)"

definition requested_audiences :: "token_request \<Rightarrow> string list" where
  "requested_audiences req =
     (case tr_audience req of None \<Rightarrow> [] | Some a \<Rightarrow> filter (\<lambda>part. part \<noteq> []) (split_on (CHR '' '') a))"

definition validate_details :: "token_request \<Rightarrow> unit result" where
  "validate_details req =
     (case tr_authorization_details req of None \<Rightarrow> Inr () | Some details \<Rightarrow> validate_authorization_details details)"

definition client_credentials_grant ::
  "authority \<Rightarrow> world \<Rightarrow> token_request \<Rightarrow> client \<Rightarrow> json option \<Rightarrow> token_response act" where
  "client_credentials_grant au w req c cnf =
     bind_act (config_realm au (cl_realm_id c)) (\<lambda>rl.
     bind_act (service_account_for w (cl_realm_id c) (cl_client_id c)) (\<lambda>sa.
     bind_act (ensure_user w (service_user sa)) (\<lambda>_.
     let scopes = requested_scopes req (orl_default_scope rl);
         resources = (case tr_resource req of None \<Rightarrow> [] | Some r \<Rightarrow> [r])
     in bind_act (lift_result (validate_details req)) (\<lambda>_.
        bind_act (lift_result (resolve_token_audience rl (requested_audiences req) resources scopes cnf)) (\<lambda>auds.
        bind_act (issue_access_token au w (orl_issuer rl) (service_user sa) (cl_client_id c) (cl_realm_id c) scopes
            (default_issue_claims\<lparr>tic_audience := Some auds, tic_resource := Some resources,
               tic_authorization_details := tr_authorization_details req, tic_cnf := cnf,
               tic_auth_time := Some (w_clock w 31)\<rparr>)) (\<lambda>(access, expires_in).
        give \<lparr> tres_access_token = access, tres_token_type = access_token_type_for_cnf cnf,
               tres_expires_in = expires_in, tres_refresh_token = None, tres_id_token = None,
               tres_scope = Some (join_space scopes), tres_issued_token_type = None \<rparr>))))))"

section \<open>Refresh tokens\<close>

definition revoke_reused_family :: "world \<Rightarrow> token_family \<Rightarrow> 'a act" where
  "revoke_reused_family w family =
     bind_act (ignore_failure (repo_op (revoke_token_family (w_io w 40) (tf_id family) (tf_realm_id family)))) (\<lambda>_.
       refuse (Unauthorized ''invalid refresh token''))"

text \<open>The token identifier and the family the presented refresh token names.\<close>

definition refresh_claims :: "authority \<Rightarrow> u64 \<Rightarrow> token_request \<Rightarrow> client \<Rightarrow> (string \<times> string) result" where
  "refresh_claims au now req c =
     and_then (ok_or (BadRequest ''refresh_token required'') (tr_refresh_token req)) (\<lambda>token.
     and_then (case au_decode au now token of
                 Inl e \<Rightarrow> Inl (Crypto (''failed to decode refresh token: '' @ e)) | Inr claims \<Rightarrow> Inr claims) (\<lambda>claims.
     and_then (ok_or (Unauthorized ''refresh token missing aud claim'') (Option.bind (jc_aud claims) audience_primary))
       (\<lambda>refresh_aud.
     if refresh_aud \<noteq> cl_client_id c
     then Inl (Unauthorized ''refresh token was not issued to authenticated client'')
     else and_then (ok_or (Crypto ''refresh token missing jti'') (jc_jti claims)) (\<lambda>refresh_jti.
          and_then (ok_or (BadRequest ''refresh token missing family_id'')
              (Option.bind (hm_get (jc_extra claims) ''family_id'') json_str)) (\<lambda>family_id.
          Inr (refresh_jti, family_id))))))"

definition refresh_deadline :: "authority \<Rightarrow> token_family \<Rightarrow> u64" where
  "refresh_deadline au family =
     (case tf_refresh_expires_at family of
        Some t \<Rightarrow> t
      | None \<Rightarrow> sat_add (tf_issued_at family) (ttl_refresh_token_ttl_seconds (token_ttl au (tf_realm_id family))))"

definition family_session_live :: "u64 \<Rightarrow> token_family \<Rightarrow> unit act" where
  "family_session_live now family =
     (case tf_session_id family of
        None \<Rightarrow> give ()
      | Some session_id \<Rightarrow>
          bind_act (repo_read (get_session session_id)) (\<lambda>found.
          require (case found of
                     None \<Rightarrow> False
                   | Some ses \<Rightarrow> ses_realm_id ses = tf_realm_id family \<and> is_active ses now)
            (Unauthorized ''refresh token family session ended'')))"

definition within_grant :: "token_family \<Rightarrow> string \<Rightarrow> unit result" where
  "within_grant family scope =
     (if scope \<notin> set (tf_scopes family)
      then Inl (BadRequest (''requested scope '' @ scope @ '' exceeds granted scope'')) else Inr ())"

definition refresh_scopes :: "token_family \<Rightarrow> token_request \<Rightarrow> string list result" where
  "refresh_scopes family req =
     (if tf_scopes family = [] then Inl (Unauthorized ''refresh token scope is not established'')
      else case tr_scope req of
             None \<Rightarrow> Inr (tf_scopes family)
           | Some requested \<Rightarrow>
               let narrowed = split_whitespace requested
               in and_then (try_each (within_grant family) narrowed) (\<lambda>_. Inr narrowed))"

definition mtls_binding :: "token_family \<Rightarrow> json option \<Rightarrow> unit result" where
  "mtls_binding family cnf =
     (case tf_sender_constraint family of
        None \<Rightarrow> Inr ()
      | Some sender \<Rightarrow>
          if json_get sender ''x5t#S256'' \<noteq> None
             \<and> \<not> (case Option.bind cnf (\<lambda>v. json_get_str v ''x5t#S256'') of
                     None \<Rightarrow> False
                   | Some x5t \<Rightarrow> json_get_str sender ''x5t#S256'' = Some x5t)
          then Inl (Unauthorized ''mTLS certificate binding required for refresh token'')
          else Inr ())"

definition dpop_binding :: "token_family \<Rightarrow> json option \<Rightarrow> unit act" where
  "dpop_binding family cnf =
     (case Option.bind (tf_sender_constraint family) (\<lambda>sender. json_get_str sender ''jkt'') of
        None \<Rightarrow> give ()
      | Some expected \<Rightarrow>
          bind_act (repo_read (get_client_by_client_id (tf_realm_id family) (tf_client_id family))) (\<lambda>found.
          bind_act (require_some found (Unauthorized ''unknown client'')) (\<lambda>c.
          let presented = (case Option.bind cnf (\<lambda>v. json_get_str v ''jkt'') of None \<Rightarrow> [] | Some p \<Rightarrow> p)
          in require (\<not> (cl_client_type c = Public \<and> (presented = [] \<or> \<not> constant_time_eq expected presented)))
               (Unauthorized ''DPoP binding required for refresh token''))))"

definition or_else :: "'a option \<Rightarrow> 'a option \<Rightarrow> 'a option" where
  "or_else x y = (case x of None \<Rightarrow> y | Some _ \<Rightarrow> x)"

definition family_audience :: "token_family \<Rightarrow> string list" where
  "family_audience family = (if tf_audience family = [] then [tf_client_id family] else tf_audience family)"

definition refreshed_access_token ::
  "authority \<Rightarrow> world \<Rightarrow> token_family \<Rightarrow> string list \<Rightarrow> json option \<Rightarrow> u64 \<Rightarrow> u64 \<Rightarrow> access_token" where
  "refreshed_access_token au w family scopes cnf now deadline =
     \<lparr> at_jti = generate_jti w 40, at_family_id = Some (tf_id family), at_user_id = tf_user_id family,
       at_client_id = tf_client_id family, at_realm_id = tf_realm_id family, at_scopes = scopes,
       at_audience = family_audience family, at_resource = tf_resource family,
       at_authorization_details = tf_authorization_details family,
       at_cnf = or_else cnf (tf_sender_constraint family), at_auth_time = tf_auth_time family,
       at_acr = tf_acr family, at_amr = tf_amr family, at_nonce = None,
       at_sender_constraint = or_else cnf (tf_sender_constraint family),
       at_token_format = ttl_access_token_format (token_ttl au (tf_realm_id family)),
       at_expires_at = min (sat_add now (ttl_access_token_ttl_seconds (token_ttl au (tf_realm_id family)))) deadline,
       at_revoked = False, at_issued_at = now \<rparr>"

definition family_issue_claims :: "token_family \<Rightarrow> json option \<Rightarrow> u64 \<Rightarrow> token_issue_claims" where
  "family_issue_claims family cnf deadline = default_issue_claims\<lparr>
     tic_audience := Some (family_audience family), tic_resource := Some (tf_resource family),
     tic_authorization_details := tf_authorization_details family, tic_cnf := or_else cnf (tf_sender_constraint family),
     tic_auth_time := tf_auth_time family, tic_acr := tf_acr family, tic_amr := Some (tf_amr family),
     tic_access_expires_at := Some deadline\<rparr>"

text \<open>The tokens of the rotated family.\<close>

definition reissue ::
  "authority \<Rightarrow> world \<Rightarrow> token_family \<Rightarrow> user \<Rightarrow> string \<Rightarrow> string list \<Rightarrow> json option \<Rightarrow> u64 \<Rightarrow> u64 \<Rightarrow> token_response act" where
  "reissue au w family u issuer scopes cnf now deadline =
     bind_act (repo_op (create_access_token (w_io w 42)
         (refreshed_access_token au w family scopes cnf now deadline))) (\<lambda>_.
     bind_act (lift_result (format_access_token au (w_clock w 41) issuer (generate_jti w 40) u (tf_client_id family)
         (tf_realm_id family) scopes (family_issue_claims family cnf deadline))) (\<lambda>access.
     bind_act (lift_result (sign_refresh_token au (w_clock w 42) issuer (generate_jti w 41) u (tf_client_id family)
         (tf_realm_id family) (Some (tf_id family)) deadline)) (\<lambda>refresh.
     give \<lparr> tres_access_token = access,
            tres_token_type = access_token_type_for_cnf (or_else cnf (tf_sender_constraint family)),
            tres_expires_in = min (sat_sub deadline now)
              (ttl_access_token_ttl_seconds (token_ttl au (tf_realm_id family))),
            tres_refresh_token = Some refresh, tres_id_token = None, tres_scope = Some (join_space scopes),
            tres_issued_token_type = None \<rparr>)))"

text \<open>Consuming the presented token: the swap of the stored hash, and what its refusals mean.\<close>

definition consume_refresh_token ::
  "authority \<Rightarrow> world \<Rightarrow> token_family \<Rightarrow> client \<Rightarrow> string \<Rightarrow> u64 \<Rightarrow> unit act" where
  "consume_refresh_token au w family c expected_hash deadline =
     bind_act (attempt (repo_op (update_token_family_refresh_hash (w_io w 41) (tf_id family) (cl_realm_id c)
         expected_hash (au_sha256_base64url au (generate_jti w 41)) deadline))) (\<lambda>rotated.
     case rotated of
       Inr _ \<Rightarrow> give ()
     | Inl (NotFound _) \<Rightarrow> refuse (Unauthorized ''invalid refresh token'')
     | Inl (Conflict _) \<Rightarrow> revoke_reused_family w family
     | Inl e \<Rightarrow> refuse e)"

definition refresh_token_grant ::
  "authority \<Rightarrow> world \<Rightarrow> token_request \<Rightarrow> client \<Rightarrow> json option \<Rightarrow> token_response act" where
  "refresh_token_grant au w req c cnf =
     bind_act (lift_result (refresh_claims au (w_clock w 39) req c)) (\<lambda>(refresh_jti, family_id).
     bind_act (repo_read (get_token_family family_id)) (\<lambda>found.
     bind_act (require_some found (Unauthorized ''invalid refresh token'')) (\<lambda>family.
     bind_act (require (tf_client_id family = cl_client_id c \<and> tf_realm_id family = cl_realm_id c)
         (Unauthorized ''refresh token was not issued to authenticated client'')) (\<lambda>_.
     bind_act (require (\<not> tf_revoked family) (Unauthorized ''refresh token family revoked'')) (\<lambda>_.
     let now = w_clock w 40; deadline = refresh_deadline au family in
     bind_act (require (now < deadline) (Unauthorized ''refresh token family expired'')) (\<lambda>_.
     bind_act (family_session_live now family) (\<lambda>_.
     let expected_hash = au_sha256_base64url au refresh_jti in
     if tf_current_refresh_hash family \<noteq> expected_hash then revoke_reused_family w family
     else bind_act (grant_user (tf_user_id family) (tf_realm_id family) ''refresh token user realm mismatch'') (\<lambda>u.
          bind_act (config_realm au (tf_realm_id family)) (\<lambda>rl.
          bind_act (lift_result (refresh_scopes family req)) (\<lambda>scopes.
          bind_act (lift_result (mtls_binding family cnf)) (\<lambda>_.
          bind_act (dpop_binding family cnf) (\<lambda>_.
          bind_act (consume_refresh_token au w family c expected_hash deadline) (\<lambda>_.
          reissue au w family u (orl_issuer rl) scopes cnf now deadline)))))))))))))"

section \<open>Approved targets\<close>

definition oauth_realm_config :: "authority \<Rightarrow> string \<Rightarrow> oauth_realm act" where
  "oauth_realm_config au realm_id =
     require_some (map_of (au_realms au) realm_id) (Config (''realm '' @ realm_id @ '' not found for OAuth client''))"

definition validate_grant_target ::
  "oauth_realm \<Rightarrow> token_request \<Rightarrow> string \<Rightarrow> string list \<Rightarrow> string list \<Rightarrow> string list \<Rightarrow> json option \<Rightarrow> string list result" where
  "validate_grant_target rl req client_id resource auds granted_scopes cnf =
     (let scopes = (case tr_scope req of None \<Rightarrow> granted_scopes | Some s \<Rightarrow> split_whitespace s);
          requested_audience = map_option split_whitespace (tr_audience req);
          effective_audience = (if auds = [] then [client_id] else auds)
      in if (\<exists>r \<in> set_option (tr_resource req). resource \<noteq> [r])
            \<or> (\<exists>a \<in> set_option requested_audience. a \<noteq> effective_audience)
            \<or> list_ex (\<lambda>scope. scope \<notin> set granted_scopes) scopes
         then Inl (BadRequest ''token request exceeds the approved target or scopes'')
         else and_then (resolve_token_audience rl [] resource scopes cnf) (\<lambda>cur.
           if cur \<noteq> auds then Inl (Unauthorized ''approved target audience has changed'') else Inr scopes))"

section \<open>Device codes\<close>

record device_authorization_request =
  dar_client_id :: string
  dar_scope :: "string option"
  dar_resource :: "string option"

record device_authorization_response =
  dares_device_code :: string
  dares_user_code :: string
  dares_verification_uri :: string
  dares_verification_uri_complete :: string
  dares_expires_in :: u64
  dares_interval :: u64

definition device_grant_type :: string where
  "device_grant_type = ''urn:ietf:params:oauth:grant-type:device_code''"

definition ciba_grant_type :: string where
  "ciba_grant_type = ''urn:openid:params:grant-type:ciba''"

definition new_device_code :: "world \<Rightarrow> string" where
  "new_device_code w = ''dc_'' @ w_random w 60"

definition new_user_code :: "world \<Rightarrow> string" where
  "new_user_code w =
     ''QID-'' @ map (\<lambda>c. ''0123456789ABCDEFGHJKMNPQRSTVWXYZ'' ! (byte_val c mod 32)) (w_random w 61)"

definition trim_end_slashes :: "string \<Rightarrow> string" where
  "trim_end_slashes s = rev (dropWhile (\<lambda>c. c = CHR ''/'') (rev s))"

definition device_authorization ::
  "authority \<Rightarrow> world \<Rightarrow> device_authorization_request \<Rightarrow> device_authorization_response act" where
  "device_authorization au w req =
     bind_act (find_client_across_realms au (dar_client_id req)) (\<lambda>c.
     bind_act (require_some (map_of (au_realms au) (cl_realm_id c))
         (Config (''realm '' @ cl_realm_id c @ '' not found for device client''))) (\<lambda>rl.
     bind_act (require (oauth_feature_enabled au (cl_realm_id c) orl_device_authorization_enabled)
         (BadRequest ''device authorization is disabled'')) (\<lambda>_.
     bind_act (require (device_grant_type \<in> set (cl_grant_types c)) (Unauthorized ''device grant not allowed for client'')) (\<lambda>_.
     let device_code = new_device_code w;
         user_code = new_user_code w;
         verification_uri = trim_end_slashes (au_public_base_url au) @ au_device_verification_path au;
         scope = split_on (CHR '' '') (case dar_scope req of None \<Rightarrow> orl_default_scope rl | Some s \<Rightarrow> s);
         now = w_clock w 60;
         ttl_seconds = ttl_device_code_ttl_seconds (token_ttl au (cl_realm_id c));
         resource = (case dar_resource req of None \<Rightarrow> [] | Some r \<Rightarrow> [r])
     in bind_act (oauth_realm_config au (cl_realm_id c)) (\<lambda>realm_config.
        bind_act (lift_result (resolve_authorization_audience realm_config [] resource scope)) (\<lambda>auds.
        bind_act (repo_op (store_device_authorization_grant (w_io w 60)
            \<lparr> dag_device_code_hash = au_sha256_base64url au device_code, dag_user_code = user_code,
              dag_client_id = dar_client_id req, dag_realm_id = cl_realm_id c, dag_scopes = scope,
              dag_resource = resource, dag_audience = auds, dag_user_id = None, dag_expires_at = now + ttl_seconds,
              dag_approved_at = None, dag_consumed = False, dag_last_poll_at = None,
              dag_poll_interval_seconds = 5, dag_created_at = now \<rparr>)) (\<lambda>_.
        give \<lparr> dares_device_code = device_code, dares_user_code = user_code,
               dares_verification_uri = verification_uri,
               dares_verification_uri_complete = verification_uri @ ''?user_code='' @ user_code,
               dares_expires_in = ttl_seconds, dares_interval = 5 \<rparr>)))))))"

definition approve_device_authorization :: "authority \<Rightarrow> world \<Rightarrow> string \<Rightarrow> string option \<Rightarrow> unit act" where
  "approve_device_authorization au w user_code cookie =
     bind_act (repo_read (get_device_authorization_grant_by_user_code user_code)) (\<lambda>found.
     bind_act (require_some found (NotFound ''device authorization grant'')) (\<lambda>grant.
     bind_act (require_some (map_of (au_realms au) (dag_realm_id grant))
         (Config (''realm '' @ dag_realm_id grant @ '' not found''))) (\<lambda>rl.
     bind_act (require_some (extract_cookie cookie (orl_cookie_name rl))
         (Unauthorized ''authentication required: missing session cookie'')) (\<lambda>session_id.
     bind_act (repo_read (get_session session_id)) (\<lambda>found.
     bind_act (require_some found (Unauthorized ''invalid or expired session'')) (\<lambda>ses.
     bind_act (require (is_active ses (w_clock w 61)) (Unauthorized ''session is no longer active'')) (\<lambda>_.
     bind_act (grant_user (ses_user_id ses) (dag_realm_id grant)
         ''approval subject does not belong to the same realm as the device authorization grant'') (\<lambda>_.
     repo_op (approve_device_authorization_grant (w_io w 61) user_code (ses_user_id ses) (w_clock w 62))))))))))"

definition device_authorization_approve :: "authority \<Rightarrow> world \<Rightarrow> string \<Rightarrow> string option \<Rightarrow> unit act" where
  "device_authorization_approve au w user_code cookie =
     bind_act (require (list_ex (\<lambda>(realm_id, _). oauth_feature_enabled au realm_id orl_device_authorization_enabled)
         (au_realms au)) (BadRequest ''device authorization is disabled'')) (\<lambda>_.
     approve_device_authorization au w user_code cookie)"

definition max_poll_interval_seconds :: u64 where
  "max_poll_interval_seconds = 60"

definition polled_early :: "u64 option \<Rightarrow> u64 \<Rightarrow> u64 \<Rightarrow> bool" where
  "polled_early last_poll_at interval now =
     (case last_poll_at of None \<Rightarrow> False | Some t \<Rightarrow> now < sat_add t interval)"

definition enforce_device_poll_interval :: "world \<Rightarrow> string \<Rightarrow> device_authorization_grant \<Rightarrow> u64 \<Rightarrow> unit act" where
  "enforce_device_poll_interval w device_code_hash grant now =
     (let early = polled_early (dag_last_poll_at grant) (dag_poll_interval_seconds grant) now;
          next_interval = (if early then min (sat_add (dag_poll_interval_seconds grant) 5) max_poll_interval_seconds
                           else dag_poll_interval_seconds grant)
      in bind_act (repo_op (record_device_authorization_poll (w_io w 62) device_code_hash now next_interval)) (\<lambda>_.
         require (\<not> early) (Unauthorized ''slow_down'')))"

definition poll_device_grant :: "world \<Rightarrow> string \<Rightarrow> device_authorization_grant \<Rightarrow> u64 \<Rightarrow> string act" where
  "poll_device_grant w device_code_hash grant now =
     (case dag_user_id grant of
        None \<Rightarrow> bind_act (enforce_device_poll_interval w device_code_hash grant now) (\<lambda>_.
                  refuse (Unauthorized ''authorization_pending''))
      | Some user_id \<Rightarrow> give user_id)"

definition device_code_grant :: "authority \<Rightarrow> world \<Rightarrow> token_request \<Rightarrow> json option \<Rightarrow> token_response act" where
  "device_code_grant au w req cnf =
     bind_act (require_some (tr_device_code req) (BadRequest ''device_code required'')) (\<lambda>device_code.
     let device_code_hash = au_sha256_base64url au device_code in
     bind_act (repo_read (get_device_authorization_grant device_code_hash)) (\<lambda>found.
     bind_act (require_some found (Unauthorized ''invalid device_code'')) (\<lambda>grant.
     let now = w_clock w 63 in
     bind_act (require (now < dag_expires_at grant) (Unauthorized ''expired_token'')) (\<lambda>_.
     bind_act (require (\<not> dag_consumed grant) (Unauthorized ''invalid device_code'')) (\<lambda>_.
     bind_act (require (tr_client_id req = Some (dag_client_id grant))
         (Unauthorized ''client_id does not match device_code'')) (\<lambda>_.
     bind_act (poll_device_grant w device_code_hash grant now) (\<lambda>user_id.
     bind_act (grant_user user_id (dag_realm_id grant)
         ''user realm does not match device authorization grant realm'') (\<lambda>u.
     bind_act (config_realm au (dag_realm_id grant)) (\<lambda>rl.
     bind_act (require (oauth_feature_enabled au (dag_realm_id grant) orl_device_authorization_enabled)
         (BadRequest ''device authorization is disabled'')) (\<lambda>_.
     bind_act (oauth_realm_config au (dag_realm_id grant)) (\<lambda>realm_config.
     bind_act (lift_result (validate_grant_target realm_config req (dag_client_id grant) (dag_resource grant)
         (dag_audience grant) (dag_scopes grant) cnf)) (\<lambda>scopes.
     bind_act (repo_op (consume_device_authorization_grant (w_io w 63) device_code_hash)) (\<lambda>_.
     bind_act (issue_token_pair au w (orl_issuer rl) u (dag_client_id grant) (dag_realm_id grant) scopes
         (default_issue_claims\<lparr>tic_audience := Some (dag_audience grant), tic_resource := Some (dag_resource grant),
            tic_cnf := cnf, tic_auth_time := Some now\<rparr>)) (\<lambda>pair.
     give \<lparr> tres_access_token = tp_access_token pair, tres_token_type = access_token_type_for_cnf cnf,
            tres_expires_in = tp_expires_in pair, tres_refresh_token = Some (tp_refresh_token pair),
            tres_id_token = None, tres_scope = Some (join_space scopes), tres_issued_token_type = None \<rparr>))))))))))))))"

section \<open>Backchannel requests\<close>

record backchannel_request =
  bar_client_id :: string
  bar_client_secret :: "string option"
  bar_scope :: "string option"
  bar_resource :: "string option"
  bar_login_hint :: string
  bar_binding_message :: "string option"

record backchannel_response =
  bares_auth_req_id :: string
  bares_expires_in :: u64
  bares_interval :: u64

definition verify_client_secret :: "authority \<Rightarrow> client \<Rightarrow> string option \<Rightarrow> unit result" where
  "verify_client_secret au c presented =
     and_then (ok_or (Unauthorized ''client_secret is required'') presented) (\<lambda>secret.
     if secret = [] then Inl (Unauthorized ''client_secret is required'')
     else and_then (ok_or (Unauthorized ''client secret is not configured'') (cl_client_secret_hash c)) (\<lambda>expected.
          if constant_time_eq expected (au_client_secret_hash au secret) then Inr ()
          else Inl (Unauthorized ''invalid client_secret'')))"

definition create_backchannel_authentication_grant ::
  "authority \<Rightarrow> world \<Rightarrow> backchannel_request \<Rightarrow> backchannel_response act" where
  "create_backchannel_authentication_grant au w req =
     bind_act (find_client_across_realms_with_messages au (bar_client_id req) ''CIBA client realm is ambiguous''
         ''unknown client'') (\<lambda>c.
     bind_act (require_some (map_of (au_realms au) (cl_realm_id c))
         (Config (''realm '' @ cl_realm_id c @ '' not found for CIBA client''))) (\<lambda>rl.
     bind_act (require (oauth_feature_enabled au (cl_realm_id c) orl_ciba_enabled) (BadRequest ''CIBA is disabled'')) (\<lambda>_.
     bind_act (require (cl_client_type c = Confidential) (Unauthorized ''CIBA requires a confidential client'')) (\<lambda>_.
     bind_act (require (ciba_grant_type \<in> set (cl_grant_types c)) (Unauthorized ''CIBA grant not allowed for client'')) (\<lambda>_.
     bind_act (require (cl_token_endpoint_auth_method c = ''client_secret_post'')
         (Unauthorized ''CIBA client must authenticate with client_secret_post'')) (\<lambda>_.
     bind_act (lift_result (verify_client_secret au c (bar_client_secret req))) (\<lambda>_.
     bind_act (repo_read (get_user_by_email (cl_realm_id c) (bar_login_hint req))) (\<lambda>found.
     bind_act (require_some found (Unauthorized ''unknown login_hint'')) (\<lambda>u.
     let auth_req_id = ''ciba_'' @ w_random w 70;
         now = w_clock w 70;
         scopes = split_on (CHR '' '') (case bar_scope req of None \<Rightarrow> orl_oidc_default_scope rl | Some s \<Rightarrow> s);
         resource = (case bar_resource req of None \<Rightarrow> [] | Some r \<Rightarrow> [r])
     in bind_act (oauth_realm_config au (cl_realm_id c)) (\<lambda>realm_config.
        bind_act (lift_result (resolve_authorization_audience realm_config [] resource scopes)) (\<lambda>auds.
        bind_act (repo_op (store_backchannel_authentication_grant (w_io w 70)
            \<lparr> bag_auth_req_id_hash = au_sha256_base64url au auth_req_id, bag_client_id = bar_client_id req,
              bag_realm_id = cl_realm_id c, bag_login_hint = bar_login_hint req,
              bag_binding_message = bar_binding_message req, bag_scopes = scopes, bag_resource = resource,
              bag_audience = auds, bag_user_id = Some (usr_id u), bag_expires_at = now + 600,
              bag_approved_at = None, bag_consumed = False, bag_last_poll_at = None,
              bag_poll_interval_seconds = 5, bag_created_at = now \<rparr>)) (\<lambda>_.
        give \<lparr> bares_auth_req_id = auth_req_id, bares_expires_in = 600, bares_interval = 5 \<rparr>))))))))))))"

text \<open>This cookie scan stops at a pair that has the name and no value.\<close>

fun scan_cookie :: "string \<Rightarrow> string list \<Rightarrow> string option" where
  "scan_cookie name [] = None"
| "scan_cookie name (pair # rest) =
     (case split_once (CHR ''='') pair of
        None \<Rightarrow> if trim pair = name then None else scan_cookie name rest
      | Some (key, v) \<Rightarrow> if trim key = name then Some (trim v) else scan_cookie name rest)"

definition ciba_extract_cookie :: "string option \<Rightarrow> string \<Rightarrow> string option" where
  "ciba_extract_cookie header name = Option.bind header (\<lambda>text. scan_cookie name (split_on (CHR '';'') text))"

definition authorize_ciba_browser_session ::
  "authority \<Rightarrow> world \<Rightarrow> string option \<Rightarrow> backchannel_authentication_grant \<Rightarrow> string \<Rightarrow> unit act" where
  "authorize_ciba_browser_session au w cookie grant approval_user_id =
     bind_act (grant_user approval_user_id (bag_realm_id grant) ''approval user realm does not match CIBA grant'') (\<lambda>_.
     bind_act (require_some (map_of (au_realms au) (bag_realm_id grant))
         (Config (''realm '' @ [CHR 0x27] @ bag_realm_id grant @ [CHR 0x27] @ '' not found for CIBA grant''))) (\<lambda>rl.
     bind_act (require_some (ciba_extract_cookie cookie (orl_cookie_name rl))
         (Unauthorized ''authentication required: missing session cookie'')) (\<lambda>session_id.
     bind_act (repo_read (get_session session_id)) (\<lambda>found.
     bind_act (require_some found (Unauthorized ''invalid or expired session'')) (\<lambda>ses.
     bind_act (require (is_active ses (w_clock w 71)) (Unauthorized ''session is no longer active'')) (\<lambda>_.
     bind_act (require (ses_user_id ses = approval_user_id) (Unauthorized ''session user does not match approval user'')) (\<lambda>_.
     require (ses_realm_id ses = bag_realm_id grant) (Unauthorized ''session realm does not match CIBA grant''))))))))"

definition backchannel_authentication_approve ::
  "authority \<Rightarrow> world \<Rightarrow> string \<Rightarrow> string \<Rightarrow> string option \<Rightarrow> unit act" where
  "backchannel_authentication_approve au w auth_req_id user_id cookie =
     (let auth_req_id_hash = au_sha256_base64url au auth_req_id in
      bind_act (repo_read (get_backchannel_authentication_grant auth_req_id_hash)) (\<lambda>found.
      bind_act (require_some found (NotFound ''backchannel authentication grant'')) (\<lambda>grant.
      bind_act (require (bag_user_id grant = Some user_id) (Unauthorized ''approval subject does not match login_hint'')) (\<lambda>_.
      bind_act (authorize_ciba_browser_session au w cookie grant user_id) (\<lambda>_.
      repo_op (approve_backchannel_authentication_grant (w_io w 71) auth_req_id_hash user_id (w_clock w 72)))))))"

definition backchannel_authentication_context ::
  "authority \<Rightarrow> world \<Rightarrow> string \<Rightarrow> string option \<Rightarrow> (string \<times> string list \<times> string list \<times> string list) act" where
  "backchannel_authentication_context au w auth_req_id cookie =
     bind_act (repo_read (get_backchannel_authentication_grant (au_sha256_base64url au auth_req_id))) (\<lambda>found.
     bind_act (require_some found (NotFound ''backchannel authentication grant'')) (\<lambda>grant.
     bind_act (require (w_clock w 73 < bag_expires_at grant \<and> \<not> bag_consumed grant)
         (NotFound ''backchannel authentication grant'')) (\<lambda>_.
     bind_act (require_some (bag_user_id grant) (Unauthorized ''approval subject does not match login_hint'')) (\<lambda>user_id.
     bind_act (authorize_ciba_browser_session au w cookie grant user_id) (\<lambda>_.
     give (bag_client_id grant, bag_scopes grant, bag_resource grant, bag_audience grant))))))"

definition enforce_ciba_poll_interval :: "world \<Rightarrow> string \<Rightarrow> backchannel_authentication_grant \<Rightarrow> u64 \<Rightarrow> unit act" where
  "enforce_ciba_poll_interval w auth_req_id_hash grant now =
     (let early = polled_early (bag_last_poll_at grant) (bag_poll_interval_seconds grant) now;
          next_interval = (if early then sat_add (bag_poll_interval_seconds grant) 5 else bag_poll_interval_seconds grant)
      in bind_act (repo_op (record_backchannel_authentication_poll (w_io w 72) auth_req_id_hash now next_interval)) (\<lambda>_.
         require (\<not> early) (Unauthorized ''slow_down'')))"

definition ciba_claims :: "backchannel_authentication_grant \<Rightarrow> json option \<Rightarrow> token_issue_claims" where
  "ciba_claims grant cnf = default_issue_claims\<lparr>tic_cnf := cnf, tic_auth_time := bag_approved_at grant,
     tic_acr := Some ''urn:qid:acr:ciba'', tic_amr := Some [''ciba'']\<rparr>"

definition ciba_grant :: "authority \<Rightarrow> world \<Rightarrow> token_request \<Rightarrow> json option \<Rightarrow> token_response act" where
  "ciba_grant au w req cnf =
     bind_act (require_some (tr_auth_req_id req) (BadRequest ''auth_req_id required'')) (\<lambda>auth_req_id.
     let auth_req_id_hash = au_sha256_base64url au auth_req_id in
     bind_act (repo_read (get_backchannel_authentication_grant auth_req_id_hash)) (\<lambda>found.
     bind_act (require_some found (Unauthorized ''invalid auth_req_id'')) (\<lambda>grant.
     let now = w_clock w 74 in
     bind_act (require (now < bag_expires_at grant) (Unauthorized ''expired_token'')) (\<lambda>_.
     bind_act (require (\<not> bag_consumed grant) (Unauthorized ''invalid auth_req_id'')) (\<lambda>_.
     bind_act (require (tr_client_id req = Some (bag_client_id grant))
         (Unauthorized ''client_id does not match auth_req_id'')) (\<lambda>_.
     bind_act (if bag_approved_at grant = None
               then bind_act (enforce_ciba_poll_interval w auth_req_id_hash grant now)
                      (\<lambda>_. refuse (Unauthorized ''authorization_pending''))
               else give ()) (\<lambda>_.
     bind_act (require_some (bag_user_id grant) (Unauthorized ''authorization_pending'')) (\<lambda>user_id.
     bind_act (grant_user user_id (bag_realm_id grant) ''CIBA grant user realm mismatch'') (\<lambda>u.
     bind_act (config_realm au (bag_realm_id grant)) (\<lambda>rl.
     bind_act (require (oauth_feature_enabled au (bag_realm_id grant) orl_ciba_enabled) (BadRequest ''CIBA is disabled'')) (\<lambda>_.
     bind_act (oauth_realm_config au (bag_realm_id grant)) (\<lambda>realm_config.
     bind_act (lift_result (validate_grant_target realm_config req (bag_client_id grant) (bag_resource grant)
         (bag_audience grant) (bag_scopes grant) cnf)) (\<lambda>scopes.
     bind_act (repo_op (consume_backchannel_authentication_grant (w_io w 73) auth_req_id_hash)) (\<lambda>_.
     bind_act (issue_token_pair au w (orl_issuer rl) u (bag_client_id grant) (bag_realm_id grant) scopes
         ((ciba_claims grant cnf)\<lparr>tic_audience := Some (bag_audience grant), tic_resource := Some (bag_resource grant)\<rparr>)) (\<lambda>pair.
     bind_act (repo_read (get_client_by_client_id (bag_realm_id grant) (bag_client_id grant))) (\<lambda>found.
     bind_act (require_some found (NotFound (''client '' @ bag_client_id grant))) (\<lambda>c.
     bind_act (lift_result (issue_id_token au (w_clock w 23) (generate_jti w 23) (orl_issuer rl) u (bag_client_id grant)
         (bag_realm_id grant) scopes (ciba_claims grant cnf) (sub_override au c u (orl_issuer rl)))) (\<lambda>id_token.
     give \<lparr> tres_access_token = tp_access_token pair, tres_token_type = access_token_type_for_cnf cnf,
            tres_expires_in = tp_expires_in pair, tres_refresh_token = Some (tp_refresh_token pair),
            tres_id_token = Some id_token, tres_scope = Some (join_space scopes), tres_issued_token_type = None \<rparr>))))))))))))))))))"

section \<open>What a grant does to the repository\<close>

text \<open>The records a handler may bring into being, by the random readings it makes.\<close>

definition drawn :: "authority \<Rightarrow> world \<Rightarrow> issue set" where
  "drawn au w = {IssueFamily (generate_jti w 22), IssueAccessToken (generate_jti w 20), IssueAccessToken (generate_jti w 40),
     IssueDeviceGrant (au_sha256_base64url au (new_device_code w)),
     IssueBackchannelGrant (au_sha256_base64url au (''ciba_'' @ w_random w 70))}"

text \<open>
  A preorder that the operations of the grant handlers respect, apart from approvals. Records
  may be issued where \<^verbatim>\<open>fresh\<close> allows it, and a stored device or backchannel grant is not yet approved.
\<close>

locale grant_relation = repo_relation +
  fixes fresh :: "issue \<Rightarrow> bool"
  assumes rel_mark_code: "rel r (snd (mark_authorization_code_used io code r))"
    and rel_rotate: "rel r (snd (update_token_family_refresh_hash io i realm old new deadline r))"
    and rel_revoke_family: "rel r (snd (revoke_token_family io i realm r))"
    and rel_revoke_access: "rel r (snd (revoke_access_token io i realm r))"
    and rel_device_poll: "rel r (snd (record_device_authorization_poll io i t n r))"
    and rel_consume_device: "rel r (snd (consume_device_authorization_grant io i r))"
    and rel_ciba_poll: "rel r (snd (record_backchannel_authentication_poll io i t n r))"
    and rel_consume_ciba: "rel r (snd (consume_backchannel_authentication_grant io i r))"
    and rel_service_account: "rel r (snd (create_service_account io sa r))"
    and rel_user: "rel r (snd (create_user io u r))"
    and rel_family: "fresh (IssueFamily (tf_id family)) \<Longrightarrow> rel r (snd (create_token_family io family r))"
    and rel_access: "fresh (IssueAccessToken (at_jti token)) \<Longrightarrow> rel r (snd (create_access_token io token r))"
    and rel_device: "fresh (IssueDeviceGrant (dag_device_code_hash dgrant)) \<Longrightarrow> dag_user_id dgrant = None \<Longrightarrow>
      rel r (snd (store_device_authorization_grant io dgrant r))"
    and rel_ciba: "fresh (IssueBackchannelGrant (bag_auth_req_id_hash bgrant)) \<Longrightarrow> bag_approved_at bgrant = None \<Longrightarrow>
      rel r (snd (store_backchannel_authentication_grant io bgrant r))"
begin

lemmas grant_rules = acts_basic rel_mark_code [THEN acts_op] rel_rotate [THEN acts_op] rel_revoke_family [THEN acts_op]
  rel_revoke_access [THEN acts_op] rel_device_poll [THEN acts_op] rel_consume_device [THEN acts_op] rel_ciba_poll [THEN acts_op]
  rel_consume_ciba [THEN acts_op] rel_service_account [THEN acts_op] rel_user [THEN acts_op]

lemma drawn_fresh:
  assumes "drawn au w \<subseteq> {i. fresh i}"
  shows "tf_id family = generate_jti w 22 \<Longrightarrow> acts rel (repo_op (create_token_family io family))"
    "at_jti token \<in> {generate_jti w 20, generate_jti w 40} \<Longrightarrow> acts rel (repo_op (create_access_token io token))"
    "dag_device_code_hash dgrant = au_sha256_base64url au (new_device_code w) \<and> dag_user_id dgrant = None \<Longrightarrow>
       acts rel (repo_op (store_device_authorization_grant io dgrant))"
    "bag_auth_req_id_hash bgrant = au_sha256_base64url au (''ciba_'' @ w_random w 70) \<and> bag_approved_at bgrant = None \<Longrightarrow>
       acts rel (repo_op (store_backchannel_authentication_grant io bgrant))"
  using assms
  by (auto simp: drawn_def intro!: acts_op rel_family rel_access rel_device rel_ciba)

lemma acts_issue_pair:
  assumes "drawn au w \<subseteq> {i. fresh i}"
  shows "acts rel (issue_token_pair au w issuer u client_id realm_id scopes claims)"
  unfolding issue_token_pair_def Let_def
  by (intro grant_rules drawn_fresh [OF assms]) (simp_all add: issued_family_def issued_access_token_def)

lemma acts_issue_access:
  assumes "drawn au w \<subseteq> {i. fresh i}"
  shows "acts rel (issue_access_token au w issuer u client_id realm_id scopes claims)"
  unfolding issue_access_token_def Let_def
  by (intro grant_rules drawn_fresh [OF assms]) (simp_all add: issued_access_token_def)

lemma acts_lookups:
  "acts rel (grant_user user_id realm_id mismatch)" "acts rel (config_realm au realm_id)"
  "acts rel (oauth_realm_config au realm_id)"
  unfolding grant_user_def config_realm_def oauth_realm_config_def by (intro grant_rules)+

lemma acts_find_client: "acts rel (find_client_across_realms_with_messages au client_id a b)"
  unfolding find_client_across_realms_with_messages_def
  by (intro grant_rules) (auto intro!: grant_rules split: list.split)

lemma acts_service_account: "acts rel (service_account_for w realm_id client_id)"
  unfolding service_account_for_def Let_def
  by (intro grant_rules acts_bind) (auto intro!: grant_rules split: option.split sum.split qid_error.split)

lemma acts_reused: "acts rel (revoke_reused_family w family)"
  unfolding revoke_reused_family_def by (intro grant_rules)

lemma acts_consume_refresh: "acts rel (consume_refresh_token au w family c old deadline)"
  unfolding consume_refresh_token_def
  by (intro grant_rules) (auto intro!: grant_rules acts_reused split: sum.split qid_error.split)

lemmas grant_parts = grant_rules acts_lookups acts_find_client acts_service_account acts_reused acts_consume_refresh

lemma acts_code_grant:
  assumes "drawn au w \<subseteq> {i. fresh i}"
  shows "acts rel (authorization_code_grant au w req c cnf)"
  unfolding authorization_code_grant_def issue_for_code_def by (intro grant_parts acts_issue_pair assms)

lemma acts_client_credentials:
  assumes "drawn au w \<subseteq> {i. fresh i}"
  shows "acts rel (client_credentials_grant au w req c cnf)"
  unfolding client_credentials_grant_def ensure_user_def Let_def by (intro grant_parts acts_issue_access assms)

lemma acts_refresh_grant:
  assumes "drawn au w \<subseteq> {i. fresh i}"
  shows "acts rel (refresh_token_grant au w req c cnf)"
  unfolding refresh_token_grant_def reissue_def family_session_live_def dpop_binding_def Let_def
  by (intro grant_parts drawn_fresh [OF assms]) (simp add: refreshed_access_token_def)

lemma acts_device:
  assumes "drawn au w \<subseteq> {i. fresh i}"
  shows "acts rel (device_authorization au w dreq)" "acts rel (device_code_grant au w req cnf)"
  unfolding device_authorization_def device_code_grant_def poll_device_grant_def enforce_device_poll_interval_def
    find_client_across_realms_def Let_def
  by (intro grant_parts acts_issue_pair drawn_fresh [OF assms] assms; simp)+

lemma acts_ciba:
  assumes "drawn au w \<subseteq> {i. fresh i}"
  shows "acts rel (create_backchannel_authentication_grant au w breq)" "acts rel (ciba_grant au w req cnf)"
  unfolding create_backchannel_authentication_grant_def ciba_grant_def enforce_ciba_poll_interval_def Let_def
  by (intro grant_parts acts_issue_pair drawn_fresh [OF assms] assms; simp)+

lemma acts_ciba_session:
  "acts rel (authorize_ciba_browser_session au w cookie grant user)" "acts rel (backchannel_authentication_context au w i cookie)"
  unfolding backchannel_authentication_context_def authorize_ciba_browser_session_def by (intro grant_parts)+

end

text \<open>Repository steps that bring no record into being but those of a given set.\<close>

definition issues_only :: "issue set \<Rightarrow> file_repository \<Rightarrow> file_repository \<Rightarrow> bool" where
  "issues_only I r r' \<longleftrightarrow>
     (\<exists>lab. token_step lab r r' \<and> lab \<in> insert IssueNothing I) \<or> identity_step r r'"

lemma issues_token: "token_step lab r r' \<Longrightarrow> lab \<in> insert IssueNothing I \<Longrightarrow> (issues_only I)\<^sup>*\<^sup>* r r'"
  by (rule r_into_rtranclp) (auto simp: issues_only_def)

lemma issues_identity: "identity_step r r' \<Longrightarrow> (issues_only I)\<^sup>*\<^sup>* r r'"
  by (rule r_into_rtranclp) (auto simp: issues_only_def)

interpretation issuing: grant_relation "(issues_only I)\<^sup>*\<^sup>*" "\<lambda>i. i \<in> I" for I
  by unfold_locales
    (auto intro: issues_token [OF token_step.intros(5)] issues_token [OF token_step.intros(6)] issues_token [OF token_step.intros(7)]
      issues_token [OF token_step.intros(8)] issues_token [OF token_step.intros(9)] issues_token [OF token_step.intros(10)]
      issues_token [OF token_step.intros(13)] issues_token [OF token_step.intros(15)] issues_token [OF token_step.intros(16)]
      issues_token [OF token_step.intros(17)] issues_token [OF token_step.intros(19)] issues_token [OF token_step.intros(20)]
      issues_identity [OF identity_step.intros(1)] issues_identity [OF identity_step.intros(11)])

abbreviation grants_only :: "authority \<Rightarrow> world \<Rightarrow> 'a act \<Rightarrow> bool" where
  "grants_only au w \<equiv> acts (issues_only (drawn au w))\<^sup>*\<^sup>*"

lemma issues_grant:
  assumes "(issues_only I)\<^sup>*\<^sup>* r r'" "grant_issue k \<notin> insert IssueNothing I"
  shows "(grant_step k)\<^sup>*\<^sup>* r r'"
proof -
  have "issues_only I x y \<Longrightarrow> grant_step k x y" for x y
    using assms(2) repo_step.token repo_step.identity by (fastforce simp: issues_only_def grant_step_def)
  with assms(1) show ?thesis using rtranclp_mono by (metis predicate2D predicate2I)
qed

lemma acts_approvals:
  "grants_only au w (device_authorization_approve au w user_code cookie)"
  "grants_only au w (backchannel_authentication_approve au w i user cookie)"
proof -
  have ops: "grants_only au w (repo_op (approve_device_authorization_grant io i user t))"
    "grants_only au w (repo_op (approve_backchannel_authentication_grant io i user t))" for io i user t
    by (rule issuing.acts_op, rule issues_token, rule token_step.intros, simp)+
  show "grants_only au w (device_authorization_approve au w user_code cookie)"
    "grants_only au w (backchannel_authentication_approve au w i user cookie)"
    unfolding device_authorization_approve_def approve_device_authorization_def backchannel_authentication_approve_def Let_def
    by (intro issuing.grant_parts issuing.acts_ciba_session ops)+
qed

section \<open>Refreshing\<close>

abbreviation families_of :: "service \<Rightarrow> (string, token_family) hash_map" where
  "families_of s \<equiv> st_token_families (repo_store (sv_repo s))"

abbreviation access_tokens_of :: "service \<Rightarrow> (string, access_token) hash_map" where
  "access_tokens_of s \<equiv> st_access_tokens (repo_store (sv_repo s))"

lemma grant_user_Inr [simp]:
  "grant_user user_id realm_id mismatch s = (Inr u, s') \<longleftrightarrow>
     hm_get (st_users (repo_store (sv_repo s))) user_id = Some u \<and> usr_realm_id u = realm_id \<and> s' = s"
  by (auto simp: grant_user_def bind_act_Inr get_user_by_id_def map_get_def)

lemma config_realm_Inr [simp]: "config_realm au realm_id s = (Inr rl, s') \<longleftrightarrow> map_of (au_realms au) realm_id = Some rl \<and> s' = s"
  by (simp add: config_realm_def)

text \<open>The session a family was authorised in, when there is one, is still active.\<close>

definition session_holds :: "u64 \<Rightarrow> token_family \<Rightarrow> file_repository \<Rightarrow> bool" where
  "session_holds now family r \<longleftrightarrow>
     (case tf_session_id family of
        None \<Rightarrow> True
      | Some sid \<Rightarrow> (case hm_get (st_sessions (repo_store r)) sid of
            None \<Rightarrow> False
          | Some ses \<Rightarrow> ses_realm_id ses = tf_realm_id family \<and> is_active ses now))"

lemma session_holds_rotated [simp]:
  "session_holds now (family\<lparr>tf_current_refresh_hash := h, tf_refresh_expires_at := t\<rparr>) r = session_holds now family r"
  by (simp add: session_holds_def split: option.split)

lemma family_session_live_Inr [simp]:
  "family_session_live now family s = (Inr x, s') \<longleftrightarrow> session_holds now family (sv_repo s) \<and> s' = s"
  by (auto simp: family_session_live_def session_holds_def bind_act_Inr get_session_def map_get_def split: option.splits)

lemma dpop_binding_same: "dpop_binding family cnf s = (Inr x, s') \<Longrightarrow> s' = s"
  by (auto simp: dpop_binding_def bind_act_Inr Let_def split: option.splits)

lemma revoke_reused_Inr [simp]: "revoke_reused_family w family s \<noteq> (Inr x, s')"
  by (simp add: revoke_reused_family_def bind_act_Inr)

lemma consume_refresh_token_Inr:
  "consume_refresh_token au w family c old deadline s = (Inr x, s') \<longleftrightarrow>
     (\<exists>y. repo_op (update_token_family_refresh_hash (w_io w 41) (tf_id family) (cl_realm_id c) old
        (au_sha256_base64url au (generate_jti w 41)) deadline) s = (Inr y, s'))"
proof -
  obtain a s1 where op: "repo_op (update_token_family_refresh_hash (w_io w 41) (tf_id family) (cl_realm_id c) old
      (au_sha256_base64url au (generate_jti w 41)) deadline) s = (a, s1)"
    by (metis prod.exhaust)
  show ?thesis
    by (cases a) (auto simp: consume_refresh_token_def bind_act_Inr op split: qid_error.splits)
qed

lemma refresh_grant_Inr:
  assumes "refresh_token_grant au w req c cnf s = (Inr res, s')"
  obtains jti fid family u rl scopes s1 where
    "refresh_claims au (w_clock w 39) req c = Inr (jti, fid)" "hm_get (families_of s) fid = Some family"
    "tf_client_id family = cl_client_id c" "tf_realm_id family = cl_realm_id c" "\<not> tf_revoked family"
    "w_clock w 40 < refresh_deadline au family" "session_holds (w_clock w 40) family (sv_repo s)"
    "tf_current_refresh_hash family = au_sha256_base64url au jti"
    "hm_get (st_users (repo_store (sv_repo s))) (tf_user_id family) = Some u" "usr_realm_id u = tf_realm_id family"
    "map_of (au_realms au) (tf_realm_id family) = Some rl" "refresh_scopes family req = Inr scopes"
    "mtls_binding family cnf = Inr ()" "dpop_binding family cnf s = (Inr (), s)"
    "consume_refresh_token au w family c (au_sha256_base64url au jti) (refresh_deadline au family) s = (Inr (), s1)"
    "reissue au w family u (orl_issuer rl) scopes cnf (w_clock w 40) (refresh_deadline au family) s1 = (Inr res, s')"
proof -
  from assms obtain jti fid and family :: token_family and u :: user and rl :: oauth_realm and scopes s0 s1 where
    "refresh_claims au (w_clock w 39) req c = Inr (jti, fid)" "hm_get (families_of s) fid = Some family"
    "tf_client_id family = cl_client_id c" "tf_realm_id family = cl_realm_id c" "\<not> tf_revoked family"
    "w_clock w 40 < refresh_deadline au family" "session_holds (w_clock w 40) family (sv_repo s)"
    "tf_current_refresh_hash family = au_sha256_base64url au jti"
    "hm_get (st_users (repo_store (sv_repo s))) (tf_user_id family) = Some u" "usr_realm_id u = tf_realm_id family"
    "map_of (au_realms au) (tf_realm_id family) = Some rl" "refresh_scopes family req = Inr scopes"
    "mtls_binding family cnf = Inr ()" and dpop: "dpop_binding family cnf s = (Inr (), s0)" and rest:
    "consume_refresh_token au w family c (au_sha256_base64url au jti) (refresh_deadline au family) s0 = (Inr (), s1)"
    "reissue au w family u (orl_issuer rl) scopes cnf (w_clock w 40) (refresh_deadline au family) s1 = (Inr res, s')"
    unfolding refresh_token_grant_def
    by (auto simp: bind_act_Inr Let_def get_token_family_def map_get_def split: if_splits)
  moreover note dpop_binding_same [OF dpop]
  ultimately show ?thesis by (intro that) simp_all
qed

lemma try_write_OK:
  "fst (try_write io f r) = Inr a \<Longrightarrow> f (repo_store r) = Inr (repo_store (snd (try_write io f r)), a)"
  by (auto simp: try_write_def commit_def save_def flush_store_def write_store_content_def
      split: sum.splits prod.splits file_flush_mode.splits option.splits)

lemma create_access_token_Inr:
  assumes "repo_op (create_access_token io token) s = (Inr x, s')"
  shows "hm_get (access_tokens_of s) (at_jti token) = None"
    "repo_store (sv_repo s') = (repo_store (sv_repo s))\<lparr>st_access_tokens := hm_insert (at_jti token) token (access_tokens_of s)\<rparr>"
  using assms
  by (auto simp: repo_op_Inr create_access_token_def hm_contains_def dest!: try_write_OK split: if_splits)

lemma create_token_family_Inr:
  assumes "repo_op (create_token_family io family) s = (Inr x, s')"
  shows "hm_get (families_of s) (tf_id family) = None"
    "repo_store (sv_repo s') = (repo_store (sv_repo s))\<lparr>st_token_families := hm_insert (tf_id family) family (families_of s)\<rparr>"
  using assms
  by (auto simp: repo_op_Inr create_token_family_def hm_contains_def dest!: try_write_OK split: if_splits)

lemma rotation_op_Inr:
  assumes "repo_op (update_token_family_refresh_hash io i realm old new deadline) s = (Inr x, s')"
    and "hm_get (families_of s) i = Some family"
  shows "new \<noteq> old" "repo_store (sv_repo s') = (repo_store (sv_repo s))\<lparr>st_token_families := hm_insert i
      (family\<lparr>tf_current_refresh_hash := new, tf_refresh_expires_at := Some deadline\<rparr>) (families_of s)\<rparr>"
proof -
  from assms(1) obtain r u where "update_token_family_refresh_hash io i realm old new deadline (sv_repo s) = (Inr u, r)"
    "s' = s\<lparr>sv_repo := r\<rparr>"
    by (auto simp: repo_op_def split: prod.splits)
  with rotation_Inr obtain prev where
    "rotate_family i realm old new deadline (repo_store (sv_repo s)) = Inr (repo_store (sv_repo s'), prev)" by fastforce
  with assms(2) show "new \<noteq> old" "repo_store (sv_repo s') = (repo_store (sv_repo s))\<lparr>st_token_families := hm_insert i
      (family\<lparr>tf_current_refresh_hash := new, tf_refresh_expires_at := Some deadline\<rparr>) (families_of s)\<rparr>"
    by (auto simp: rotate_family_Inr)
qed

lemma refresh_scopes_Inr: "refresh_scopes family req = Inr scopes \<Longrightarrow> set scopes \<subseteq> set (tf_scopes family)"
  by (auto simp: refresh_scopes_def Let_def and_then_Inr_iff try_each_Inr within_grant_def split: if_splits option.splits)

lemma refresh_effect:
  assumes "keyed tf_id (families_of s)" "refresh_token_grant au w req c cnf s = (Inr res, s')"
    and "refresh_claims au (w_clock w 39) req c = Inr (jti, fid)" "hm_get (families_of s) fid = Some family"
  obtains u rl scopes where
    "tf_client_id family = cl_client_id c" "tf_realm_id family = cl_realm_id c" "\<not> tf_revoked family"
    "tf_current_refresh_hash family = au_sha256_base64url au jti"
    "au_sha256_base64url au (generate_jti w 41) \<noteq> au_sha256_base64url au jti"
    "w_clock w 40 < refresh_deadline au family" "session_holds (w_clock w 40) family (sv_repo s)"
    "hm_get (st_users (repo_store (sv_repo s))) (tf_user_id family) = Some u" "usr_realm_id u = tf_realm_id family"
    "map_of (au_realms au) (tf_realm_id family) = Some rl" "refresh_scopes family req = Inr scopes"
    "hm_get (access_tokens_of s) (generate_jti w 40) = None"
    "repo_store (sv_repo s') = (repo_store (sv_repo s))\<lparr>
       st_token_families := hm_insert fid (family\<lparr>tf_current_refresh_hash := au_sha256_base64url au (generate_jti w 41),
         tf_refresh_expires_at := Some (refresh_deadline au family)\<rparr>) (families_of s),
       st_access_tokens := hm_insert (generate_jti w 40)
         (refreshed_access_token au w family scopes cnf (w_clock w 40) (refresh_deadline au family)) (access_tokens_of s)\<rparr>"
    "sign_refresh_token au (w_clock w 42) (orl_issuer rl) (generate_jti w 41) u (tf_client_id family)
       (tf_realm_id family) (Some fid) (refresh_deadline au family) = Inr (the (tres_refresh_token res))"
    "tres_refresh_token res \<noteq> None" "mtls_binding family cnf = Inr ()" "dpop_binding family cnf s = (Inr (), s)"
proof -
  from assms(2) obtain jti' fid' and family' :: token_family and u :: user and rl :: oauth_realm and scopes s1 where
    claims: "refresh_claims au (w_clock w 39) req c = Inr (jti', fid')" "hm_get (families_of s) fid' = Some family'"
    and run:
    "tf_client_id family' = cl_client_id c" "tf_realm_id family' = cl_realm_id c" "\<not> tf_revoked family'"
    "w_clock w 40 < refresh_deadline au family'" "session_holds (w_clock w 40) family' (sv_repo s)"
    "tf_current_refresh_hash family' = au_sha256_base64url au jti'"
    "hm_get (st_users (repo_store (sv_repo s))) (tf_user_id family') = Some u" "usr_realm_id u = tf_realm_id family'"
    "map_of (au_realms au) (tf_realm_id family') = Some rl" "refresh_scopes family' req = Inr scopes"
    "mtls_binding family' cnf = Inr ()" "dpop_binding family' cnf s = (Inr (), s)"
    "consume_refresh_token au w family' c (au_sha256_base64url au jti') (refresh_deadline au family') s = (Inr (), s1)"
    "reissue au w family' u (orl_issuer rl) scopes cnf (w_clock w 40) (refresh_deadline au family') s1 = (Inr res, s')"
    by (rule refresh_grant_Inr)
  from claims assms(3,4) have same: "jti' = jti" "fid' = fid" "family' = family" by simp_all
  note run = run [unfolded same]
  from assms(1,4) have key: "tf_id family = fid" by (auto simp: keyed_def)
  from run(13) obtain y where "repo_op (update_token_family_refresh_hash (w_io w 41) fid (cl_realm_id c)
      (au_sha256_base64url au jti) (au_sha256_base64url au (generate_jti w 41)) (refresh_deadline au family)) s = (Inr y, s1)"
    by (auto simp: consume_refresh_token_Inr key)
  note rotated = rotation_op_Inr [OF this assms(4)]
  define token where "token = refreshed_access_token au w family scopes cnf (w_clock w 40) (refresh_deadline au family)"
  have jti: "at_jti token = generate_jti w 40" by (simp add: token_def refreshed_access_token_def)
  from run(14) obtain x where "repo_op (create_access_token (w_io w 42) token) s1 = (Inr x, s')"
    by (auto simp: reissue_def bind_act_Inr token_def)
  note made = create_access_token_Inr [OF this, unfolded jti]
  from run(14) have signed: "sign_refresh_token au (w_clock w 42) (orl_issuer rl) (generate_jti w 41) u (tf_client_id family)
       (tf_realm_id family) (Some fid) (refresh_deadline au family) = Inr (the (tres_refresh_token res))"
    "tres_refresh_token res \<noteq> None"
    by (auto simp: reissue_def bind_act_Inr key)
  from made(1) rotated(2) have unused: "hm_get (access_tokens_of s) (generate_jti w 40) = None" by simp
  show ?thesis
    by (rule that [OF run(1-3,6) rotated(1) run(4,5,7-10) unused _ signed run(11,12)])
       (simp add: made(2) rotated(2) token_def)
qed

text \<open>
  C5. A refresh stays inside what was granted. It succeeds only for the client and realm the
  family was issued to, with the family's current token, before the family's deadline and while
  the originating session is active. It replaces the stored token hash, keeps the deadline, and
  adds one access token of that family, with scopes of the family and no later expiry than the
  family has.
\<close>

theorem refresh_within_grant:
  assumes "keyed tf_id (families_of s)" "refresh_token_grant au w req c cnf s = (Inr res, s')"
  shows "\<exists>jti fid family token. refresh_claims au (w_clock w 39) req c = Inr (jti, fid) \<and>
    hm_get (families_of s) fid = Some family \<and> tf_client_id family = cl_client_id c \<and>
    tf_realm_id family = cl_realm_id c \<and> \<not> tf_revoked family \<and>
    tf_current_refresh_hash family = au_sha256_base64url au jti \<and>
    w_clock w 40 < refresh_deadline au family \<and> session_holds (w_clock w 40) family (sv_repo s) \<and>
    families_of s' = hm_insert fid (family\<lparr>tf_current_refresh_hash := au_sha256_base64url au (generate_jti w 41),
        tf_refresh_expires_at := Some (refresh_deadline au family)\<rparr>) (families_of s) \<and>
    hm_get (access_tokens_of s) (at_jti token) = None \<and>
    access_tokens_of s' = hm_insert (at_jti token) token (access_tokens_of s) \<and>
    at_family_id token = Some fid \<and> at_user_id token = tf_user_id family \<and> at_client_id token = tf_client_id family \<and>
    at_audience token = family_audience family \<and> set (at_scopes token) \<subseteq> set (tf_scopes family) \<and>
    at_expires_at token \<le> refresh_deadline au family"
proof -
  from assms(2) obtain jti fid and family :: token_family where
    claims: "refresh_claims au (w_clock w 39) req c = Inr (jti, fid)" and family: "hm_get (families_of s) fid = Some family"
    by (auto elim!: refresh_grant_Inr)
  obtain scopes where facts:
    "tf_client_id family = cl_client_id c" "tf_realm_id family = cl_realm_id c" "\<not> tf_revoked family"
    "tf_current_refresh_hash family = au_sha256_base64url au jti"
    "w_clock w 40 < refresh_deadline au family" "session_holds (w_clock w 40) family (sv_repo s)"
    "refresh_scopes family req = Inr scopes" "hm_get (access_tokens_of s) (generate_jti w 40) = None"
    "repo_store (sv_repo s') = (repo_store (sv_repo s))\<lparr>
       st_token_families := hm_insert fid (family\<lparr>tf_current_refresh_hash := au_sha256_base64url au (generate_jti w 41),
         tf_refresh_expires_at := Some (refresh_deadline au family)\<rparr>) (families_of s),
       st_access_tokens := hm_insert (generate_jti w 40)
         (refreshed_access_token au w family scopes cnf (w_clock w 40) (refresh_deadline au family)) (access_tokens_of s)\<rparr>"
    by (rule refresh_effect [OF assms claims family])
  moreover from assms(1) family have "tf_id family = fid" by (auto simp: keyed_def)
  ultimately show ?thesis using claims family refresh_scopes_Inr [OF facts(7)]
    by (intro exI [of _ jti] exI [of _ fid] exI [of _ family]
        exI [of _ "refreshed_access_token au w family scopes cnf (w_clock w 40) (refresh_deadline au family)"])
       (simp add: refreshed_access_token_def)
qed

lemma issues_wf:
  assumes "(issues_only I)\<^sup>*\<^sup>* r r'" "repo_wf r"
  shows "repo_wf r'"
  using assms
proof (induction rule: rtranclp_induct)
  case (step y z)
  hence "\<exists>lab. repo_step lab y z" unfolding issues_only_def using repo_step.token repo_step.identity by blast
  with step repo_step_wf show ?case by blast
qed

lemma drawn_self: "drawn au w \<subseteq> {i. i \<in> drawn au w}"
  by simp

lemma grants_only_wf: "grants_only au w m \<Longrightarrow> m s = (x, s') \<Longrightarrow> repo_wf (sv_repo s) \<Longrightarrow> repo_wf (sv_repo s')"
  using issues_wf by (metis acts_def snd_conv)

lemma refresh_dead_family:
  assumes "refresh_claims au (w_clock w 39) req c = Inr (jti, fid)" "\<not> grant_live (FamilyGrant fid) (sv_repo s)"
  shows "\<exists>e. refresh_token_grant au w req c cnf s = (Inl e, s)"
  using assms
  by (auto simp: refresh_token_grant_def lift_result_def repo_read_def get_token_family_def map_get_def bind_act_def
      require_some_def require_def give_def refuse_def split: option.splits)

lemma refresh_ended_session:
  assumes "refresh_claims au (w_clock w 39) req c = Inr (jti, fid)" "hm_get (families_of s) fid = Some family"
    and "\<not> session_holds (w_clock w 40) family (sv_repo s)"
  shows "\<exists>e. refresh_token_grant au w req c cnf s = (Inl e, s)"
proof -
  have "\<exists>e. family_session_live (w_clock w 40) family s = (Inl e, s)"
    using assms(3)
    by (auto simp: family_session_live_def session_holds_def repo_read_def get_session_def map_get_def bind_act_def
        require_def give_def refuse_def split: option.splits)
  with assms(1,2) show ?thesis
    by (auto simp: refresh_token_grant_def lift_result_def repo_read_def get_token_family_def map_get_def bind_act_def
        require_some_def require_def give_def refuse_def Let_def split: option.splits)
qed

text \<open>A refresh that presents a token of a live family other than the current one.\<close>

lemma refresh_stale:
  assumes "refresh_claims au (w_clock w 39) req c = Inr (jti, fid)" "hm_get (families_of s) fid = Some family"
    and "tf_id family = fid" "tf_client_id family = cl_client_id c" "tf_realm_id family = cl_realm_id c" "\<not> tf_revoked family"
    and "w_clock w 40 < refresh_deadline au family" "session_holds (w_clock w 40) family (sv_repo s)"
    and "tf_current_refresh_hash family \<noteq> au_sha256_base64url au jti"
  shows "fst (refresh_token_grant au w req c cnf s) = Inl (Unauthorized ''invalid refresh token'')"
    "sv_repo (snd (refresh_token_grant au w req c cnf s)) = revoke_grant (w_io w 40) (cl_realm_id c) (FamilyGrant fid) (sv_repo s)"
proof -
  have "family_session_live (w_clock w 40) family s = (Inr (), s)" using assms(8) by simp
  hence "refresh_token_grant au w req c cnf s = revoke_reused_family w family s"
    using assms
    by (simp add: refresh_token_grant_def lift_result_def repo_read_def get_token_family_def map_get_def bind_act_def
        require_some_def require_def give_def Let_def del: family_session_live_Inr)
  thus "fst (refresh_token_grant au w req c cnf s) = Inl (Unauthorized ''invalid refresh token'')"
    "sv_repo (snd (refresh_token_grant au w req c cnf s)) = revoke_grant (w_io w 40) (cl_realm_id c) (FamilyGrant fid) (sv_repo s)"
    using assms(3,5)
    by (simp_all add: revoke_reused_family_def bind_act_def ignore_failure_def refuse_def repo_op_def split: prod.split)
qed

text \<open>
  C9. A refresh token that was used and turns up again costs the whole family. Once a refresh
  has succeeded, presenting the same token again, while the family would still be usable, is
  refused and revokes the family. After that every refresh with any token of the family is
  refused and changes nothing, whatever repository operations come in between, short of issuing
  a new family under the same identifier.
\<close>

theorem refresh_replay_contained:
  assumes "repo_wf (sv_repo s)" "keyed tf_id (families_of s)"
    and "refresh_claims au (w_clock w 39) req c = Inr (jti, fid)" "hm_get (families_of s) fid = Some family"
    and "refresh_token_grant au w req c cnf s = (Inr res, s1)"
    and "refresh_claims au (w_clock w' 39) req' c = Inr (jti, fid)"
    and "w_clock w' 40 < refresh_deadline au family" "session_holds (w_clock w' 40) family (sv_repo s1)"
    and "refresh_token_grant au w' req' c cnf' s1 = (replay, s2)"
    and "(grant_step (FamilyGrant fid))\<^sup>*\<^sup>* (sv_repo s2) (sv_repo s3)"
    and "refresh_claims au (w_clock w3 39) req3 c3 = Inr (jti3, fid)"
  shows "replay = Inl (Unauthorized ''invalid refresh token'') \<and>
    (\<exists>e. refresh_token_grant au w3 req3 c3 cnf3 s3 = (Inl e, s3))"
proof -
  let ?f = "family\<lparr>tf_current_refresh_hash := au_sha256_base64url au (generate_jti w 41),
      tf_refresh_expires_at := Some (refresh_deadline au family)\<rparr>"
  have owner: "tf_client_id family = cl_client_id c" "tf_realm_id family = cl_realm_id c" "\<not> tf_revoked family"
    and changed: "au_sha256_base64url au (generate_jti w 41) \<noteq> au_sha256_base64url au jti"
    and stored: "hm_get (families_of s1) fid = Some ?f"
    by (rule refresh_effect [OF assms(2,5,3,4)]; simp add: update_conv')+
  from assms(2,4) have key: "tf_id family = fid" by (auto simp: keyed_def)
  have holds: "session_holds (w_clock w' 40) ?f (sv_repo s1)" using assms(8) by simp
  have deadline: "w_clock w' 40 < refresh_deadline au ?f" using assms(7) by (simp add: refresh_deadline_def)
  from refresh_stale [OF assms(6) stored _ _ _ _ deadline holds, where cnf = cnf'] assms(9) key owner changed
  have replay: "replay = Inl (Unauthorized ''invalid refresh token'')"
    and s2: "sv_repo s2 = revoke_grant (w_io w' 40) (cl_realm_id c) (FamilyGrant fid) (sv_repo s1)" by simp_all
  have "grant_in_realm (cl_realm_id c) (FamilyGrant fid) (sv_repo s1)" using stored owner by simp
  from revoke_grant_dead [OF this] s2 have dead: "\<not> grant_live (FamilyGrant fid) (sv_repo s2)" by simp
  have "repo_wf (sv_repo s1)" using grants_only_wf [OF issuing.acts_refresh_grant [OF drawn_self] assms(5,1)] .
  with grants_only_wf [OF issuing.acts_refresh_grant [OF drawn_self] assms(9)] have "repo_wf (sv_repo s2)" by blast
  from grant_steps_dead [OF assms(10) this dead] have "\<not> grant_live (FamilyGrant fid) (sv_repo s3)" by blast
  with refresh_dead_family [OF assms(11)] replay show ?thesis by blast
qed

text \<open>
  C10. Logging out ends every refresh token of the session. Once \<^const>\<open>session_revoke\<close> has answered
  200 for a session, a family that was authorised in it is never refreshed again, whatever
  repository operations come in between, short of creating a session under the same identifier.
\<close>

theorem logout_ends_refresh:
  assumes "repo_wf (sv_repo s)"
    and "hm_get (dp_realms d) realm = Some rt" "extract_cookie cookie (rt_cookie_name rt) = Some sid"
    and "session_revoke w d realm cookie s = (Inr 200, s1)"
    and "(grant_step (SessionGrant sid))\<^sup>*\<^sup>* (sv_repo s1) (sv_repo s2)"
    and "refresh_claims au (w_clock w' 39) req c = Inr (jti, fid)" "hm_get (families_of s2) fid = Some family"
    and "tf_session_id family = Some sid"
  shows "\<exists>e. refresh_token_grant au w' req c cnf s2 = (Inl e, s2)"
proof -
  note revoked = session_revoke_dead [OF assms(4,2,3)]
  have "repo_wf (sv_repo s1)" unfolding revoked(1) using revoke_grant_step repo_step_wf assms(1) by blast
  from grant_steps_dead [OF assms(5) this revoked(2)] have "\<not> grant_live (SessionGrant sid) (sv_repo s2)" by blast
  with assms(8) have "\<not> session_holds (w_clock w' 40) family (sv_repo s2)"
    by (auto simp: session_holds_def is_active_def split: option.splits)
  with refresh_ended_session [OF assms(6,7)] show ?thesis by blast
qed

lemma rotation_op_ok:
  assumes "hm_get (families_of s) i = Some family" "tf_realm_id family = realm" "\<not> tf_revoked family"
    and "tf_current_refresh_hash family = old" "new \<noteq> old"
  shows "fst (update_token_family_refresh_hash None i realm old new deadline (sv_repo s)) = Inr ()"
  using assms
  by (simp add: update_token_family_refresh_hash_def rotate_family_def opt_filter_def validate_token_family_rotation_def
      save_def flush_store_def write_store_content_def Let_def split: file_flush_mode.split)

lemma refresh_claims_issued:
  assumes "au_decode au now token = Inr claims" "tr_refresh_token req = Some token"
    and "jc_aud claims = Some (Single (cl_client_id c))" "jc_jti claims = Some jti"
    and "jc_extra claims = [(''family_id'', JString fid)]"
  shows "refresh_claims au now req c = Inr (jti, fid)"
  using assms by (simp add: refresh_claims_def ok_or_def)

lemma refresh_succeeds:
  assumes "refresh_claims au (w_clock w 39) req c = Inr (jti, fid)" "hm_get (families_of s) fid = Some family"
    and "tf_id family = fid" "tf_client_id family = cl_client_id c" "tf_realm_id family = cl_realm_id c" "\<not> tf_revoked family"
    and "w_clock w 40 < refresh_deadline au family" "session_holds (w_clock w 40) family (sv_repo s)"
    and "tf_current_refresh_hash family = au_sha256_base64url au jti"
    and "hm_get (st_users (repo_store (sv_repo s))) (tf_user_id family) = Some u" "usr_realm_id u = tf_realm_id family"
    and "map_of (au_realms au) (tf_realm_id family) = Some rl" "refresh_scopes family req = Inr scopes"
    and "mtls_binding family cnf = Inr ()" "dpop_binding family cnf s = (Inr (), s)"
    and "au_sha256_base64url au (generate_jti w 41) \<noteq> au_sha256_base64url au jti"
    and "hm_get (access_tokens_of s) (generate_jti w 40) = None" "w_io w 41 = None" "w_io w 42 = None"
    and "format_access_token au (w_clock w 41) (orl_issuer rl) (generate_jti w 40) u (tf_client_id family) (tf_realm_id family)
       scopes (family_issue_claims family cnf (refresh_deadline au family)) = Inr access"
    and "sign_refresh_token au (w_clock w 42) (orl_issuer rl) (generate_jti w 41) u (tf_client_id family) (tf_realm_id family)
       (Some fid) (refresh_deadline au family) = Inr refresh"
  shows "\<exists>res s'. refresh_token_grant au w req c cnf s = (Inr res, s') \<and>
    tres_refresh_token res = Some refresh \<and> tres_scope res = Some (join_space scopes)"
proof -
  let ?d = "refresh_deadline au family" and ?h = "au_sha256_base64url au jti"
  define s1 where "s1 = s\<lparr>sv_repo := snd (update_token_family_refresh_hash None fid (cl_realm_id c) ?h
      (au_sha256_base64url au (generate_jti w 41)) ?d (sv_repo s))\<rparr>"
  define token where "token = refreshed_access_token au w family scopes cnf (w_clock w 40) ?d"
  have rot: "repo_op (update_token_family_refresh_hash None fid (cl_realm_id c) ?h
      (au_sha256_base64url au (generate_jti w 41)) ?d) s = (Inr (), s1)"
    using rotation_op_ok [of s fid family "cl_realm_id c" ?h "au_sha256_base64url au (generate_jti w 41)" ?d] assms
    by (simp add: repo_op_Inr s1_def)
  hence consumed: "consume_refresh_token au w family c ?h ?d s = (Inr (), s1)"
    using assms by (simp add: consume_refresh_token_Inr)
  from rotation_op_Inr(2) [OF rot assms(2)] assms(17) have "hm_get (access_tokens_of s1) (at_jti token) = None"
    by (simp add: token_def refreshed_access_token_def)
  hence "fst (create_access_token None token (sv_repo s1)) = Inr ()"
    unfolding create_access_token_def by (intro conjunct1 [OF try_write_Inr]) (simp add: hm_contains_def)
  hence "repo_op (create_access_token None token) s1 = (Inr (), s1\<lparr>sv_repo := snd (create_access_token None token (sv_repo s1))\<rparr>)"
    by (simp add: repo_op_Inr)
  hence "\<exists>res s'. reissue au w family u (orl_issuer rl) scopes cnf (w_clock w 40) ?d s1 = (Inr res, s') \<and>
      tres_refresh_token res = Some refresh \<and> tres_scope res = Some (join_space scopes)"
    using assms by (auto simp: reissue_def bind_act_Inr token_def)
  then obtain res s' where out: "reissue au w family u (orl_issuer rl) scopes cnf (w_clock w 40) ?d s1 = (Inr res, s')"
    "tres_refresh_token res = Some refresh" "tres_scope res = Some (join_space scopes)" by blast
  have "family_session_live (w_clock w 40) family s = (Inr (), s)"
    "grant_user (tf_user_id family) (tf_realm_id family) ''refresh token user realm mismatch'' s = (Inr u, s)"
    "config_realm au (tf_realm_id family) s = (Inr rl, s)"
    using assms by simp_all
  hence "refresh_token_grant au w req c cnf s = reissue au w family u (orl_issuer rl) scopes cnf (w_clock w 40) ?d s1"
    using assms consumed
    by (simp add: refresh_token_grant_def lift_result_def repo_read_def get_token_family_def map_get_def bind_act_def
        require_some_def require_def give_def Let_def del: family_session_live_Inr grant_user_Inr config_realm_Inr)
  with out show ?thesis by auto
qed

lemma dpop_binding_keeps:
  assumes "dpop_binding family cnf s = (Inr (), s)" "st_clients (repo_store (sv_repo s1)) = st_clients (repo_store (sv_repo s))"
  shows "dpop_binding (family\<lparr>tf_current_refresh_hash := h, tf_refresh_expires_at := t\<rparr>) cnf s1 = (Inr (), s1)"
  using assms by (auto simp: dpop_binding_def bind_act_Inr get_client_by_client_id_def Let_def give_def split: option.splits)

text \<open>What \<^verbatim>\<open>decode_signature_only\<close> documents: a token the signer made is decoded to its claims until it expires.\<close>

definition decodes_own :: "authority \<Rightarrow> bool" where
  "decodes_own au \<longleftrightarrow>
     (\<forall>cl t e now. au_sign au cl = Inr t \<longrightarrow> jc_exp cl = Some e \<longrightarrow> now \<le> e \<longrightarrow> au_decode au now t = Inr cl)"

text \<open>
  C36. The refresh token a refresh returns works. Presented by the same client before it expires,
  with the same sender proof and while the session holds, it is accepted for the full scope of
  the family, provided the signer decodes what it signed until it expires, the repository can be
  written, and the two random identifiers are new. A client that refreshes in time is never
  locked out of its grant.
\<close>

theorem refreshed_token_refreshes:
  assumes signer: "decodes_own au"
    and first: "keyed tf_id (families_of s)" "refresh_token_grant au w req c cnf s = (Inr res, s1)"
    "refresh_claims au (w_clock w 39) req c = Inr (jti, fid)" "hm_get (families_of s) fid = Some family"
    and second: "tr_refresh_token req' = tres_refresh_token res" "tr_scope req' = None"
    "w_clock w' 39 \<le> sat_add (w_clock w 42) (ttl_refresh_token_ttl_seconds (token_ttl au (tf_realm_id family)))"
    "w_clock w' 39 \<le> refresh_deadline au family" "w_clock w' 40 < refresh_deadline au family"
    "session_holds (w_clock w' 40) family (sv_repo s1)"
    and fresh: "au_sha256_base64url au (generate_jti w' 41) \<noteq> au_sha256_base64url au (generate_jti w 41)"
    "hm_get (access_tokens_of s1) (generate_jti w' 40) = None" "w_io w' 41 = None" "w_io w' 42 = None"
    and signs: "hm_get (st_users (repo_store (sv_repo s))) (tf_user_id family) = Some u"
    "map_of (au_realms au) (tf_realm_id family) = Some rl"
    "format_access_token au (w_clock w' 41) (orl_issuer rl) (generate_jti w' 40) u (tf_client_id family) (tf_realm_id family)
       (tf_scopes family) (family_issue_claims family cnf (refresh_deadline au family)) = Inr access"
    "sign_refresh_token au (w_clock w' 42) (orl_issuer rl) (generate_jti w' 41) u (tf_client_id family) (tf_realm_id family)
       (Some fid) (refresh_deadline au family) = Inr refresh"
  shows "\<exists>res' s2. refresh_token_grant au w' req' c cnf s1 = (Inr res', s2) \<and>
    tres_refresh_token res' = Some refresh \<and> tres_scope res' = Some (join_space (tf_scopes family))"
proof -
  let ?f = "family\<lparr>tf_current_refresh_hash := au_sha256_base64url au (generate_jti w 41),
      tf_refresh_expires_at := Some (refresh_deadline au family)\<rparr>"
  obtain u' :: user and rl' :: oauth_realm and scopes where run:
    "tf_client_id family = cl_client_id c" "tf_realm_id family = cl_realm_id c" "\<not> tf_revoked family"
    "hm_get (st_users (repo_store (sv_repo s))) (tf_user_id family) = Some u'" "usr_realm_id u' = tf_realm_id family"
    "map_of (au_realms au) (tf_realm_id family) = Some rl'" "refresh_scopes family req = Inr scopes"
    "repo_store (sv_repo s1) = (repo_store (sv_repo s))\<lparr>
       st_token_families := hm_insert fid ?f (families_of s),
       st_access_tokens := hm_insert (generate_jti w 40)
         (refreshed_access_token au w family scopes cnf (w_clock w 40) (refresh_deadline au family)) (access_tokens_of s)\<rparr>"
    "sign_refresh_token au (w_clock w 42) (orl_issuer rl') (generate_jti w 41) u' (tf_client_id family)
       (tf_realm_id family) (Some fid) (refresh_deadline au family) = Inr (the (tres_refresh_token res))"
    "tres_refresh_token res \<noteq> None" "mtls_binding family cnf = Inr ()" "dpop_binding family cnf s = (Inr (), s)"
    by (rule refresh_effect [OF first])
  from run(4,6) signs(1,2) have same: "u' = u" "rl' = rl" by simp_all
  from first(1,4) have key: "tf_id family = fid" by (auto simp: keyed_def)
  from run(10) obtain token where token: "tres_refresh_token res = Some token" by blast
  from run(9) token obtain cl where signed: "au_sign au cl = Inr token" and cl:
    "jc_exp cl = Some (min (sat_add (w_clock w 42) (ttl_refresh_token_ttl_seconds (token_ttl au (tf_realm_id family))))
       (refresh_deadline au family))"
    "jc_aud cl = Some (Single (cl_client_id c))" "jc_jti cl = Some (generate_jti w 41)"
    "jc_extra cl = [(''family_id'', JString fid)]"
    by (fastforce simp: sign_refresh_token_def sign_claims_def insert_some_def run(1) split: sum.splits)
  have "au_decode au (w_clock w' 39) token = Inr cl" using signer signed cl(1) second(3,4) by (simp add: decodes_own_def)
  from refresh_claims_issued [OF this _ cl(2-4)] second(1) token
  have claims: "refresh_claims au (w_clock w' 39) req' c = Inr (generate_jti w 41, fid)" by simp
  have "refresh_scopes ?f req' = Inr (tf_scopes ?f)" using run(7) second(2) by (auto simp: refresh_scopes_def split: if_splits)
  moreover have "mtls_binding ?f cnf = Inr ()" "refresh_deadline au ?f = refresh_deadline au family"
    "family_issue_claims ?f cnf t = family_issue_claims family cnf t" for t
    using run(11) by (simp_all add: mtls_binding_def refresh_deadline_def family_issue_claims_def family_audience_def)
  ultimately show ?thesis
    using refresh_succeeds [OF claims, of s1 ?f u rl "tf_scopes family" cnf access refresh] run(1-3,5,8) key second(5,6)
      fresh signs dpop_binding_keeps [OF run(12)]
    by (simp add: same update_conv')
qed

section \<open>Exchanging codes and approvals\<close>

lemma issue_token_pair_Inr:
  assumes "issue_token_pair au w issuer u client_id realm_id scopes claims s = (Inr pair, s')"
  shows "\<exists>token. at_scopes token = scopes \<and> at_family_id token = Some (generate_jti w 22) \<and>
    hm_get (families_of s) (generate_jti w 22) = None \<and> hm_get (access_tokens_of s) (generate_jti w 20) = None \<and>
    repo_store (sv_repo s') = (repo_store (sv_repo s))\<lparr>
      st_token_families := hm_insert (generate_jti w 22) (issued_family au w u client_id realm_id scopes claims) (families_of s),
      st_access_tokens := hm_insert (generate_jti w 20) token (access_tokens_of s)\<rparr>"
proof -
  define family where "family = issued_family au w u client_id realm_id scopes claims"
  have key: "tf_id family = generate_jti w 22" by (simp add: family_def issued_family_def)
  from assms obtain x y s1 token where
    made: "repo_op (create_token_family (w_io w 20) family) s = (Inr x, s1)"
      "repo_op (create_access_token (w_io w 21) token) s1 = (Inr y, s')"
    and token: "at_jti token = generate_jti w 20" "at_scopes token = scopes" "at_family_id token = Some (generate_jti w 22)"
    by (auto simp: issue_token_pair_def bind_act_Inr Let_def family_def issued_access_token_def issued_family_def)
  note stores = create_token_family_Inr [OF made(1), unfolded key] create_access_token_Inr [OF made(2), unfolded token(1)]
  show ?thesis by (rule exI [of _ token]) (use stores token in \<open>simp add: family_def\<close>)
qed

text \<open>What a client presents to the token endpoint, and the ticket it names.\<close>

datatype exchange_kind = ByCode | ByDevice | ByCiba

fun exchange :: "exchange_kind \<Rightarrow> authority \<Rightarrow> world \<Rightarrow> token_request \<Rightarrow> client \<Rightarrow> json option \<Rightarrow> token_response act" where
  "exchange ByCode au w req c cnf = authorization_code_grant au w req c cnf"
| "exchange ByDevice au w req c cnf = device_code_grant au w req cnf"
| "exchange ByCiba au w req c cnf = ciba_grant au w req cnf"

fun presents :: "exchange_kind \<Rightarrow> authority \<Rightarrow> token_request \<Rightarrow> ticket option" where
  "presents ByCode au req = map_option (\<lambda>t. CodeTicket (au_sha256_base64url au t)) (tr_code req)"
| "presents ByDevice au req = map_option (\<lambda>t. DeviceTicket (au_sha256_base64url au t)) (tr_device_code req)"
| "presents ByCiba au req = map_option (\<lambda>t. BackchannelTicket (au_sha256_base64url au t)) (tr_auth_req_id req)"

lemma closed_ticket_refused:
  assumes "presents k au req = Some t" "\<not> ticket_open t (sv_repo s)"
  shows "\<exists>e. exchange k au w req c cnf s = (Inl e, s)"
proof (cases k)
  case ByCode
  with assms show ?thesis
    by (auto simp: authorization_code_grant_def bind_act_def require_some_def require_def give_def refuse_def repo_read_def
        get_authorization_code_def map_get_def code_matches_def split: option.splits)
next
  case ByDevice
  with assms show ?thesis
    by (auto simp: device_code_grant_def bind_act_def require_some_def require_def give_def refuse_def repo_read_def
        get_device_authorization_grant_def map_get_def Let_def split: option.splits)
next
  case ByCiba
  with assms show ?thesis
    by (auto simp: ciba_grant_def bind_act_def require_some_def require_def give_def refuse_def repo_read_def
        get_backchannel_authentication_grant_def map_get_def Let_def split: option.splits)
qed

text \<open>The issued family, as the tables of the repository show it.\<close>

definition issues_family :: "world \<Rightarrow> token_family \<Rightarrow> service \<Rightarrow> service \<Rightarrow> bool" where
  "issues_family w family s s' \<longleftrightarrow> hm_get (families_of s) (generate_jti w 22) = None \<and>
     families_of s' = hm_insert (generate_jti w 22) family (families_of s)"

lemma redeem_keeps:
  "st_token_families (repo_store (snd (mark_authorization_code_used io code r))) = st_token_families (repo_store r)"
  "st_users (repo_store (snd (mark_authorization_code_used io code r))) = st_users (repo_store r)"
  "st_token_families (repo_store (snd (consume_device_authorization_grant io h r))) = st_token_families (repo_store r)"
  "st_token_families (repo_store (snd (consume_backchannel_authentication_grant io h r))) = st_token_families (repo_store r)"
  unfolding mark_authorization_code_used_def consume_device_authorization_grant_def consume_backchannel_authentication_grant_def
  by (rule try_write_relates [where rel = "\<lambda>a b. st_token_families b = st_token_families a"]
      try_write_relates [where rel = "\<lambda>a b. st_users b = st_users a"];
      auto simp: and_then_Inr_iff split: if_splits)+

lemma code_exchange:
  assumes "keyed code_code_hash (st_authorization_codes (repo_store (sv_repo s)))"
    and "authorization_code_grant au w req c cnf s = (Inr res, s')"
  obtains plain redirect_uri code auds u where "tr_code req = Some plain" "tr_redirect_uri req = Some redirect_uri"
    "hm_get (st_authorization_codes (repo_store (sv_repo s))) (au_sha256_base64url au plain) = Some code"
    "code_matches code (w_clock w 50) redirect_uri c"
    "verify_code_verifier au (code_code_challenge code) (code_code_challenge_method code)
       (case tr_code_verifier req of None \<Rightarrow> [] | Some v \<Rightarrow> v)"
    "hm_get (st_users (repo_store (sv_repo s))) (code_user_id code) = Some u"
    "issues_family w (issued_family au w u (code_client_id code) (code_realm_id code) (code_scopes code)
       (code_issue_claims code plain cnf auds)) s s'"
    "\<not> ticket_open (CodeTicket (au_sha256_base64url au plain)) (sv_repo s')"
proof -
  from assms(2) obtain plain redirect_uri code x s1 where
    pre: "tr_code req = Some plain" "tr_redirect_uri req = Some redirect_uri"
      "hm_get (st_authorization_codes (repo_store (sv_repo s))) (au_sha256_base64url au plain) = Some code"
      "code_matches code (w_clock w 50) redirect_uri c"
      "verify_code_verifier au (code_code_challenge code) (code_code_challenge_method code)
         (case tr_code_verifier req of None \<Rightarrow> [] | Some v \<Rightarrow> v)"
    and mark: "repo_op (mark_authorization_code_used (w_io w 50) code) s = (Inr x, s1)"
    and issue: "issue_for_code au w code plain c cnf s1 = (Inr res, s')"
    unfolding authorization_code_grant_def
    by (auto simp: bind_act_Inr get_authorization_code_def map_get_def)
  from assms(1) pre(3) have key: "code_code_hash code = au_sha256_base64url au plain" by (auto simp: keyed_def)
  from mark have "fst (redeem_ticket (RedeemCode (w_io w 50) code) (sv_repo s))"
    "sv_repo s1 = snd (redeem_ticket (RedeemCode (w_io w 50) code) (sv_repo s))"
    by (auto simp: repo_op_Inr is_ok_def)
  with redeem_ticket_spends key have closed: "\<not> ticket_open (CodeTicket (au_sha256_base64url au plain)) (sv_repo s1)"
    by (metis ticket_of.simps(1))
  have kept: "families_of s1 = families_of s" "st_users (repo_store (sv_repo s1)) = st_users (repo_store (sv_repo s))"
    using mark by (simp_all add: repo_op_Inr redeem_keeps)
  from issue obtain u :: user and rl :: oauth_realm and auds pair where
    user: "hm_get (st_users (repo_store (sv_repo s1))) (code_user_id code) = Some u"
    and pair: "issue_token_pair au w (orl_issuer rl) u (code_client_id code) (code_realm_id code) (code_scopes code)
       (code_issue_claims code plain cnf auds) s1 = (Inr pair, s')"
    unfolding issue_for_code_def by (auto simp: bind_act_Inr)
  from issue_token_pair_Inr [OF pair] closed kept
  have "issues_family w (issued_family au w u (code_client_id code) (code_realm_id code) (code_scopes code)
       (code_issue_claims code plain cnf auds)) s s'" "\<not> ticket_open (CodeTicket (au_sha256_base64url au plain)) (sv_repo s')"
    by (auto simp: issues_family_def)
  with that [OF pre] user kept show ?thesis by simp
qed

lemma validate_grant_target_Inr:
  "validate_grant_target rl req client_id resource auds granted cnf = Inr scopes \<Longrightarrow> set scopes \<subseteq> set granted"
  by (auto simp: validate_grant_target_def Let_def and_then_Inr_iff list_ex_iff split: if_splits)

lemma poll_device_grant_Inr: "poll_device_grant w h grant now s = (Inr user_id, s') \<longleftrightarrow> dag_user_id grant = Some user_id \<and> s' = s"
  by (auto simp: poll_device_grant_def bind_act_Inr split: option.splits)

lemma consume_device_kept:
  assumes "repo_op (consume_device_authorization_grant io h) s = (Inr x, s')"
  shows "\<not> ticket_open (DeviceTicket h) (sv_repo s')" "families_of s' = families_of s"
proof -
  from assms have "fst (redeem_ticket (RedeemDevice io h) (sv_repo s))" "sv_repo s' = snd (redeem_ticket (RedeemDevice io h) (sv_repo s))"
    by (auto simp: repo_op_Inr is_ok_def)
  thus "\<not> ticket_open (DeviceTicket h) (sv_repo s')" using redeem_ticket_spends by (metis ticket_of.simps(3))
  show "families_of s' = families_of s" using assms by (simp add: repo_op_Inr redeem_keeps)
qed

lemma consume_backchannel_kept:
  assumes "repo_op (consume_backchannel_authentication_grant io h) s = (Inr x, s')"
  shows "\<not> ticket_open (BackchannelTicket h) (sv_repo s')" "families_of s' = families_of s"
proof -
  from assms have "fst (redeem_ticket (RedeemBackchannel io h) (sv_repo s))"
    "sv_repo s' = snd (redeem_ticket (RedeemBackchannel io h) (sv_repo s))"
    by (auto simp: repo_op_Inr is_ok_def)
  thus "\<not> ticket_open (BackchannelTicket h) (sv_repo s')" using redeem_ticket_spends by (metis ticket_of.simps(4))
  show "families_of s' = families_of s" using assms by (simp add: repo_op_Inr redeem_keeps)
qed

lemma device_exchange:
  assumes "device_code_grant au w req cnf s = (Inr res, s')"
  obtains plain grant user_id u family where "tr_device_code req = Some plain"
    "hm_get (st_device_authorization_grants (repo_store (sv_repo s))) (au_sha256_base64url au plain) = Some grant"
    "w_clock w 63 < dag_expires_at grant" "\<not> dag_consumed grant" "tr_client_id req = Some (dag_client_id grant)"
    "dag_user_id grant = Some user_id" "hm_get (st_users (repo_store (sv_repo s))) user_id = Some u"
    "issues_family w family s s'" "tf_user_id family = usr_id u"
    "tf_client_id family = dag_client_id grant" "set (tf_scopes family) \<subseteq> set (dag_scopes grant)"
    "\<not> ticket_open (DeviceTicket (au_sha256_base64url au plain)) (sv_repo s')"
proof -
  from assms obtain plain grant user_id u scopes x s1 pair claims rl where
    pre: "tr_device_code req = Some plain"
      "hm_get (st_device_authorization_grants (repo_store (sv_repo s))) (au_sha256_base64url au plain) = Some grant"
      "w_clock w 63 < dag_expires_at grant" "\<not> dag_consumed grant" "tr_client_id req = Some (dag_client_id grant)"
      "dag_user_id grant = Some user_id"
    and scopes: "validate_grant_target rl req (dag_client_id grant) (dag_resource grant) (dag_audience grant) (dag_scopes grant) cnf
        = Inr scopes"
    and user: "hm_get (st_users (repo_store (sv_repo s))) user_id = Some u"
    and mark: "repo_op (consume_device_authorization_grant (w_io w 63) (au_sha256_base64url au plain)) s = (Inr x, s1)"
    and pair: "issue_token_pair au w (orl_issuer rl) u (dag_client_id grant) (dag_realm_id grant) scopes claims s1 = (Inr pair, s')"
    unfolding device_code_grant_def
    by (auto simp: bind_act_Inr Let_def get_device_authorization_grant_def map_get_def poll_device_grant_Inr
        oauth_realm_config_def)
  note kept = consume_device_kept [OF mark]
  let ?family = "issued_family au w u (dag_client_id grant) (dag_realm_id grant) scopes claims"
  from issue_token_pair_Inr [OF pair] kept have "issues_family w ?family s s'"
    "\<not> ticket_open (DeviceTicket (au_sha256_base64url au plain)) (sv_repo s')"
    by (auto simp: issues_family_def)
  moreover have "tf_user_id ?family = usr_id u" "tf_client_id ?family = dag_client_id grant" "tf_scopes ?family = scopes"
    by (simp_all add: issued_family_def)
  ultimately show ?thesis using that [OF pre user] validate_grant_target_Inr [OF scopes] by auto
qed

lemma ciba_exchange:
  assumes "ciba_grant au w req cnf s = (Inr res, s')"
  obtains plain grant user_id u family where "tr_auth_req_id req = Some plain"
    "hm_get (st_backchannel_authentication_grants (repo_store (sv_repo s))) (au_sha256_base64url au plain) = Some grant"
    "w_clock w 74 < bag_expires_at grant" "\<not> bag_consumed grant" "tr_client_id req = Some (bag_client_id grant)"
    "bag_approved_at grant \<noteq> None"
    "bag_user_id grant = Some user_id" "hm_get (st_users (repo_store (sv_repo s))) user_id = Some u"
    "issues_family w family s s'" "tf_user_id family = usr_id u"
    "tf_client_id family = bag_client_id grant" "set (tf_scopes family) \<subseteq> set (bag_scopes grant)"
    "\<not> ticket_open (BackchannelTicket (au_sha256_base64url au plain)) (sv_repo s')"
proof -
  from assms obtain plain grant user_id u scopes x s1 pair claims rl where
    pre: "tr_auth_req_id req = Some plain"
      "hm_get (st_backchannel_authentication_grants (repo_store (sv_repo s))) (au_sha256_base64url au plain) = Some grant"
      "w_clock w 74 < bag_expires_at grant" "\<not> bag_consumed grant" "tr_client_id req = Some (bag_client_id grant)"
      "bag_approved_at grant \<noteq> None" "bag_user_id grant = Some user_id"
    and scopes: "validate_grant_target rl req (bag_client_id grant) (bag_resource grant) (bag_audience grant) (bag_scopes grant) cnf
        = Inr scopes"
    and user: "hm_get (st_users (repo_store (sv_repo s))) user_id = Some u"
    and mark: "repo_op (consume_backchannel_authentication_grant (w_io w 73) (au_sha256_base64url au plain)) s = (Inr x, s1)"
    and pair: "issue_token_pair au w (orl_issuer rl) u (bag_client_id grant) (bag_realm_id grant) scopes claims s1 = (Inr pair, s')"
    unfolding ciba_grant_def
    by (auto simp: bind_act_Inr Let_def get_backchannel_authentication_grant_def map_get_def oauth_realm_config_def
        split: if_splits)
  note kept = consume_backchannel_kept [OF mark]
  let ?family = "issued_family au w u (bag_client_id grant) (bag_realm_id grant) scopes claims"
  from issue_token_pair_Inr [OF pair] kept have "issues_family w ?family s s'"
    "\<not> ticket_open (BackchannelTicket (au_sha256_base64url au plain)) (sv_repo s')"
    by (auto simp: issues_family_def)
  moreover have "tf_user_id ?family = usr_id u" "tf_client_id ?family = bag_client_id grant" "tf_scopes ?family = scopes"
    by (simp_all add: issued_family_def)
  ultimately show ?thesis using that [OF pre user] validate_grant_target_Inr [OF scopes] by auto
qed

lemma ticket_steps_closed:
  assumes "(ticket_step t)\<^sup>*\<^sup>* r r'" "repo_wf r" "\<not> ticket_open t r"
  shows "\<not> ticket_open t r'"
proof -
  from assms have "repo_wf r' \<and> \<not> ticket_open t r'"
  proof (induction rule: rtranclp_induct)
    case (step y z)
    hence "repo_wf z" using repo_step_wf by (auto simp: ticket_step_def)
    with step ticket_step_closed show ?case by blast
  qed simp
  thus ?thesis ..
qed

lemma acts_exchange: "grants_only au w (exchange k au w req c cnf)"
  by (cases k) (simp_all add: issuing.acts_code_grant issuing.acts_device issuing.acts_ciba)

lemma exchange_closes:
  assumes "keyed code_code_hash (st_authorization_codes (repo_store (sv_repo s)))"
    and "exchange k au w req c cnf s = (Inr res, s')" "presents k au req = Some t"
  shows "ticket_open t (sv_repo s) \<and> \<not> ticket_open t (sv_repo s')"
proof (cases k)
  case ByCode
  with assms show ?thesis by (auto simp: code_matches_def elim!: code_exchange)
next
  case ByDevice
  with assms show ?thesis by (auto elim!: device_exchange)
next
  case ByCiba
  with assms show ?thesis by (auto elim!: ciba_exchange)
qed

text \<open>
  C6. What the token endpoint exchanges is exchanged once. After an authorization code, a device
  code or a backchannel request was exchanged for tokens, every later exchange of it, by any
  client and with any proof, is refused and changes nothing, whatever repository operations come
  in between, short of issuing the same code anew.
\<close>

theorem exchanged_once:
  assumes "repo_wf (sv_repo s)" "keyed code_code_hash (st_authorization_codes (repo_store (sv_repo s)))"
    and "exchange k au w req c cnf s = (Inr res, s1)" "presents k au req = Some t"
    and "(ticket_step t)\<^sup>*\<^sup>* (sv_repo s1) (sv_repo s2)" "presents k au req' = Some t"
  shows "ticket_open t (sv_repo s) \<and> (\<exists>e. exchange k au w' req' c' cnf' s2 = (Inl e, s2))"
proof -
  note closes = exchange_closes [OF assms(2,3,4)]
  have "repo_wf (sv_repo s1)" using grants_only_wf [OF acts_exchange assms(3,1)] .
  with ticket_steps_closed [OF assms(5)] closes have "\<not> ticket_open t (sv_repo s2)" by blast
  with closed_ticket_refused [OF assms(6)] closes show ?thesis by blast
qed

text \<open>
  C8. An authorization code buys what was authorised, for whom it was authorised. The exchange
  succeeds only for the client and realm the code was issued to, before it expires, with the
  redirect URI of the request and, when the request carried a challenge, with a verifier whose
  SHA-256 digest is that challenge. It creates one token family, for the authorising user, with
  the scopes, authentication context and session of the code.
\<close>

theorem code_exchange_bound:
  assumes "keyed code_code_hash (st_authorization_codes (repo_store (sv_repo s)))"
    and "authorization_code_grant au w req c cnf s = (Inr res, s')"
  shows "\<exists>plain code family u. tr_code req = Some plain \<and>
    hm_get (st_authorization_codes (repo_store (sv_repo s))) (au_sha256_base64url au plain) = Some code \<and>
    \<not> code_used code \<and> w_clock w 50 < code_expires_at code \<and> tr_redirect_uri req = Some (code_redirect_uri code) \<and>
    code_client_id code = cl_client_id c \<and> code_realm_id code = cl_realm_id c \<and>
    (\<forall>challenge. code_code_challenge code = Some challenge \<longrightarrow>
       code_code_challenge_method code = Some ''S256'' \<and>
       au_sha256_base64url au (case tr_code_verifier req of None \<Rightarrow> [] | Some v \<Rightarrow> v) = challenge) \<and>
    hm_get (st_users (repo_store (sv_repo s))) (code_user_id code) = Some u \<and>
    issues_family w family s s' \<and> tf_user_id family = usr_id u \<and> tf_client_id family = cl_client_id c \<and>
    tf_realm_id family = cl_realm_id c \<and> tf_scopes family = code_scopes code \<and>
    tf_auth_time family = code_auth_time code \<and> tf_acr family = code_acr code \<and>
    tf_session_id family = code_session_id code \<and> tf_sender_constraint family = cnf"
proof -
  from assms obtain plain redirect_uri and code :: authorization_code and auds and u :: user where
    facts: "tr_code req = Some plain" "tr_redirect_uri req = Some redirect_uri"
    "hm_get (st_authorization_codes (repo_store (sv_repo s))) (au_sha256_base64url au plain) = Some code"
    "code_matches code (w_clock w 50) redirect_uri c"
    "verify_code_verifier au (code_code_challenge code) (code_code_challenge_method code)
       (case tr_code_verifier req of None \<Rightarrow> [] | Some v \<Rightarrow> v)"
    "hm_get (st_users (repo_store (sv_repo s))) (code_user_id code) = Some u"
    "issues_family w (issued_family au w u (code_client_id code) (code_realm_id code) (code_scopes code)
       (code_issue_claims code plain cnf auds)) s s'"
    by (rule code_exchange)
  from facts(5) have "code_code_challenge code = Some challenge \<Longrightarrow> code_code_challenge_method code = Some ''S256'' \<and>
       au_sha256_base64url au (case tr_code_verifier req of None \<Rightarrow> [] | Some v \<Rightarrow> v) = challenge" for challenge
    by (auto simp: verify_code_verifier_def split: option.splits)
  with facts show ?thesis
    by (intro exI [of _ plain] exI [of _ code] exI [of _ u] exI [of _ "issued_family au w u (code_client_id code)
        (code_realm_id code) (code_scopes code) (code_issue_claims code plain cnf auds)"])
       (simp add: code_matches_def issued_family_def code_issue_claims_def default_issue_claims_def)
qed

section \<open>Approvals\<close>

text \<open>The requests of the grant endpoints.\<close>

inductive grant_request :: "authority \<Rightarrow> world \<Rightarrow> service \<Rightarrow> service \<Rightarrow> bool" where
  greq_code: "grant_request au w s (snd (authorization_code_grant au w req c cnf s))"
| greq_client: "grant_request au w s (snd (client_credentials_grant au w req c cnf s))"
| greq_refresh: "grant_request au w s (snd (refresh_token_grant au w req c cnf s))"
| greq_device: "grant_request au w s (snd (device_authorization au w dreq s))"
| greq_device_approve: "grant_request au w s (snd (device_authorization_approve au w user_code cookie s))"
| greq_device_token: "grant_request au w s (snd (device_code_grant au w req cnf s))"
| greq_ciba: "grant_request au w s (snd (create_backchannel_authentication_grant au w breq s))"
| greq_ciba_approve: "grant_request au w s (snd (backchannel_authentication_approve au w i user cookie s))"
| greq_ciba_token: "grant_request au w s (snd (ciba_grant au w req cnf s))"

lemma grant_request_issues: "grant_request au w s s' \<Longrightarrow> (issues_only (drawn au w))\<^sup>*\<^sup>* (sv_repo s) (sv_repo s')"
  by (cases rule: grant_request.cases)
     (use issuing.acts_code_grant [OF drawn_self] issuing.acts_client_credentials [OF drawn_self]
        issuing.acts_refresh_grant [OF drawn_self] issuing.acts_device [OF drawn_self] issuing.acts_ciba [OF drawn_self]
        acts_approvals in \<open>auto simp: acts_def\<close>)

abbreviation device_grants :: "file_repository \<Rightarrow> (string, device_authorization_grant) hash_map" where
  "device_grants r \<equiv> st_device_authorization_grants (repo_store r)"

abbreviation ciba_grants :: "file_repository \<Rightarrow> (string, backchannel_authentication_grant) hash_map" where
  "ciba_grants r \<equiv> st_backchannel_authentication_grants (repo_store r)"

text \<open>The approvals on record: device grants with the user who approved, and approved backchannel requests.\<close>

definition device_approvals :: "store \<Rightarrow> (string \<times> string) set" where
  "device_approvals s = {(h, user). \<exists>g. hm_get (st_device_authorization_grants s) h = Some g \<and> dag_user_id g = Some user}"

definition ciba_approvals :: "store \<Rightarrow> string set" where
  "ciba_approvals s = {h. \<exists>g. hm_get (st_backchannel_authentication_grants s) h = Some g \<and> bag_approved_at g \<noteq> None}"

definition adds_no_approval :: "store \<Rightarrow> store \<Rightarrow> bool" where
  "adds_no_approval s s' \<longleftrightarrow> device_approvals s' \<subseteq> device_approvals s \<and> ciba_approvals s' \<subseteq> ciba_approvals s"

lemma adds_no_approval_same:
  "st_device_authorization_grants s' = st_device_authorization_grants s \<Longrightarrow>
   st_backchannel_authentication_grants s' = st_backchannel_authentication_grants s \<Longrightarrow> adds_no_approval s s'"
  by (simp add: adds_no_approval_def device_approvals_def ciba_approvals_def)

lemma adds_no_approval_rotation:
  "adds_no_approval (repo_store r) (repo_store (snd (update_token_family_refresh_hash io i realm old new deadline r)))"
  using rotation_store [of io i realm old new deadline r]
  by (auto intro: adds_no_approval_same simp: rotate_family_Inr)

lemma adds_no_approval_writes:
  "adds_no_approval (repo_store r) (repo_store (snd (mark_authorization_code_used io code r)))"
  "adds_no_approval (repo_store r) (repo_store (snd (consume_device_authorization_grant io i r)))"
  "adds_no_approval (repo_store r) (repo_store (snd (consume_backchannel_authentication_grant io i r)))"
  "adds_no_approval (repo_store r) (repo_store (snd (create_service_account io sa r)))"
  "adds_no_approval (repo_store r) (repo_store (snd (create_user io u r)))"
  "adds_no_approval (repo_store r) (repo_store (snd (create_token_family io family r)))"
  "adds_no_approval (repo_store r) (repo_store (snd (create_access_token io token r)))"
  "dag_user_id dgrant = None \<Longrightarrow> adds_no_approval (repo_store r) (repo_store (snd (store_device_authorization_grant io dgrant r)))"
  "bag_approved_at bgrant = None \<Longrightarrow>
     adds_no_approval (repo_store r) (repo_store (snd (store_backchannel_authentication_grant io bgrant r)))"
  unfolding mark_authorization_code_used_def consume_device_authorization_grant_def consume_backchannel_authentication_grant_def
    create_service_account_def create_user_def create_token_family_def create_access_token_def
    store_device_authorization_grant_def store_backchannel_authentication_grant_def
  by (rule try_write_relates;
      fastforce simp: and_then_Inr_iff adds_no_approval_def device_approvals_def ciba_approvals_def insert_new_Inr
        update_conv' split: if_splits)+

lemma adds_no_approval_polls:
  "adds_no_approval (repo_store r) (repo_store (snd (revoke_token_family io i realm r)))"
  "adds_no_approval (repo_store r) (repo_store (snd (revoke_access_token io i realm r)))"
  "adds_no_approval (repo_store r) (repo_store (snd (record_device_authorization_poll io i t n r)))"
  "adds_no_approval (repo_store r) (repo_store (snd (record_backchannel_authentication_poll io i t n r)))"
  by (auto simp: revoke_token_family_def revoke_access_token_def record_device_authorization_poll_def
      record_backchannel_authentication_poll_def adds_no_approval_def device_approvals_def ciba_approvals_def hm_modify_def
      update_conv' split: option.splits if_splits)

interpretation unapproving: grant_relation "\<lambda>r r'. adds_no_approval (repo_store r) (repo_store r')" "\<lambda>_. True"
  by unfold_locales
     (auto simp: adds_no_approval_rotation adds_no_approval_writes adds_no_approval_polls, auto simp: adds_no_approval_def)

lemma approve_device_effect:
  assumes "(h, user) \<in> device_approvals (repo_store (snd (approve_device_authorization_grant io code u t r)))"
    and "(h, user) \<notin> device_approvals (repo_store r)"
    and "get_device_authorization_grant_by_user_code code r = Inr (Some grant)"
  shows "user = u \<and> (h, grant) \<in> set (device_grants r)"
proof -
  from assms(3) have "filter (\<lambda>g. dag_user_code g = code) (map snd (device_grants r)) = [grant]"
    by (simp add: get_device_authorization_grant_by_user_code_def unique_match_Inr_Some hm_values_def)
  hence "map snd (filter (\<lambda>(k, g). dag_user_code g = code) (device_grants r)) = [grant]"
    by (simp add: filter_map comp_def split_def)
  then obtain k where found: "filter (\<lambda>(k, g). dag_user_code g = code) (device_grants r) = [(k, grant)]" by auto
  hence "unique_match (filter (\<lambda>(k, g). dag_user_code g = code) (device_grants r)) m = Inr (Some (k, grant))" for m
    by (simp only: unique_match_Inr_Some)
  with assms(1,2) have "h = k \<and> user = u"
    by (auto simp: approve_device_authorization_grant_def try_write_store device_approvals_def ok_or_def update_conv'
        split: if_splits)
  moreover have "(k, grant) \<in> set (filter (\<lambda>(k, g). dag_user_code g = code) (device_grants r))" by (simp add: found)
  ultimately show ?thesis by auto
qed

text \<open>A session that stands behind an approval.\<close>

definition approves :: "string \<Rightarrow> string \<Rightarrow> u64 \<Rightarrow> file_repository \<Rightarrow> bool" where
  "approves user realm now r \<longleftrightarrow> (\<exists>sid ses u. hm_get (st_sessions (repo_store r)) sid = Some ses \<and> is_active ses now \<and>
     ses_user_id ses = user \<and> hm_get (st_users (repo_store r)) user = Some u \<and> usr_realm_id u = realm)"

text \<open>A handler that only reads before its last step either stops without a change or gets there.\<close>

lemma bind_read_cases:
  assumes "snd (m s) = s" "P s" "\<And>a. m s = (Inr a, s) \<Longrightarrow> P (snd (f a s))"
  shows "P (snd (bind_act m f s))"
  using assms by (cases "m s") (auto simp: bind_act_def split: sum.split)

lemma reads [simp]:
  "snd (repo_read f s) = s" "snd (require b e s) = s" "snd (require_some x e s) = s"
  "snd (grant_user user_id realm_id mismatch s) = s"
  by (auto simp: repo_read_def require_def require_some_def give_def refuse_def grant_user_def bind_act_def
      split: option.split sum.split)

lemma device_approve_runs:
  "sv_repo (snd (device_authorization_approve au w code cookie s)) = sv_repo s \<or>
   (\<exists>grant user. get_device_authorization_grant_by_user_code code (sv_repo s) = Inr (Some grant) \<and>
      approves user (dag_realm_id grant) (w_clock w 61) (sv_repo s) \<and>
      sv_repo (snd (device_authorization_approve au w code cookie s))
        = snd (approve_device_authorization_grant (w_io w 61) code user (w_clock w 62) (sv_repo s)))"
proof -
  define P where "P s' \<longleftrightarrow> sv_repo s' = sv_repo s \<or>
    (\<exists>grant user. get_device_authorization_grant_by_user_code code (sv_repo s) = Inr (Some grant) \<and>
      approves user (dag_realm_id grant) (w_clock w 61) (sv_repo s) \<and>
      sv_repo s' = snd (approve_device_authorization_grant (w_io w 61) code user (w_clock w 62) (sv_repo s)))" for s' :: service
  have stop: "P s" by (simp add: P_def)
  have "P (snd (device_authorization_approve au w code cookie s))"
    unfolding device_authorization_approve_def approve_device_authorization_def
  proof (intro bind_read_cases [where P = P] stop reads)
    fix grant rl sid ses u and unused1 unused2 :: unit and found found'
    assume "repo_read (get_device_authorization_grant_by_user_code code) s = (Inr found, s)"
      "require_some found (NotFound ''device authorization grant'') s = (Inr grant, s)"
      "repo_read (get_session sid) s = (Inr found', s)"
      "require_some found' (Unauthorized ''invalid or expired session'') s = (Inr ses, s)"
      "require (is_active ses (w_clock w 61)) (Unauthorized ''session is no longer active'') s = (Inr unused2, s)"
      "grant_user (ses_user_id ses) (dag_realm_id grant)
        ''approval subject does not belong to the same realm as the device authorization grant'' s = (Inr u, s)"
    hence "get_device_authorization_grant_by_user_code code (sv_repo s) = Inr (Some grant)"
      "approves (ses_user_id ses) (dag_realm_id grant) (w_clock w 61) (sv_repo s)"
      by (auto simp: approves_def get_session_def map_get_def)
    thus "P (snd (repo_op (approve_device_authorization_grant (w_io w 61) code (ses_user_id ses) (w_clock w 62)) s))"
      by (auto simp: P_def repo_op_def split: prod.split)
  qed
  thus ?thesis by (simp add: P_def)
qed

lemma ciba_approve_runs:
  "sv_repo (snd (backchannel_authentication_approve au w plain user cookie s)) = sv_repo s \<or>
   (\<exists>grant. hm_get (ciba_grants (sv_repo s)) (au_sha256_base64url au plain) = Some grant \<and> bag_user_id grant = Some user \<and>
      approves user (bag_realm_id grant) (w_clock w 71) (sv_repo s) \<and>
      sv_repo (snd (backchannel_authentication_approve au w plain user cookie s))
        = snd (approve_backchannel_authentication_grant (w_io w 71) (au_sha256_base64url au plain) user (w_clock w 72) (sv_repo s)))"
proof -
  define P where "P s' \<longleftrightarrow> sv_repo s' = sv_repo s \<or>
    (\<exists>grant. hm_get (ciba_grants (sv_repo s)) (au_sha256_base64url au plain) = Some grant \<and> bag_user_id grant = Some user \<and>
      approves user (bag_realm_id grant) (w_clock w 71) (sv_repo s) \<and>
      sv_repo s' = snd (approve_backchannel_authentication_grant (w_io w 71) (au_sha256_base64url au plain) user (w_clock w 72)
        (sv_repo s)))" for s' :: service
  have stop: "P s" by (simp add: P_def)
  have same: "snd (authorize_ciba_browser_session au w cookie grant user s) = s" for grant
    unfolding authorize_ciba_browser_session_def
    by (intro bind_read_cases [where P = "\<lambda>s'. s' = s"] reads refl)
  have behind: "approves user (bag_realm_id grant) (w_clock w 71) (sv_repo s)"
    if "authorize_ciba_browser_session au w cookie grant user s = (Inr x, s')" for grant x s'
    using that by (auto simp: authorize_ciba_browser_session_def bind_act_Inr approves_def get_session_def map_get_def)
  have "P (snd (backchannel_authentication_approve au w plain user cookie s))"
    unfolding backchannel_authentication_approve_def Let_def
  proof (intro bind_read_cases [where P = P] stop reads same)
    fix grant found and unused unused' :: unit
    assume "repo_read (get_backchannel_authentication_grant (au_sha256_base64url au plain)) s = (Inr found, s)"
      "require_some found (NotFound ''backchannel authentication grant'') s = (Inr grant, s)"
      "require (bag_user_id grant = Some user) (Unauthorized ''approval subject does not match login_hint'') s = (Inr unused, s)"
      "authorize_ciba_browser_session au w cookie grant user s = (Inr unused', s)"
    thus "P (snd (repo_op (approve_backchannel_authentication_grant (w_io w 71) (au_sha256_base64url au plain) user (w_clock w 72)) s))"
      by (auto simp: P_def repo_op_def get_backchannel_authentication_grant_def map_get_def dest: behind split: prod.split)
  qed
  thus ?thesis by (simp add: P_def)
qed

lemma approve_ciba_effect:
  "device_approvals (repo_store (snd (approve_backchannel_authentication_grant io i u t r))) = device_approvals (repo_store r)"
  "h \<in> ciba_approvals (repo_store (snd (approve_backchannel_authentication_grant io i u t r))) \<Longrightarrow>
     h \<notin> ciba_approvals (repo_store r) \<Longrightarrow> h = i"
  by (auto simp: approve_backchannel_authentication_grant_def try_write_store device_approvals_def ciba_approvals_def
      update_conv' and_then_Inr_iff split: sum.splits if_splits)

lemma approve_device_ciba:
  "ciba_approvals (repo_store (snd (approve_device_authorization_grant io i u t r))) = ciba_approvals (repo_store r)"
  by (auto simp: approve_device_authorization_grant_def try_write_store ciba_approvals_def and_then_Inr_iff split: sum.splits)

lemma quiet_request:
  assumes "acts (\<lambda>r r'. adds_no_approval (repo_store r) (repo_store r')) m"
  shows "device_approvals (repo_store (sv_repo (snd (m s)))) \<subseteq> device_approvals (repo_store (sv_repo s))"
    "ciba_approvals (repo_store (sv_repo (snd (m s)))) \<subseteq> ciba_approvals (repo_store (sv_repo s))"
  using assms by (simp_all add: acts_def adds_no_approval_def)


section \<open>An application of one realm\<close>

text \<open>
  Alice's application holds a family of the session \<^verbatim>\<open>s1\<close>. The signer signs the claims of this family's refresh
  tokens and refuses all others.
\<close>

definition example_claims :: "string \<Rightarrow> jwt_claims" where
  "example_claims jti = \<lparr> jc_iss = Some ''https://corp'', jc_sub = Some ''alice'', jc_aud = Some (Single ''app''),
     jc_exp = Some 900, jc_nbf = Some 200, jc_iat = Some 200, jc_jti = Some jti,
     jc_extra = [(''family_id'', JString ''f1'')] \<rparr>"

definition example_oauth_realm :: oauth_realm where
  "example_oauth_realm = \<lparr> orl_issuer = ''https://corp'', orl_default_scope = ''read'', orl_oidc_default_scope = ''openid'',
     orl_cookie_name = ''qid'', orl_token_ttl = \<lparr> ttl_access_token_ttl_seconds = 60, ttl_refresh_token_ttl_seconds = 700,
       ttl_id_token_ttl_seconds = 60, ttl_auth_code_ttl_seconds = 60, ttl_par_request_ttl_seconds = 60, ttl_device_code_ttl_seconds = 60, ttl_access_token_format = Opaque \<rparr>,
     orl_resource_servers = [], orl_device_authorization_enabled = True, orl_ciba_enabled = True,
     orl_revocation_enabled = True, orl_introspection_enabled = True, orl_jwt_response = False, orl_dpop_enabled = False,
     orl_dpop_nonce = False, orl_mtls_enabled = False, orl_private_key_jwt_enabled = False \<rparr>"

definition example_sign :: "jwt_claims \<Rightarrow> string + string" where
  "example_sign cl = (case jc_jti cl of
     None \<Rightarrow> Inl ''refused'' | Some jti \<Rightarrow> if cl = example_claims jti then Inr (CHR ''R'' # jti) else Inl ''refused'')"

definition example_decode :: "u64 \<Rightarrow> string \<Rightarrow> string + jwt_claims" where
  "example_decode now t = (case t of
     [] \<Rightarrow> Inl ''malformed'' | x # jti \<Rightarrow> if x = CHR ''R'' \<and> now \<le> 900 then Inr (example_claims jti) else Inl ''refused'')"

definition example_authority :: authority where
  "example_authority = \<lparr> au_realms = [(''corp'', example_oauth_realm)], au_sign = example_sign,
     au_sign_with_typ = (\<lambda>cl _. example_sign cl), au_decode = example_decode, au_sha256_base64url = id, au_half_hash = id,
     au_hmac_half = (\<lambda>_ m. m), au_url_host = (\<lambda>_. None), au_client_secret_hash = id,
     au_public_base_url = ''https://id'', au_device_verification_path = ''/device'' \<rparr>"

definition example_app :: client where
  "example_app = \<lparr> cl_id = ''c1'', cl_realm_id = ''corp'', cl_client_id = ''app'', cl_client_type = Confidential,
     cl_token_endpoint_auth_method = ''client_secret_post'', cl_client_secret_hash = Some ''secret'',
     cl_mtls_certificate_thumbprints = [], cl_jwks = JNull, cl_redirect_uris = [''https://app/cb''],
     cl_grant_types = [''authorization_code'', ''refresh_token'', device_grant_type, ciba_grant_type],
     cl_client_name = None, cl_client_uri = None, cl_logo_uri = None, cl_contacts = [], cl_post_logout_redirect_uris = [],
     cl_default_max_age = None, cl_require_auth_time = False, cl_sector_identifier_uri = None, cl_subject_type = None,
     cl_backchannel_logout_uri = None, cl_frontchannel_logout_uri = None,
     cl_backchannel_client_notification_endpoint = None, cl_require_pushed_authorization_requests = False \<rparr>"

definition example_held :: token_family where
  "example_held = example_family\<lparr>tf_user_id := ''alice'', tf_current_refresh_hash := ''oat_0'', tf_scopes := [''read'', ''write''],
     tf_refresh_expires_at := Some 900, tf_session_id := Some ''s1''\<rparr>"

definition example_granted :: service where
  "example_granted = example_service\<lparr>sv_repo := (sv_repo example_service)\<lparr>repo_store :=
     (repo_store (sv_repo example_service))\<lparr>st_token_families := [(''f1'', example_held)], st_clients := [(''c1'', example_app)]\<rparr>\<rparr>\<rparr>"

definition example_request :: token_request where
  "example_request = \<lparr> tr_grant_type = ''refresh_token'', tr_code = None, tr_redirect_uri = None, tr_code_verifier = None,
     tr_client_id = Some ''app'', tr_client_secret = Some ''secret'', tr_scope = None, tr_refresh_token = None,
     tr_client_assertion = None, tr_client_assertion_type = None, tr_device_code = None, tr_auth_req_id = None,
     tr_assertion = None, tr_subject_token = None, tr_subject_token_type = None, tr_actor_token = None,
     tr_actor_token_type = None, tr_requested_token_type = None, tr_audience = None, tr_resource = None,
     tr_authorization_details = None \<rparr>"

definition example_refresh :: "string \<Rightarrow> token_request" where
  "example_refresh t = example_request\<lparr>tr_refresh_token := Some t\<rparr>"

abbreviation run_refresh :: "world \<Rightarrow> string \<Rightarrow> service \<Rightarrow> token_response result \<times> service" where
  "run_refresh w t \<equiv> refresh_token_grant example_authority w (example_refresh t) example_app None"

definition example_refreshed :: service where
  "example_refreshed = snd (run_refresh example_world ''Roat_0'' example_granted)"

definition example_response :: token_response where
  "example_response = \<lparr> tres_access_token = ''oat_oat_r'', tres_token_type = ''Bearer'', tres_expires_in = 60,
     tres_refresh_token = Some ''Roat_r'', tres_id_token = None, tres_scope = Some ''read write'',
     tres_issued_token_type = None \<rparr>"

lemma example_granted_wf: "repo_wf (sv_repo example_granted)" "keyed tf_id (families_of example_granted)"
  by (simp_all add: example_granted_def example_service_def repo_wf_def push_valid_def hm_wf_def empty_store_def keyed_def
      example_held_def example_family_def)

lemma example_refresh_runs: "run_refresh example_world ''Roat_0'' example_granted = (Inr example_response, example_refreshed)"
proof -
  have "fst (run_refresh example_world ''Roat_0'' example_granted) = Inr example_response" by code_simp
  thus ?thesis unfolding example_refreshed_def by (metis prod.collapse)
qed

lemma example_refresh_claims:
  "now \<le> 900 \<Longrightarrow> refresh_claims example_authority now (example_refresh (CHR ''R'' # jti)) example_app = Inr (jti, ''f1'')"
  by (rule refresh_claims_issued [where token = "CHR ''R'' # jti" and claims = "example_claims jti"])
     (simp_all add: example_authority_def example_decode_def example_refresh_def example_claims_def example_app_def)

lemma example_held_stored: "hm_get (families_of example_granted) ''f1'' = Some example_held"
  by (simp add: example_granted_def)

lemma example_clock [simp]: "w_clock example_world n = 200" "w_io example_world n = None" "w_random example_world n = ''r''"
  by (simp_all add: example_world_def)

lemma example_first:
  "refresh_claims example_authority (w_clock example_world 39) (example_refresh ''Roat_0'') example_app = Inr (''oat_0'', ''f1'')"
  by (rule example_refresh_claims) simp

theorem refresh_within_grant_witness:
  "run_refresh example_world ''Roat_0'' example_granted = (Inr example_response, example_refreshed) \<and>
   (\<exists>family token. hm_get (families_of example_granted) ''f1'' = Some family \<and> \<not> tf_revoked family \<and>
      hm_get (access_tokens_of example_refreshed) (at_jti token) = Some token \<and>
      set (at_scopes token) \<subseteq> set (tf_scopes family) \<and> at_expires_at token \<le> refresh_deadline example_authority family)"
proof -
  from refresh_within_grant [OF example_granted_wf(2) example_refresh_runs] example_first
  obtain fid and family :: token_family and token :: access_token where
    "hm_get (families_of example_granted) ''f1'' = Some family" "\<not> tf_revoked family"
    "access_tokens_of example_refreshed = hm_insert (at_jti token) token (access_tokens_of example_granted)"
    "set (at_scopes token) \<subseteq> set (tf_scopes family)" "at_expires_at token \<le> refresh_deadline example_authority family"
    by auto
  with example_refresh_runs show ?thesis by (auto simp: update_conv')
qed

definition example_later :: world where
  "example_later = example_world\<lparr>w_random := (\<lambda>_. ''q'')\<rparr>"

lemma example_later_clock [simp]: "w_clock example_later n = 200" "w_io example_later n = None" "w_random example_later n = ''q''"
  by (simp_all add: example_later_def)

lemma example_session_holds: "session_holds 200 example_held (sv_repo example_refreshed)" by code_simp

lemma example_deadline: "refresh_deadline example_authority example_held = 900"
  by (simp add: refresh_deadline_def example_held_def)

theorem refresh_replay_contained_witness:
  "let s2 = snd (run_refresh example_later ''Roat_0'' example_refreshed)
   in fst (run_refresh example_later ''Roat_0'' example_refreshed) = Inl (Unauthorized ''invalid refresh token'') \<and>
      (\<exists>e. run_refresh example_later ''Roat_r'' s2 = (Inl e, s2))"
proof -
  have replay: "run_refresh example_later ''Roat_0'' example_refreshed =
    (fst (run_refresh example_later ''Roat_0'' example_refreshed), snd (run_refresh example_later ''Roat_0'' example_refreshed))"
    by simp
  show ?thesis
    unfolding Let_def
    by (rule refresh_replay_contained [OF example_granted_wf example_first example_held_stored example_refresh_runs
          _ _ _ replay rtranclp.rtrancl_refl])
       (simp_all add: example_refresh_claims example_session_holds example_deadline)
qed

theorem logout_ends_refresh_witness:
  "let s1 = snd (session_revoke example_world example_deployment ''corp'' (Some ''qid=s1'') example_granted)
   in session_revoke example_world example_deployment ''corp'' (Some ''qid=s1'') example_granted = (Inr 200, s1) \<and>
      (\<exists>e. run_refresh example_later ''Roat_0'' s1 = (Inl e, s1))"
proof -
  let ?s1 = "snd (session_revoke example_world example_deployment ''corp'' (Some ''qid=s1'') example_granted)"
  have "fst (session_revoke example_world example_deployment ''corp'' (Some ''qid=s1'') example_granted) = Inr 200" by code_simp
  hence run: "session_revoke example_world example_deployment ''corp'' (Some ''qid=s1'') example_granted = (Inr 200, ?s1)"
    by (metis prod.collapse)
  have realm: "hm_get (dp_realms example_deployment) ''corp'' = Some example_realm" by (simp add: example_deployment_def)
  have cookie: "extract_cookie (Some ''qid=s1'') (rt_cookie_name example_realm) = Some ''s1''" by code_simp
  have family: "hm_get (families_of ?s1) ''f1'' = Some example_held"
    using session_revoke_dead(1) [OF run realm cookie] example_held_stored
    by (simp add: revoke_session_def Let_def split: option.split)
  have claims: "refresh_claims example_authority (w_clock example_later 39) (example_refresh ''Roat_0'') example_app = Inr (''oat_0'', ''f1'')"
    by (simp add: example_refresh_claims)
  from logout_ends_refresh [OF example_granted_wf(1) realm cookie run rtranclp.rtrancl_refl claims family, where cnf = None] run
  show ?thesis by (simp add: Let_def example_held_def)
qed

theorem refreshed_token_refreshes_witness:
  "\<exists>res' s2. run_refresh example_later ''Roat_r'' example_refreshed = (Inr res', s2) \<and>
     tres_refresh_token res' = Some ''Roat_q'' \<and> tres_scope res' = Some ''read write''"
proof -
  have signer: "decodes_own example_authority"
    by (auto simp: decodes_own_def example_authority_def example_sign_def example_decode_def example_claims_def split: option.splits if_splits)
  let ?u = example_account and ?rl = example_oauth_realm
  have user: "hm_get (st_users (repo_store (sv_repo example_granted))) (tf_user_id example_held) = Some ?u" by code_simp
  have realm: "map_of (au_realms example_authority) (tf_realm_id example_held) = Some ?rl"
    by (simp add: example_authority_def example_held_def example_family_def)
  have access: "format_access_token example_authority (w_clock example_later 41) (orl_issuer ?rl) (generate_jti example_later 40) ?u
      (tf_client_id example_held) (tf_realm_id example_held) (tf_scopes example_held)
      (family_issue_claims example_held None (refresh_deadline example_authority example_held)) = Inr ''oat_oat_q''" by code_simp
  have sign: "sign_refresh_token example_authority (w_clock example_later 42) (orl_issuer ?rl) (generate_jti example_later 41) ?u
      (tf_client_id example_held) (tf_realm_id example_held) (Some ''f1'') (refresh_deadline example_authority example_held)
      = Inr ''Roat_q''" by code_simp
  have unused: "hm_get (access_tokens_of example_refreshed) (generate_jti example_later 40) = None" by code_simp
  have ttl: "(200::64 word) \<le> sat_add (w_clock example_world 42)
      (ttl_refresh_token_ttl_seconds (token_ttl example_authority (tf_realm_id example_held)))" by code_simp
  have differ: "au_sha256_base64url example_authority (generate_jti example_later 41)
      \<noteq> au_sha256_base64url example_authority (generate_jti example_world 41)"
    by (simp add: example_authority_def generate_jti_def)
  have scopes: "join_space (tf_scopes example_held) = ''read write''" by (simp add: example_held_def)
  show ?thesis
    using refreshed_token_refreshes [OF signer example_granted_wf(2) example_refresh_runs example_first example_held_stored,
        where w' = example_later and req' = "example_refresh ''Roat_r''", OF _ _ _ _ _ _ differ unused _ _ user realm access sign]
    by (simp add: example_refresh_def example_request_def example_response_def ttl example_deadline example_session_holds scopes)
qed


text \<open>
  For codes and approvals the signer signs everything; the application has a code of Alice's with a challenge, and a
  device waits for approval.
\<close>

definition example_issuer :: authority where
  "example_issuer = example_authority\<lparr>au_sign := (\<lambda>_. Inr ''signed''), au_sign_with_typ := (\<lambda>_ _. Inr ''signed'')\<rparr>"

definition example_code :: authorization_code where
  "example_code = \<lparr> code_code_hash = ''c'', code_client_id = ''app'', code_user_id = ''alice'', code_realm_id = ''corp'',
     code_redirect_uri = ''https://app/cb'', code_state = None, code_nonce = None, code_auth_time = Some 150,
     code_acr = None, code_amr = [''pwd''], code_code_challenge = Some ''v'', code_code_challenge_method = Some ''S256'',
     code_scopes = [''openid'', ''read''], code_resource = [], code_authorization_details = None, code_expires_at = 260,
     code_used = False, code_created_at = 190, code_session_id = Some ''s1'' \<rparr>"

definition example_pending :: device_authorization_grant where
  "example_pending = \<lparr> dag_device_code_hash = ''dc_x'', dag_user_code = ''QID-1'', dag_client_id = ''app'', dag_realm_id = ''corp'',
     dag_scopes = [''read''], dag_resource = [], dag_audience = [''app''], dag_user_id = None, dag_expires_at = 260,
     dag_approved_at = None, dag_consumed = False, dag_last_poll_at = None, dag_poll_interval_seconds = 5,
     dag_created_at = 190 \<rparr>"

definition example_waiting :: service where
  "example_waiting = example_granted\<lparr>sv_repo := (sv_repo example_granted)\<lparr>repo_store :=
     (repo_store (sv_repo example_granted))\<lparr>st_authorization_codes := [(''c'', example_code)],
       st_device_authorization_grants := [(''dc_x'', example_pending)]\<rparr>\<rparr>\<rparr>"

definition example_code_request :: token_request where
  "example_code_request = example_request\<lparr>tr_grant_type := ''authorization_code'', tr_code := Some ''c'',
     tr_redirect_uri := Some ''https://app/cb'', tr_code_verifier := Some ''v''\<rparr>"

abbreviation run_code :: "world \<Rightarrow> service \<Rightarrow> token_response result \<times> service" where
  "run_code w \<equiv> authorization_code_grant example_issuer w example_code_request example_app None"

definition example_code_response :: token_response where
  "example_code_response = \<lparr> tres_access_token = ''oat_oat_r'', tres_token_type = ''Bearer'', tres_expires_in = 60,
     tres_refresh_token = Some ''signed'', tres_id_token = Some ''signed'', tres_scope = Some ''openid read'',
     tres_issued_token_type = None \<rparr>"

definition example_exchanged :: service where
  "example_exchanged = snd (run_code example_world example_waiting)"

lemma example_waiting_wf:
  "repo_wf (sv_repo example_waiting)" "keyed code_code_hash (st_authorization_codes (repo_store (sv_repo example_waiting)))"
  by (simp_all add: example_waiting_def example_granted_def example_service_def repo_wf_def push_valid_def hm_wf_def
      empty_store_def keyed_def example_code_def)

lemma example_code_runs: "run_code example_world example_waiting = (Inr example_code_response, example_exchanged)"
proof -
  have "fst (run_code example_world example_waiting) = Inr example_code_response" by code_simp
  thus ?thesis unfolding example_exchanged_def by (metis prod.collapse)
qed

theorem exchanged_once_witness:
  "run_code example_world example_waiting = (Inr example_code_response, example_exchanged) \<and>
   (\<exists>e. run_code example_later example_exchanged = (Inl e, example_exchanged))"
proof -
  have shown: "presents ByCode example_issuer example_code_request = Some (CodeTicket ''c'')"
    by (simp add: example_issuer_def example_authority_def example_code_request_def)
  have run: "exchange ByCode example_issuer example_world example_code_request example_app None example_waiting
      = (Inr example_code_response, example_exchanged)" by (simp add: example_code_runs)
  from exchanged_once [OF example_waiting_wf run shown rtranclp.rtrancl_refl shown,
      where w' = example_later and c' = example_app and cnf' = None] example_code_runs
  show ?thesis by simp
qed

theorem code_exchange_bound_witness:
  "\<exists>family. families_of example_exchanged = hm_insert ''oat_r'' family (families_of example_waiting) \<and>
     tf_user_id family = ''alice'' \<and> tf_scopes family = [''openid'', ''read''] \<and> tf_session_id family = Some ''s1''"
proof -
  from code_exchange_bound [OF example_waiting_wf(2) example_code_runs]
  obtain plain and code :: authorization_code and family :: token_family and u :: user where
    facts: "tr_code example_code_request = Some plain"
      "hm_get (st_authorization_codes (repo_store (sv_repo example_waiting))) (au_sha256_base64url example_issuer plain) = Some code"
      "hm_get (st_users (repo_store (sv_repo example_waiting))) (code_user_id code) = Some u"
      "issues_family example_world family example_waiting example_exchanged" "tf_user_id family = usr_id u"
      "tf_scopes family = code_scopes code" "tf_session_id family = code_session_id code"
    by blast
  hence code: "code = example_code"
    by (simp add: example_code_request_def example_issuer_def example_authority_def example_waiting_def split: if_splits)
  moreover have "hm_get (st_users (repo_store (sv_repo example_waiting))) ''alice'' = Some example_account" by code_simp
  ultimately have "usr_id u = ''alice''"
    using facts(3) by (auto simp: example_code_def example_account_def example_user_def)
  with facts code show ?thesis
    by (auto simp: issues_family_def generate_jti_def example_code_def)
qed


end
