(* ===== verification/Spec2Isabelle.thy ===== *)
theory Spec2Isabelle
  imports Qid_Repository Qid_Limits Qid_Network Qid_Session Qid_Grants
begin

text \<open>
  A verification development for qid, an identity and control plane written in Rust.

  \<^bold>\<open>The program.\<close> Protocol crates (OAuth, OIDC, SAML, SCIM, federation, browser sessions, network
  access) sit on shared engines (policy, relationships, admission limits, push approval, multi-factor
  primitives) and on a repository that a file store and a SQL store implement. A request handler
  reads and changes the repository through its operations, reads the clock and draws random values;
  the file repository keeps all tables in memory and writes them to one file. This development
  models the engines, the file repository, the login and session handlers, the grants of the token
  endpoint and the network access profile.

  \<^bold>\<open>Conventions.\<close> A \<^verbatim>\<open>str\<close> is the list of its UTF-8 octets, \<^verbatim>\<open>u64\<close> and \<^verbatim>\<open>u32\<close> are machine
  words, a \<^verbatim>\<open>HashMap\<close> is an association list with distinct keys whose order stands for the
  unspecified iteration order, \<^verbatim>\<open>Result\<close> is a sum with the error on the left and \<^verbatim>\<open>?\<close> is
  \<open>and_then\<close>. A plain addition wraps, as in a release build. An asynchronous handler is a state
  transformer that stops at the first error and keeps the changes made before it (\<open>Qid_Handlers\<close>).
  The clock, the outcome of each disk write and each random value are read from a \<open>world\<close> by an
  index of their own, so no two readings of a handler are assumed equal. What comes from external
  crates (digests, signatures, JOSE, CBOR, URL parsing, Unicode case mapping) is a field of the
  records \<open>crypto\<close>, \<open>authority\<close> or \<open>password_credentials\<close> or an argument; a theorem that needs a law
  of it states the law as a hypothesis.

  \<^bold>\<open>Theories.\<close> Paths are relative to \<^verbatim>\<open>src\<close>.
  \<^item> \<open>Qid_Prelude\<close>: \<^verbatim>\<open>qid-core/src/error.rs\<close>; results, saturating and checked arithmetic, strings, hash maps.
  \<^item> \<open>Qid_Handlers\<close>: the composition of handlers and the inversion lemmas all handler proofs use.
  \<^item> \<open>Qid_Policy\<close>: \<^verbatim>\<open>qid-policy\<close>. The strict expression parser, three-valued evaluation and the
    decision procedure, with its equivalence to a grammar and its refinement of a declarative contract.
    The locale \<open>rebac_evaluator\<close> is what a rule relies on from the relationship engine.
  \<^item> \<open>Qid_Rebac\<close>: \<^verbatim>\<open>qid-iga/src/rebac.rs\<close>. The breadth-first check decides bounded reachability, the
    expansion agrees with it, and a tenant sees only its own tuples; interprets \<open>rebac_evaluator\<close>.
  \<^item> \<open>Qid_Models_Auth\<close>, \<open>Qid_Models_Lifecycle\<close>: \<^verbatim>\<open>qid-core/src/models\<close>, the rows of the tables.
  \<^item> \<open>Qid_File_Store\<close>: \<^verbatim>\<open>qid-storage/src/file/mod.rs\<close> and \<^verbatim>\<open>insert.rs\<close>. The store, its flush modes and
    rollback; durability. The locale \<open>one_shot\<close> is the contract of anything redeemed at most once.
  \<^item> \<open>Qid_Tokens\<close>, \<open>Qid_Identity\<close>, \<open>Qid_Credentials\<close>: the other files of \<^verbatim>\<open>qid-storage/src/file\<close>, one
    definition per repository operation; rotation, deletion and single-use properties.
  \<^item> \<open>Qid_Push\<close>, \<open>Qid_Push_Store\<close>, \<open>Qid_Push_Props\<close>, \<open>Qid_Push_Limits\<close>: \<^verbatim>\<open>qid-storage/src/push.rs\<close> and
    \<^verbatim>\<open>file/push.rs\<close>. The operations refine abstract transitions; attempts and notifications are bounded.
  \<^item> \<open>Qid_Repository\<close>: all operations interleaved on one store, by rule induction over a step
    relation; interprets \<open>one_shot\<close> for every kind of ticket, and shows that revocation is final.
  \<^item> \<open>Qid_Limits\<close>: \<^verbatim>\<open>qid-http/src/ratelimit.rs\<close>, \<^verbatim>\<open>qid-core/src/throttle.rs\<close> and the two login limiters of
    \<^verbatim>\<open>qid-session\<close>. Admissions in a window are bounded and a lockout ends.
  \<^item> \<open>Qid_Mfa\<close>: \<^verbatim>\<open>qid-mfa\<close>. What the signature of a push device covers; enrolment; recovery codes.
  \<^item> \<open>Qid_Session\<close>: \<^verbatim>\<open>qid-session\<close>. Password, push and one-time-code login, session refresh and logout.
    Its locales \<open>repo_relation\<close> and \<open>handler_relation\<close> lift a relation between repositories from
    the operations to the handlers; the interpretations give that no request revives what was
    revoked and that only a completed login adds a session.
  \<^item> \<open>Qid_OAuth\<close>: \<^verbatim>\<open>qid-core/src/oauth.rs\<close>, \<^verbatim>\<open>pkce.rs\<close>, \<^verbatim>\<open>jwt.rs\<close> and \<^verbatim>\<open>qid-oauth/src/endpoints/token_issue.rs\<close>.
    Audiences, scope ceilings, PKCE and the issuance of token pairs and ID tokens.
  \<^item> \<open>Qid_Grants\<close>: \<^verbatim>\<open>token_grant.rs\<close>, \<^verbatim>\<open>device_flow.rs\<close> and \<^verbatim>\<open>ciba.rs\<close> of the same directory. Codes, client
    credentials, refresh tokens, device codes and backchannel requests. Its locale \<open>grant_relation\<close>
    does for grants what \<open>handler_relation\<close> does for sessions. A grant is exchanged once and for what
    was authorised, an approval has a live session behind it, a replayed refresh token ends its
    family, and a logout ends the families of its session.
  \<^item> \<open>Qid_Network\<close>: \<^verbatim>\<open>qid-network\<close>. RADIUS and TACACS+ codecs with their round trips, authenticators and
    the request handlers, which never panic.

  \<^bold>\<open>Bounds and fuel.\<close> Loops are structural or have a termination proof. \<open>split_words\<close> takes the
  length of its text as fuel, and each step consumes an octet. \<open>fill_codes\<close> draws random codes until it
  has enough distinct ones and is a \<^verbatim>\<open>partial_function\<close>; it returns whenever the generator keeps
  producing new codes. The relationship check is bounded by the depth the source fixes.

  \<^bold>\<open>Not modelled.\<close> The SQL store (statements run by a database), network and process I/O (listeners,
  delivery workers, CIBA ping notifications, audit events and metrics, the command line), HTML pages and response headers, the
  cryptographic crates, and the protocols not listed above: OIDC, SAML, SCIM, federation, verifiable
  credentials and, within OAuth, client authentication at the token endpoint, token exchange,
  introspection, revocation and dynamic registration. A process is assumed to hold its store lock
  for each repository operation, as the code does; handlers interleave between operations only in
  the theorems that quantify over the steps in between.
\<close>

end
